(* ===== verification/Dm_Prelude.thy ===== *)
theory Dm_Prelude
  imports Main "HOL-Library.Word" "HOL-Library.Sublist"
begin

text \<open>
  Shared vocabulary of the development: the outcomes of a C function, the error macros of
  \<^verbatim>\<open>dmcore/include/error_macros.h\<close>, the allocator, the parts of \<^verbatim>\<open>string.h\<close> the library
  calls, and the lemmas on them that the component theories share.

  A C string is a \<^typ>\<open>string\<close> without its terminating NUL.  A computation of the library
  is a function from a state to an outcome and a new state.  The outcomes are a normal
  return (\<open>Val\<close>), a non-zero SyncML code (\<open>Err\<close>), and \<open>Ub\<close> for an execution
  that has left the language's defined behaviour: an access outside an object, a null
  dereference, a signed overflow, a use after free.
\<close>

section \<open>Outcomes and commands\<close>

datatype 'a outcome = Val 'a | Err int | Ub

type_synonym ('s, 'a) cmd = "'s \<Rightarrow> 'a outcome \<times> 's"

named_theorems cmd_defs "definitions of the command combinators"
named_theorems cmd_val "inversion of a command that returns normally"
named_theorems keeps_rules "composition rules for preserved state predicates"

text \<open>The codes of \<^verbatim>\<open>enum omadm_syncml_errors\<close> that the modelled code uses.\<close>

abbreviation OMADM_SYNCML_ERROR_NONE :: int where "OMADM_SYNCML_ERROR_NONE \<equiv> 0"
abbreviation OMADM_SYNCML_ERROR_IN_PROGRESS :: int where "OMADM_SYNCML_ERROR_IN_PROGRESS \<equiv> 101"
abbreviation OMADM_SYNCML_ERROR_SUCCESS :: int where "OMADM_SYNCML_ERROR_SUCCESS \<equiv> 200"
abbreviation OMADM_SYNCML_ERROR_AUTHENTICATION_ACCEPTED :: int
  where "OMADM_SYNCML_ERROR_AUTHENTICATION_ACCEPTED \<equiv> 212"
abbreviation OMADM_SYNCML_ERROR_NOT_EXECUTED :: int where "OMADM_SYNCML_ERROR_NOT_EXECUTED \<equiv> 215"
abbreviation OMADM_SYNCML_ERROR_NOT_MODIFIED :: int where "OMADM_SYNCML_ERROR_NOT_MODIFIED \<equiv> 304"
abbreviation OMADM_SYNCML_ERROR_INVALID_CREDENTIALS :: int
  where "OMADM_SYNCML_ERROR_INVALID_CREDENTIALS \<equiv> 401"
abbreviation OMADM_SYNCML_ERROR_NOT_FOUND :: int where "OMADM_SYNCML_ERROR_NOT_FOUND \<equiv> 404"
abbreviation OMADM_SYNCML_ERROR_NOT_ALLOWED :: int where "OMADM_SYNCML_ERROR_NOT_ALLOWED \<equiv> 405"
abbreviation OMADM_SYNCML_ERROR_OPTIONAL_FEATURE_NOT_SUPPORTED :: int
  where "OMADM_SYNCML_ERROR_OPTIONAL_FEATURE_NOT_SUPPORTED \<equiv> 406"
abbreviation OMADM_SYNCML_ERROR_MISSING_CREDENTIALS :: int
  where "OMADM_SYNCML_ERROR_MISSING_CREDENTIALS \<equiv> 407"
abbreviation OMADM_SYNCML_ERROR_INCOMPLETE_COMMAND :: int
  where "OMADM_SYNCML_ERROR_INCOMPLETE_COMMAND \<equiv> 412"
abbreviation OMADM_SYNCML_ERROR_URI_TOO_LONG :: int where "OMADM_SYNCML_ERROR_URI_TOO_LONG \<equiv> 414"
abbreviation OMADM_SYNCML_ERROR_ALREADY_EXISTS :: int
  where "OMADM_SYNCML_ERROR_ALREADY_EXISTS \<equiv> 418"
abbreviation OMADM_SYNCML_ERROR_DEVICE_FULL :: int where "OMADM_SYNCML_ERROR_DEVICE_FULL \<equiv> 420"
abbreviation OMADM_SYNCML_ERROR_PERMISSION_DENIED :: int
  where "OMADM_SYNCML_ERROR_PERMISSION_DENIED \<equiv> 425"
abbreviation OMADM_SYNCML_ERROR_COMMAND_FAILED :: int
  where "OMADM_SYNCML_ERROR_COMMAND_FAILED \<equiv> 500"
abbreviation OMADM_SYNCML_ERROR_COMMAND_NOT_IMPLEMENTED :: int
  where "OMADM_SYNCML_ERROR_COMMAND_NOT_IMPLEMENTED \<equiv> 501"
abbreviation OMADM_SYNCML_ERROR_SESSION_INTERNAL :: int
  where "OMADM_SYNCML_ERROR_SESSION_INTERNAL \<equiv> 506"

definition ret :: "'a \<Rightarrow> ('s, 'a) cmd" where
  [cmd_defs]: "ret a s = (Val a, s)"

definition lift :: "'a outcome \<Rightarrow> ('s, 'a) cmd" where
  [cmd_defs]: "lift r s = (r, s)"

text \<open>
  The error macros.  Each jumps to the function's error label, which in every caller frees
  the locals and returns the code; the continuation is the code after the macro.
\<close>

definition DMC_FAIL :: "('s, 'a) cmd \<Rightarrow> ('a \<Rightarrow> ('s, 'b) cmd) \<Rightarrow> ('s, 'b) cmd" where
  [cmd_defs]: "DMC_FAIL m k s =
     (case m s of (Val a, t) \<Rightarrow> k a t | (Err e, t) \<Rightarrow> (Err e, t) | (Ub, t) \<Rightarrow> (Ub, t))"

definition DMC_FAIL_ERR :: "bool \<Rightarrow> int \<Rightarrow> ('s, 'b) cmd \<Rightarrow> ('s, 'b) cmd" where
  [cmd_defs]: "DMC_FAIL_ERR b e k s = (if b then (Err e, s) else k s)"

definition DMC_FAIL_NULL ::
  "('s \<Rightarrow> 'a option \<times> 's) \<Rightarrow> int \<Rightarrow> ('a \<Rightarrow> ('s, 'b) cmd) \<Rightarrow> ('s, 'b) cmd" where
  [cmd_defs]: "DMC_FAIL_NULL m e k s =
     (case m s of (None, t) \<Rightarrow> (Err e, t) | (Some a, t) \<Rightarrow> k a t)"

definition DMC_FAIL_FORCE :: "int \<Rightarrow> ('s, 'b) cmd" where
  [cmd_defs]: "DMC_FAIL_FORCE e s = (Err e, s)"

text \<open>A pure pointer expression in the place of an allocating one.\<close>

definition pure :: "'a option \<Rightarrow> 's \<Rightarrow> 'a option \<times> 's" where
  [cmd_defs]: "pure x s = (x, s)"

text \<open>A call whose code the caller inspects instead of failing on it.\<close>

definition try_code :: "('s, 'a) cmd \<Rightarrow> (int + 'a \<Rightarrow> ('s, 'b) cmd) \<Rightarrow> ('s, 'b) cmd" where
  [cmd_defs]: "try_code m k s =
     (case m s of (Val a, t) \<Rightarrow> k (Inr a) t | (Err e, t) \<Rightarrow> k (Inl e) t | (Ub, t) \<Rightarrow> (Ub, t))"

lemma ret_val [cmd_val]: "ret a s = (Val b, t) \<longleftrightarrow> b = a \<and> t = s"
  by (auto simp: cmd_defs)

lemma lift_val [cmd_val]: "lift r s = (Val b, t) \<longleftrightarrow> r = Val b \<and> t = s"
  by (auto simp: cmd_defs)

lemma FAIL_at: "m s = (Val a, t) \<Longrightarrow> DMC_FAIL m k s = k a t"
  by (simp add: DMC_FAIL_def)

lemma FAIL_Ub: "fst (m s) = Ub \<Longrightarrow> fst (DMC_FAIL m k s) = Ub"
  by (auto simp: DMC_FAIL_def split: prod.split)

lemma DMC_FAIL_val [cmd_val]:
  "DMC_FAIL m k s = (Val b, t) \<longleftrightarrow> (\<exists>a u. m s = (Val a, u) \<and> k a u = (Val b, t))"
  by (auto simp: cmd_defs split: prod.splits outcome.splits)

lemma DMC_FAIL_ERR_val [cmd_val]:
  "DMC_FAIL_ERR c e k s = (Val b, t) \<longleftrightarrow> \<not> c \<and> k s = (Val b, t)"
  by (auto simp: cmd_defs)

lemma DMC_FAIL_NULL_val [cmd_val]:
  "DMC_FAIL_NULL m e k s = (Val b, t) \<longleftrightarrow> (\<exists>a u. m s = (Some a, u) \<and> k a u = (Val b, t))"
  by (auto simp: cmd_defs split: prod.splits option.splits)

lemma DMC_FAIL_FORCE_val [cmd_val]: "DMC_FAIL_FORCE e s = (Val b, t) \<longleftrightarrow> False"
  by (simp add: cmd_defs)

lemma pure_val [cmd_val]: "pure x s = (y, t) \<longleftrightarrow> y = x \<and> t = s"
  by (auto simp: cmd_defs)

section \<open>State predicates kept by a command\<close>

definition keeps :: "('s \<Rightarrow> bool) \<Rightarrow> ('s \<Rightarrow> 'a \<times> 's) \<Rightarrow> bool" where
  "keeps I m \<longleftrightarrow> (\<forall>s. I s \<longrightarrow> I (snd (m s)))"

lemma keepsI: "(\<And>s. I s \<Longrightarrow> I (snd (m s))) \<Longrightarrow> keeps I m"
  by (simp add: keeps_def)

lemma keepsD: "keeps I m \<Longrightarrow> I s \<Longrightarrow> m s = (r, t) \<Longrightarrow> I t"
  by (metis keeps_def snd_conv)

lemma keeps_ret [keeps_rules]: "keeps I (ret a)"
  by (simp add: keeps_def cmd_defs)

lemma keeps_lift [keeps_rules]: "keeps I (lift r)"
  by (simp add: keeps_def cmd_defs)

lemma keeps_pure [keeps_rules]: "keeps I (pure x)"
  by (simp add: keeps_def cmd_defs)

lemma keeps_FORCE [keeps_rules]: "keeps I (DMC_FAIL_FORCE e)"
  by (simp add: keeps_def cmd_defs)

lemma keeps_FAIL [keeps_rules]:
  "keeps I m \<Longrightarrow> (\<And>a. keeps I (k a)) \<Longrightarrow> keeps I (DMC_FAIL m k)"
  by (fastforce simp: keeps_def DMC_FAIL_def split: prod.splits outcome.splits)

lemma keeps_FAIL_ERR [keeps_rules]: "keeps I k \<Longrightarrow> keeps I (DMC_FAIL_ERR b e k)"
  by (simp add: keeps_def cmd_defs)

lemma keeps_FAIL_NULL [keeps_rules]:
  "keeps I m \<Longrightarrow> (\<And>a. keeps I (k a)) \<Longrightarrow> keeps I (DMC_FAIL_NULL m e k)"
  by (fastforce simp: keeps_def DMC_FAIL_NULL_def split: prod.splits option.splits)

lemma keeps_try_code [keeps_rules]:
  "keeps I m \<Longrightarrow> (\<And>a. keeps I (k a)) \<Longrightarrow> keeps I (try_code m k)"
  by (fastforce simp: keeps_def try_code_def split: prod.splits outcome.splits)

lemma keeps_option [keeps_rules]:
  "keeps I f \<Longrightarrow> (\<And>y. keeps I (g y)) \<Longrightarrow> keeps I (case x of None \<Rightarrow> f | Some y \<Rightarrow> g y)"
  by (cases x) simp_all

lemma keeps_sum [keeps_rules]:
  "(\<And>e. keeps I (f e)) \<Longrightarrow> (\<And>y. keeps I (g y)) \<Longrightarrow> keeps I (case x of Inl e \<Rightarrow> f e | Inr y \<Rightarrow> g y)"
  by (cases x) simp_all

lemma keeps_list [keeps_rules]:
  "keeps I f \<Longrightarrow> (\<And>y ys. keeps I (g y ys)) \<Longrightarrow> keeps I (case x of [] \<Rightarrow> f | y # ys \<Rightarrow> g y ys)"
  by (cases x) simp_all

lemma keeps_present:
  "(\<And>a. x = Some a \<Longrightarrow> keeps I (k a)) \<Longrightarrow> keeps I (DMC_FAIL_NULL (pure x) e k)"
  by (cases x) (simp_all add: keeps_def cmd_defs)

lemma keeps_prod [keeps_rules]: "(\<And>a b. keeps I (g a b)) \<Longrightarrow> keeps I (case x of (a, b) \<Rightarrow> g a b)"
  by (cases x) simp

text \<open>The same for commands written with an explicit state.\<close>

lemma keeps_then [keeps_rules]:
  "keeps I m \<Longrightarrow> (\<And>x. keeps I (k x)) \<Longrightarrow> keeps I (\<lambda>s. case m s of (x, t) \<Rightarrow> k x t)"
  by (fastforce simp: keeps_def split: prod.splits)

lemma keeps_now [keeps_rules]: "keeps I (\<lambda>s. (r, s))"
  by (simp add: keeps_def)

lemma keeps_if_at [keeps_rules]:
  "keeps I m \<Longrightarrow> keeps I n \<Longrightarrow> keeps I (\<lambda>s. if b s then m s else n s)"
  by (auto simp: keeps_def)

lemma keeps_lift_at [keeps_rules]:
  "(\<And>a. keeps I (k a)) \<Longrightarrow> keeps I (\<lambda>s. DMC_FAIL (lift (g s)) k s)"
  by (auto simp: keeps_def cmd_defs split: outcome.splits)

lemma keeps_option_at [keeps_rules]:
  "keeps I f \<Longrightarrow> (\<And>y. keeps I (g y)) \<Longrightarrow> keeps I (\<lambda>s. case x s of None \<Rightarrow> f s | Some y \<Rightarrow> g y s)"
  by (auto simp: keeps_def split: option.split)

lemma keeps_prod_at [keeps_rules]:
  "(\<And>a b. keeps I (g a b)) \<Longrightarrow> keeps I (\<lambda>s. case x of (a, b) \<Rightarrow> g a b s)"
  by (cases x) simp

lemma keeps_if [keeps_rules]: "keeps I m \<Longrightarrow> keeps I n \<Longrightarrow> keeps I (if b then m else n)"
  by simp

lemma keeps_before: "keeps I m \<Longrightarrow> (\<And>s. I s \<Longrightarrow> I (f s)) \<Longrightarrow> keeps I (\<lambda>s. m (f s))"
  by (simp add: keeps_def)

lemma keeps_at: "(\<And>x. keeps I (m x)) \<Longrightarrow> keeps I (\<lambda>s. m (g s) s)"
  by (simp add: keeps_def)

section \<open>Effects that need a reason\<close>

text \<open>\<open>needs I A m\<close>: the command \<open>m\<close> keeps \<open>I\<close> unless \<open>A\<close> holds.\<close>

definition needs :: "('s \<Rightarrow> bool) \<Rightarrow> bool \<Rightarrow> ('s \<Rightarrow> 'a \<times> 's) \<Rightarrow> bool" where
  "needs I A m \<longleftrightarrow> (\<forall>s. I s \<longrightarrow> A \<or> I (snd (m s)))"

lemma needsD: "needs I A m \<Longrightarrow> I s \<Longrightarrow> m s = (r, t) \<Longrightarrow> \<not> A \<Longrightarrow> I t"
  by (metis needs_def snd_conv)

lemma needs_keeps: "keeps I m \<Longrightarrow> needs I A m"
  by (simp add: needs_def keeps_def)

lemma needs_FAIL:
  "keeps I m \<Longrightarrow> (\<And>s a t. I s \<Longrightarrow> m s = (Val a, t) \<Longrightarrow> A \<or> needs I A (k a)) \<Longrightarrow> needs I A (DMC_FAIL m k)"
  by (fastforce simp: needs_def keeps_def DMC_FAIL_def split: prod.splits outcome.splits)

lemma needs_FAIL_ERR: "(\<not> b \<Longrightarrow> needs I A k) \<Longrightarrow> needs I A (DMC_FAIL_ERR b e k)"
  by (simp add: needs_def cmd_defs)

lemma needs_FAIL_NULL:
  "keeps I m \<Longrightarrow> (\<And>s a t. I s \<Longrightarrow> m s = (Some a, t) \<Longrightarrow> A \<or> needs I A (k a)) \<Longrightarrow>
     needs I A (DMC_FAIL_NULL m e k)"
  by (fastforce simp: needs_def keeps_def DMC_FAIL_NULL_def split: prod.splits option.splits)

lemma needs_present: "(\<And>a. x = Some a \<Longrightarrow> needs I A (k a)) \<Longrightarrow> needs I A (DMC_FAIL_NULL (pure x) e k)"
  by (cases x) (simp_all add: needs_def cmd_defs)

lemma by_fst: "fst x = a \<Longrightarrow> x = (a, snd x)"
  by auto

section \<open>The allocator\<close>

text \<open>
  \<open>mem\<close> is the schedule of the coming allocations: each element says whether the next call
  of \<^verbatim>\<open>malloc\<close> or \<^verbatim>\<open>strdup\<close> succeeds, and past the end of the schedule every call does.
  \<open>plenty\<close> states that no allocation fails.
\<close>

record heap =
  mem :: "bool list"

definition malloc :: "'a \<Rightarrow> 'z heap_scheme \<Rightarrow> 'a option \<times> 'z heap_scheme" where
  "malloc a h =
     (case mem h of [] \<Rightarrow> (Some a, h) | b # bs \<Rightarrow> (if b then Some a else None, h\<lparr>mem := bs\<rparr>))"

abbreviation strdup :: "string \<Rightarrow> 'z heap_scheme \<Rightarrow> string option \<times> 'z heap_scheme" where
  "strdup \<equiv> malloc"

abbreviation plenty :: "'z heap_scheme \<Rightarrow> bool" where
  "plenty h \<equiv> mem h = []"

lemma malloc_plenty [simp]: "plenty h \<Longrightarrow> malloc a h = (Some a, h)"
  by (simp add: malloc_def)

lemma malloc_SomeD: "malloc a h = (Some b, h') \<Longrightarrow> b = a"
  by (auto simp: malloc_def split: list.splits if_splits)

lemma malloc_more: "malloc a h = (r, h') \<Longrightarrow> heap.more h' = heap.more h"
  by (auto simp: malloc_def split: list.splits)

lemma malloc_cases:
  obtains "malloc a h = (Some a, h)" and "mem h = []"
  | bs where "malloc a h = (Some a, h\<lparr>mem := bs\<rparr>)" and "mem h = True # bs"
  | bs where "malloc a h = (None, h\<lparr>mem := bs\<rparr>)" and "mem h = False # bs"
proof (cases "mem h")
  case Nil
  then show ?thesis using that(1) by simp
next
  case (Cons b bs)
  then show ?thesis using that(2,3) by (cases b) (simp_all add: malloc_def)
qed

lemma keeps_plenty_malloc [keeps_rules]: "keeps plenty (malloc a)"
  by (simp add: keeps_def)

section \<open>What only allocates\<close>

text \<open>
  \<open>drawn e s\<close>: the state \<open>s\<close> differs from \<open>e\<close> at most in the allocations drawn from the
  schedule.  A command that keeps \<open>drawn e\<close> for every \<open>e\<close> only allocates.
\<close>

definition drawn :: "'z heap_scheme \<Rightarrow> 'z heap_scheme \<Rightarrow> bool" where
  "drawn e s \<longleftrightarrow> heap.more s = heap.more e \<and> suffix (mem s) (mem e)"

lemma drawn_refl [simp]: "drawn s s"
  by (simp add: drawn_def)

lemma drawn_trans: "drawn a b \<Longrightarrow> drawn b c \<Longrightarrow> drawn a c"
  unfolding drawn_def by (metis suffix_order.trans)

lemma malloc_drawn: "drawn s (snd (malloc a s))"
  by (auto simp: malloc_def drawn_def suffix_def split: list.split)

lemma drawn_malloc [keeps_rules]: "keeps (drawn e) (malloc a)"
  by (rule keepsI) (metis drawn_trans malloc_drawn)

lemma drawn_mallocD: "malloc a s = (r, t) \<Longrightarrow> drawn e s \<Longrightarrow> drawn e t"
  using keepsD [OF drawn_malloc] .

lemma drawnD: "\<forall>e. keeps (drawn e) m \<Longrightarrow> drawn s (snd (m s))"
  by (simp add: keeps_def)

lemma drawn_plenty: "drawn s t \<Longrightarrow> plenty s \<Longrightarrow> t = s"
  by (cases s; cases t) (simp add: drawn_def)

lemma plenty_same: "(\<And>e. keeps (drawn e) m) \<Longrightarrow> plenty s \<Longrightarrow> m s = (r, t) \<Longrightarrow> t = s"
  by (metis drawnD drawn_plenty snd_conv)

lemma drawn_keeps: "(\<And>e. keeps (drawn e) m) \<Longrightarrow> (\<And>s t. drawn s t \<Longrightarrow> I s \<Longrightarrow> I t) \<Longrightarrow> keeps I m"
  by (rule keepsI) (metis drawnD)

section \<open>string.h\<close>

definition strchr :: "string \<Rightarrow> char \<Rightarrow> string option" where
  "strchr s c = (if c \<in> set s then Some (dropWhile (\<lambda>x. x \<noteq> c) s) else None)"

text \<open>The last occurrence, as the string before it and the string from it.\<close>

definition strrchr :: "string \<Rightarrow> char \<Rightarrow> (string \<times> string) option" where
  "strrchr s c =
     (if c \<in> set s
      then Some (rev (tl (dropWhile (\<lambda>x. x \<noteq> c) (rev s))), c # rev (takeWhile (\<lambda>x. x \<noteq> c) (rev s)))
      else None)"

fun strstr :: "string \<Rightarrow> string \<Rightarrow> string option" where
  "strstr [] t = (if t = [] then Some [] else None)"
| "strstr (c # cs) t = (if prefix t (c # cs) then Some (c # cs) else strstr cs t)"

text \<open>The part of \<open>s\<close> before the suffix \<open>r\<close> a search returned.\<close>

definition before :: "string \<Rightarrow> string \<Rightarrow> string" where
  "before s r = take (length s - length r) s"

lemma strchr_None: "strchr s c = None \<longleftrightarrow> c \<notin> set s"
  by (simp add: strchr_def)

lemma strchr_absent [simp]: "c \<notin> set s \<Longrightarrow> strchr s c = None"
  by (simp add: strchr_def)

lemma strchr_SomeD:
  assumes "strchr s c = Some r"
  shows "s = takeWhile (\<lambda>x. x \<noteq> c) s @ r" and "\<exists>r'. r = c # r'"
    and "c \<notin> set (takeWhile (\<lambda>x. x \<noteq> c) s)"
proof -
  have c: "c \<in> set s" and r: "r = dropWhile (\<lambda>x. x \<noteq> c) s"
    using assms by (auto simp: strchr_def split: if_splits)
  show "s = takeWhile (\<lambda>x. x \<noteq> c) s @ r" by (simp add: r)
  have ne: "r \<noteq> []" using c by (auto simp: r dropWhile_eq_Nil_conv)
  then have "hd r = c" using hd_dropWhile [of "\<lambda>x. x \<noteq> c" s] by (simp add: r)
  then show "\<exists>r'. r = c # r'" using ne by (cases r) auto
  show "c \<notin> set (takeWhile (\<lambda>x. x \<noteq> c) s)" by (auto dest: set_takeWhileD)
qed

lemma strchr_shorter:
  assumes "strchr s c = Some r"
  shows "length (tl r) < length s"
proof -
  obtain r' where r: "r = c # r'" using strchr_SomeD(2) [OF assms] by blast
  have "length s = length (takeWhile (\<lambda>x. x \<noteq> c) s) + length r"
    using arg_cong [OF strchr_SomeD(1) [OF assms], of length] by simp
  then show ?thesis by (simp add: r)
qed

lemma strchr_append: "c \<notin> set s \<Longrightarrow> strchr (s @ c # t) c = Some (c # t)"
  by (induction s) (auto simp: strchr_def)

lemma before_append [simp]: "before (a @ b) b = a"
  by (simp add: before_def)

lemma before_Nil_right [simp]: "before s [] = s"
  by (simp add: before_def)

lemma strstr_SomeD:
  "strstr s t = Some r \<Longrightarrow> prefix t r \<and> s = before s r @ r"
proof (induction s t rule: strstr.induct)
  case (1 t)
  then show ?case by (auto simp: before_def split: if_splits)
next
  case (2 c cs t)
  show ?case
  proof (cases "prefix t (c # cs)")
    case True
    with 2 show ?thesis by (auto simp: before_def)
  next
    case False
    with 2 have IH: "prefix t r \<and> cs = before cs r @ r" by simp
    then have "c # cs = (c # before cs r) @ r" by simp
    then show ?thesis using IH by (metis before_append)
  qed
qed

lemma strstr_None: "strstr s t = None \<longleftrightarrow> (\<forall>a b. s \<noteq> a @ t @ b)"
proof (induction s t rule: strstr.induct)
  case (1 t)
  then show ?case by auto
next
  case (2 c cs t)
  show ?case
  proof (cases "prefix t (c # cs)")
    case True
    then show ?thesis by (auto simp: prefix_def) (metis append_Nil)
  next
    case False
    then have "(\<exists>a b. c # cs = a @ t @ b) \<longleftrightarrow> (\<exists>a b. cs = a @ t @ b)"
      by (metis append_Cons append_Nil append_eq_Cons_conv prefixI)
    with False 2 show ?thesis by auto
  qed
qed

lemma strstr_shorter: "strstr s t = Some r \<Longrightarrow> length r \<le> length s"
  using strstr_SomeD by (metis le_add2 length_append)

lemma strrchr_SomeD:
  assumes "strrchr s c = Some (a, b)"
  shows "s = a @ b" and "\<exists>r. b = c # r \<and> c \<notin> set r"
proof -
  have c: "c \<in> set (rev s)" and a: "a = rev (tl (dropWhile (\<lambda>x. x \<noteq> c) (rev s)))"
    and b: "b = c # rev (takeWhile (\<lambda>x. x \<noteq> c) (rev s))"
    using assms by (auto simp: strrchr_def split: if_splits)
  obtain d where d: "dropWhile (\<lambda>x. x \<noteq> c) (rev s) = c # d"
    using c strchr_SomeD(2) [of "rev s" c] by (auto simp: strchr_def)
  then have "rev s = takeWhile (\<lambda>x. x \<noteq> c) (rev s) @ c # d"
    by (metis takeWhile_dropWhile_id)
  then have "s = rev d @ c # rev (takeWhile (\<lambda>x. x \<noteq> c) (rev s))"
    by (metis append.assoc append_Cons append_Nil rev.simps(2) rev_append rev_rev_ident)
  then show "s = a @ b" by (simp add: a b d)
  show "\<exists>r. b = c # r \<and> c \<notin> set r"
    unfolding b by (auto dest: set_takeWhileD)
qed

lemma strstr_first:
  "strstr s t = Some r \<Longrightarrow> t \<noteq> [] \<Longrightarrow> strstr (before s r) t = None"
proof (induction s t rule: strstr.induct)
  case (1 t)
  then show ?case by simp
next
  case (2 c cs t)
  show ?case
  proof (cases "prefix t (c # cs)")
    case True
    with 2 show ?thesis by (simp add: before_def)
  next
    case False
    with 2 have r: "strstr cs t = Some r" and IH: "strstr (before cs r) t = None" by simp_all
    have "length r \<le> length cs" using strstr_shorter [OF r] .
    then have b: "before (c # cs) r = c # before cs r" by (simp add: before_def Suc_diff_le)
    have "prefix (c # before cs r) (c # cs)" by (simp add: before_def take_is_prefix)
    with False have "\<not> prefix t (c # before cs r)" by (meson prefix_order.trans)
    with b IH show ?thesis by simp
  qed
qed

lemma strstr_absent:
  assumes "t \<noteq> []" and "hd t \<notin> set s"
  shows "strstr (s @ u) t = strstr u t"
  using assms
proof (induction s)
  case (Cons c s)
  then show ?case by (cases t) auto
qed simp

lemma strstr_absent_None: "t \<noteq> [] \<Longrightarrow> hd t \<notin> set s \<Longrightarrow> strstr s t = None"
  using strstr_absent [of t s "[]"] by simp

lemma strstr_take_None: "strstr (a @ b) t = None \<Longrightarrow> strstr a t = None"
  unfolding strstr_None by (metis append.assoc)

lemma strstr_before_None:
  assumes "strstr s t = Some r" and "strstr s t' = None"
  shows "strstr (before s r) t' = None"
proof -
  obtain b where b: "b = before s r" by blast
  have s: "b @ r = s" using strstr_SomeD [OF assms(1)] unfolding b by metis
  have "strstr (b @ r) t' = None" unfolding s by (rule assms(2))
  then show ?thesis unfolding b [symmetric] by (rule strstr_take_None)
qed

section \<open>Splitting on a separator\<close>

text \<open>Specification of the loops that walk a string from one separator to the next.\<close>

fun split_on :: "char \<Rightarrow> string \<Rightarrow> string list" where
  "split_on c [] = [[]]"
| "split_on c (x # xs) =
     (if x = c then [] # split_on c xs
      else (x # hd (split_on c xs)) # tl (split_on c xs))"

fun join_on :: "char \<Rightarrow> string list \<Rightarrow> string" where
  "join_on c [] = []"
| "join_on c [s] = s"
| "join_on c (s # ss) = s @ c # join_on c ss"

lemma split_on_not_Nil [simp]: "split_on c s \<noteq> []"
  by (cases s) auto

lemma split_on_single [simp]: "c \<notin> set s \<Longrightarrow> split_on c s = [s]"
  by (induction s) auto

lemma split_on_append [simp]: "c \<notin> set s \<Longrightarrow> split_on c (s @ c # t) = s # split_on c t"
  by (induction s) auto

lemma split_on_strchr:
  "split_on c s =
     (case strchr s c of None \<Rightarrow> [s] | Some r \<Rightarrow> takeWhile (\<lambda>x. x \<noteq> c) s # split_on c (tl r))"
proof (cases "strchr s c")
  case None
  then have c: "c \<notin> set s" by (simp add: strchr_None)
  show ?thesis unfolding None by (simp add: split_on_single [OF c])
next
  case (Some r)
  then obtain r' where r: "r = c # r'" and s: "s = takeWhile (\<lambda>x. x \<noteq> c) s @ c # r'"
    and c: "c \<notin> set (takeWhile (\<lambda>x. x \<noteq> c) s)"
    using strchr_SomeD [OF Some] by blast
  have "split_on c s = takeWhile (\<lambda>x. x \<noteq> c) s # split_on c r'"
    using split_on_append [OF c, of r'] s by simp
  then show ?thesis by (simp add: Some r)
qed

lemma split_on_pieces: "x \<in> set (split_on c s) \<Longrightarrow> c \<notin> set x"
proof (induction s arbitrary: x)
  case (Cons y ys)
  then show ?case by (cases "split_on c ys") (auto split: if_splits)
qed simp

lemma join_split [simp]: "join_on c (split_on c s) = s"
proof (induction s)
  case (Cons x xs)
  obtain y ys where "split_on c xs = y # ys" by (cases "split_on c xs") auto
  with Cons show ?case by (cases ys) auto
qed simp

lemma split_join:
  "ss \<noteq> [] \<Longrightarrow> (\<And>s. s \<in> set ss \<Longrightarrow> c \<notin> set s) \<Longrightarrow> split_on c (join_on c ss) = ss"
  by (induction c ss rule: join_on.induct) auto

text \<open>
  The pieces a loop visits that stops at the end of the string: an empty last piece is not one.
\<close>

definition pieces :: "char \<Rightarrow> string \<Rightarrow> string list" where
  "pieces c u = (let ps = split_on c u in if last ps = [] then butlast ps else ps)"

lemma pieces_rec:
  "pieces c u =
     (if u = [] then []
      else takeWhile (\<lambda>x. x \<noteq> c) u # pieces c (case strchr u c of None \<Rightarrow> [] | Some r \<Rightarrow> tl r))"
proof (cases "strchr u c")
  case None
  then have "c \<notin> set u" by (simp add: strchr_None)
  moreover from this have T: "takeWhile (\<lambda>x. x \<noteq> c) u = u" by (subst takeWhile_eq_all_conv) auto
  ultimately show ?thesis unfolding T using None by (simp add: pieces_def)
next
  case (Some r)
  then have "u \<noteq> []" by (auto simp: strchr_def)
  moreover have "split_on c u = takeWhile (\<lambda>x. x \<noteq> c) u # split_on c (tl r)"
    by (simp add: split_on_strchr [of _ u] Some)
  ultimately show ?thesis by (simp add: pieces_def Some Let_def)
qed

lemma pieces_Nil [simp]: "pieces c [] = []"
  by (simp add: pieces_def)

lemma piece_in_split:
  "c \<notin> set b \<Longrightarrow> (a = [] \<or> last a = c) \<Longrightarrow> (d = [] \<or> hd d = c) \<Longrightarrow> b \<in> set (split_on c (a @ b @ d))"
proof (induction "length a" arbitrary: a rule: less_induct)
  case less
  show ?case
  proof (cases "c \<in> set a")
    case True
    then obtain x y where a: "a = x @ c # y" "c \<notin> set x" by (meson split_list_first)
    have "y = [] \<or> last y = c" using less.prems(2) a by (auto split: if_splits)
    then have "b \<in> set (split_on c (y @ b @ d))" using less.hyps [of y] less.prems a by simp
    then show ?thesis using a by simp
  next
    case False
    then have "a = []" using less.prems(2) last_in_set by blast
    then show ?thesis using less.prems(1,3) by (cases d) simp_all
  qed
qed

end
