(* ===== verification/Uri_Check.thy ===== *)
theory Uri_Check
  imports Dm_Prelude
begin

text \<open>
  \<^verbatim>\<open>dmcore/src/uricheck.c\<close>: the syntax check every URI of a command passes before it reaches
  a management object, and its normal form.

  The character tests and the two validators are translated with the source's order of tests.
  A pointer into the path is the suffix of the string it points to.  The theory then states
  the grammar of the file's head comment and compares the code with it.
\<close>

section \<open>Character tests\<close>

definition in_range :: "char \<Rightarrow> char \<Rightarrow> char \<Rightarrow> bool" where
  "in_range lo hi c \<longleftrightarrow> of_char lo \<le> (of_char c :: nat) \<and> of_char c \<le> (of_char hi :: nat)"

definition prv_check_hex :: "char \<Rightarrow> bool" where
  "prv_check_hex target \<longleftrightarrow>
     in_range CHR ''A'' CHR ''F'' target \<or> in_range CHR ''a'' CHR ''f'' target \<or>
     in_range CHR ''0'' CHR ''9'' target"

definition prv_check_pchar :: "char \<Rightarrow> bool" where
  "prv_check_pchar target \<longleftrightarrow>
     in_range CHR ''A'' CHR ''Z'' target \<or> in_range CHR ''a'' CHR ''z'' target \<or>
     in_range CHR ''0'' CHR ''9'' target \<or>
     target \<in> set '':@&=+$,-_!~*()'' \<or> target = CHR 0x27"

lemma check_slash [simp]:
  "\<not> prv_check_hex CHR ''/''" "\<not> prv_check_pchar CHR ''/''"
  by (simp_all add: prv_check_hex_def prv_check_pchar_def in_range_def)

lemma check_query [simp]:
  "\<not> prv_check_hex CHR ''?''" "\<not> prv_check_pchar CHR ''?''"
  by (simp_all add: prv_check_hex_def prv_check_pchar_def in_range_def)

lemma check_percent_dot [simp]:
  "\<not> prv_check_pchar CHR ''%''" "\<not> prv_check_pchar CHR ''.''"
  by (simp_all add: prv_check_pchar_def in_range_def)

section \<open>uri_validate_path\<close>

text \<open>
  The loop over one segment: \<open>len\<close> characters are behind the pointer, \<open>p\<close> is the string
  at the pointer.  It returns the segment's length and the string at the slash or at the end.
  \<open>max_len\<close> 0 means unlimited.  In the escape case the code reads \<open>path_str + 1\<close> and,
  unless that is a hex digit, \<open>path_str + 2\<close>; then it moves the pointer by three.
\<close>

definition too_long :: "16 word \<Rightarrow> nat \<Rightarrow> bool" where
  "too_long max_len len \<longleftrightarrow> max_len \<noteq> 0 \<and> unat max_len < len"

fun seg_loop :: "16 word \<Rightarrow> nat \<Rightarrow> string \<Rightarrow> (nat \<times> string) outcome" where
  "seg_loop max_len len [] = Val (len, [])"
| "seg_loop max_len len (c # cs) =
     (if c = CHR ''/'' then Val (len, c # cs)
      else if c = CHR ''.'' then
        (if cs \<noteq> [] \<and> hd cs = CHR ''/'' then Err OMADM_SYNCML_ERROR_COMMAND_FAILED
         else if too_long max_len (len + 1) then Err OMADM_SYNCML_ERROR_URI_TOO_LONG
         else seg_loop max_len (len + 1) cs)
      else if c = CHR ''%'' then
        (case cs of
           [] \<Rightarrow> Ub
         | [h] \<Rightarrow>
             if \<not> prv_check_hex h then Err OMADM_SYNCML_ERROR_COMMAND_FAILED
             else if too_long max_len (len + 3) then Err OMADM_SYNCML_ERROR_URI_TOO_LONG
             else Ub
         | h # h' # rest \<Rightarrow>
             if \<not> prv_check_hex h \<and> \<not> prv_check_hex h' then Err OMADM_SYNCML_ERROR_COMMAND_FAILED
             else if too_long max_len (len + 3) then Err OMADM_SYNCML_ERROR_URI_TOO_LONG
             else seg_loop max_len (len + 3) rest)
      else
        (if \<not> prv_check_pchar c then Err OMADM_SYNCML_ERROR_COMMAND_FAILED
         else if too_long max_len (len + 1) then Err OMADM_SYNCML_ERROR_URI_TOO_LONG
         else seg_loop max_len (len + 1) cs))"

lemma seg_loop_shorter: "seg_loop m n p = Val (k, r) \<Longrightarrow> length r \<le> length p"
  by (induction m n p rule: seg_loop.induct) (auto split: if_splits list.splits)

function uri_validate_path :: "string \<Rightarrow> 16 word \<Rightarrow> 16 word \<Rightarrow> unit outcome" where
  "uri_validate_path path_str max_depth max_len =
     (if path_str = [] then Err OMADM_SYNCML_ERROR_COMMAND_FAILED
      else case seg_loop max_len 0 path_str of
        Ub \<Rightarrow> Ub
      | Err e \<Rightarrow> Err e
      | Val (len, rest) \<Rightarrow>
          if len = 0 then Err OMADM_SYNCML_ERROR_COMMAND_FAILED
          else if rest \<noteq> [] then
            (if max_depth = 0 then uri_validate_path (tl rest) max_depth max_len
             else if max_depth = 1 then Err OMADM_SYNCML_ERROR_URI_TOO_LONG
             else uri_validate_path (tl rest) (max_depth - 1) max_len)
          else Val ())"
  by pat_completeness auto
termination
proof (relation "measure (\<lambda>(p, d, l). length p)", goal_cases)
  case (2 p d l x len rest)
  then show ?case using seg_loop_shorter [of l 0 p len rest] by (cases rest) auto
next
  case (3 p d l x len rest)
  then show ?case using seg_loop_shorter [of l 0 p len rest] by (cases rest) auto
qed simp

declare uri_validate_path.simps [simp del]

section \<open>The grammar of the head comment\<close>

text \<open>
  \<open>pchars\<close> is \<open>*( pchar | "." )\<close>; a documented segment ends in a \<open>pchar\<close>.
  \<open>escapes_ok\<close> says that every percent sign starts a documented escape.
\<close>

fun pchars :: "string \<Rightarrow> bool" where
  "pchars [] = True"
| "pchars (c # cs) =
     (if c = CHR ''%'' then
        (case cs of h # h' # r \<Rightarrow> prv_check_hex h \<and> prv_check_hex h' \<and> pchars r | _ \<Rightarrow> False)
      else (c = CHR ''.'' \<or> prv_check_pchar c) \<and> pchars cs)"

fun escapes_ok :: "string \<Rightarrow> bool" where
  "escapes_ok [] = True"
| "escapes_ok (c # cs) =
     (if c = CHR ''%'' then
        (case cs of h # h' # r \<Rightarrow> prv_check_hex h \<and> prv_check_hex h' \<and> escapes_ok r | _ \<Rightarrow> False)
      else escapes_ok cs)"

definition doc_segment :: "string \<Rightarrow> bool" where
  "doc_segment s \<longleftrightarrow> s \<noteq> [] \<and> pchars s \<and> last s \<noteq> CHR ''.''"

definition doc_path :: "string \<Rightarrow> bool" where
  "doc_path p \<longleftrightarrow> (\<forall>s \<in> set (split_on CHR ''/'' p). doc_segment s)"

text \<open>What the code accepts once the escapes are well formed: the last segment may end in a dot.\<close>

definition fits :: "16 word \<Rightarrow> string \<Rightarrow> bool" where
  "fits l s \<longleftrightarrow> l = 0 \<or> length s \<le> unat l"

definition code_segment :: "16 word \<Rightarrow> string \<Rightarrow> bool" where
  "code_segment l s \<longleftrightarrow> s \<noteq> [] \<and> pchars s \<and> fits l s"

definition depth_ok :: "16 word \<Rightarrow> string list \<Rightarrow> bool" where
  "depth_ok d ss \<longleftrightarrow> d = 0 \<or> length ss \<le> unat d"

definition code_path :: "16 word \<Rightarrow> 16 word \<Rightarrow> string \<Rightarrow> bool" where
  "code_path d l p \<longleftrightarrow>
     (let ss = split_on CHR ''/'' p in
        (\<forall>s \<in> set ss. code_segment l s) \<and> (\<forall>s \<in> set (butlast ss). last s \<noteq> CHR ''.'') \<and>
        depth_ok d ss)"

text \<open>
  The code of a refused path.  \<open>good_part\<close> is the part of a segment before its first character
  that is no path character, a dot right before a slash counting as one; the first segment with a
  fault decides, or the limit of the depth when that is reached before: the code is
  \<^verbatim>\<open>URI_TOO_LONG\<close> when the good part is already over the limit or the depth is exhausted,
  \<^verbatim>\<open>COMMAND_FAILED\<close> when the segment is empty or has the bad character.
\<close>

fun good_part :: "bool \<Rightarrow> string \<Rightarrow> string" where
  "good_part follows [] = []"
| "good_part follows (c # cs) =
     (if c = CHR ''%'' then
        (case cs of h # h' # r \<Rightarrow>
           if prv_check_hex h \<and> prv_check_hex h' then c # h # h' # good_part follows r else []
         | _ \<Rightarrow> [])
      else if c = CHR ''.'' \<and> \<not> (follows \<and> cs = []) \<or> prv_check_pchar c then c # good_part follows cs
      else [])"

fun fault_code :: "16 word \<Rightarrow> 16 word \<Rightarrow> string list \<Rightarrow> int" where
  "fault_code d l [] = OMADM_SYNCML_ERROR_COMMAND_FAILED"
| "fault_code d l (s # ss) =
     (if \<not> fits l (good_part (ss \<noteq> []) s) then OMADM_SYNCML_ERROR_URI_TOO_LONG
      else if s = [] \<or> good_part (ss \<noteq> []) s \<noteq> s then OMADM_SYNCML_ERROR_COMMAND_FAILED
      else if d = 1 then OMADM_SYNCML_ERROR_URI_TOO_LONG
      else fault_code (if d = 0 then 0 else d - 1) l ss)"

section \<open>One segment\<close>

text \<open>
  On a segment \<open>s\<close> followed by the end or a slash, the loop accepts exactly the segments of
  the code's grammar, and an error never is undefined behaviour.
\<close>

definition seg_good :: "16 word \<Rightarrow> nat \<Rightarrow> string \<Rightarrow> string \<Rightarrow> bool" where
  "seg_good l n s r \<longleftrightarrow>
     pchars s \<and> (s \<noteq> [] \<and> r \<noteq> [] \<longrightarrow> last s \<noteq> CHR ''.'') \<and>
     (s \<noteq> [] \<longrightarrow> l = 0 \<or> n + length s \<le> unat l)"

lemma escapes_ok_split:
  "escapes_ok (s @ r) \<Longrightarrow> CHR ''/'' \<notin> set s \<Longrightarrow> r = [] \<or> hd r = CHR ''/'' \<Longrightarrow>
     escapes_ok s \<and> escapes_ok r"
proof (induction s rule: escapes_ok.induct)
  case (2 c cs)
  show ?case
  proof (cases "c = CHR ''%''")
    case True
    then obtain h h' q where cs: "cs @ r = h # h' # q" "prv_check_hex h" "prv_check_hex h'"
      "escapes_ok q"
      using 2(3) by (auto split: list.splits)
    have "\<not> prv_check_hex (hd r)" if "r \<noteq> []" using that 2(5) by auto
    then obtain cs' where "cs = h # h' # cs'" "q = cs' @ r"
      using cs by (auto simp: append_eq_Cons_conv)
    with True cs 2 show ?thesis by simp
  next
    case False
    with 2 show ?thesis by simp
  qed
qed auto

lemma seg_loop_char:
  assumes "escapes_ok (s @ r)" and "CHR ''/'' \<notin> set s" and "r = [] \<or> hd r = CHR ''/''"
  shows "(if seg_good l n s r then seg_loop l n (s @ r) = Val (n + length s, r)
          else \<exists>e. seg_loop l n (s @ r) = Err e)"
  using assms
proof (induction s arbitrary: n rule: pchars.induct)
  case 1
  then show ?case by (cases r) (auto simp: seg_good_def)
next
  case (2 c cs)
  show ?case
  proof (cases "c = CHR ''%''")
    case True
    then obtain h h' q where cs: "cs @ r = h # h' # q" "prv_check_hex h" "prv_check_hex h'"
      using 2(3) by (auto split: list.splits)
    have "\<not> prv_check_hex (hd r)" if "r \<noteq> []" using that 2(5) by auto
    then obtain cs' where cs': "cs = h # h' # cs'"
      using cs by (auto simp: append_eq_Cons_conv)
    have IH: "if seg_good l (n + 3) cs' r
        then seg_loop l (n + 3) (cs' @ r) = Val (n + 3 + length cs', r)
        else \<exists>e. seg_loop l (n + 3) (cs' @ r) = Err e"
      using 2(1) [OF True cs'] 2(3-5) True cs' by simp
    have "h' \<noteq> CHR ''.''" using cs(3) by (auto simp: prv_check_hex_def in_range_def)
    then show ?thesis
      using IH True cs(2,3) cs'
      by (cases "too_long l (n + 3)") (auto simp: seg_good_def too_long_def split: if_splits)
  next
    case False
    have c: "c \<noteq> CHR ''/''" using 2(4) by auto
    have IH: "if seg_good l (n + 1) cs r
        then seg_loop l (n + 1) (cs @ r) = Val (n + 1 + length cs, r)
        else \<exists>e. seg_loop l (n + 1) (cs @ r) = Err e"
      using 2(2) [OF False] 2(3-5) False by simp
    have hd: "cs @ r \<noteq> [] \<and> hd (cs @ r) = CHR ''/'' \<longleftrightarrow> cs = [] \<and> r \<noteq> []"
      using 2(4,5) by (cases cs) auto
    show ?thesis
      using IH False c hd
      by (cases "too_long l (n + 1)")
        (auto simp: seg_good_def too_long_def split: if_splits)
  qed
qed

lemma good_part_seg_good:
  "seg_good l n s r \<longleftrightarrow>
     good_part (r \<noteq> []) s = s \<and> (s \<noteq> [] \<longrightarrow> l = 0 \<or> n + length s \<le> unat l)"
proof -
  have "pchars s \<and> (s \<noteq> [] \<and> r \<noteq> [] \<longrightarrow> last s \<noteq> CHR ''.'') \<longleftrightarrow> good_part (r \<noteq> []) s = s"
  proof (induction s rule: pchars.induct)
    case (2 c cs)
    show ?case
    proof (cases "c = CHR ''%''")
      case True
      have "x \<noteq> CHR ''.''" if "prv_check_hex x" for x using that by (auto simp: prv_check_hex_def in_range_def)
      then show ?thesis using 2(1) [OF True] True by (auto split: list.splits)
    next
      case False
      have "\<not> prv_check_pchar CHR ''.''" by simp
      then show ?thesis using 2(2) [OF False] False by auto
    qed
  qed simp
  then show ?thesis by (auto simp: seg_good_def)
qed

lemma seg_loop_fault:
  assumes "escapes_ok (s @ r)" and "CHR ''/'' \<notin> set s" and "r = [] \<or> hd r = CHR ''/''"
    and "\<not> seg_good l n s r"
  shows "seg_loop l n (s @ r) =
    Err (if l \<noteq> 0 \<and> good_part (r \<noteq> []) s \<noteq> [] \<and> unat l < n + length (good_part (r \<noteq> []) s)
         then OMADM_SYNCML_ERROR_URI_TOO_LONG else OMADM_SYNCML_ERROR_COMMAND_FAILED)"
  using assms
proof (induction s arbitrary: n rule: pchars.induct)
  case 1
  then show ?case by (simp add: seg_good_def)
next
  case (2 c cs)
  show ?case
  proof (cases "c = CHR ''%''")
    case True
    then obtain h h' q where cs: "cs @ r = h # h' # q" "prv_check_hex h" "prv_check_hex h'"
      using 2(3) by (auto split: list.splits)
    have "\<not> prv_check_hex (hd r)" if "r \<noteq> []" using that 2(5) by auto
    then obtain cs' where cs': "cs = h # h' # cs'"
      using cs by (auto simp: append_eq_Cons_conv)
    have IH: "\<not> seg_good l (n + 3) cs' r \<Longrightarrow> seg_loop l (n + 3) (cs' @ r) =
        Err (if l \<noteq> 0 \<and> good_part (r \<noteq> []) cs' \<noteq> [] \<and> unat l < n + 3 + length (good_part (r \<noteq> []) cs')
          then OMADM_SYNCML_ERROR_URI_TOO_LONG else OMADM_SYNCML_ERROR_COMMAND_FAILED)"
      using 2(1) [OF True cs'] 2(3-5) True cs' by simp
    show ?thesis
      using IH 2(6) True cs(2,3) cs'
      by (cases "too_long l (n + 3)"; cases "good_part (r \<noteq> []) cs' = []"; cases "cs' = []")
        (auto simp: good_part_seg_good too_long_def)
  next
    case False
    have c: "c \<noteq> CHR ''/''" using 2(4) by auto
    have IH: "\<not> seg_good l (n + 1) cs r \<Longrightarrow> seg_loop l (n + 1) (cs @ r) =
        Err (if l \<noteq> 0 \<and> good_part (r \<noteq> []) cs \<noteq> [] \<and> unat l < n + 1 + length (good_part (r \<noteq> []) cs)
          then OMADM_SYNCML_ERROR_URI_TOO_LONG else OMADM_SYNCML_ERROR_COMMAND_FAILED)"
      using 2(2) [OF False] 2(3-5) False by simp
    have hd: "cs @ r \<noteq> [] \<and> hd (cs @ r) = CHR ''/'' \<longleftrightarrow> cs = [] \<and> r \<noteq> []"
      using 2(4,5) by (cases cs) auto
    show ?thesis
      using IH 2(6) False c hd
      by (cases "too_long l (n + 1)"; cases "good_part (r \<noteq> []) cs = []"; cases "cs = []")
        (auto simp: good_part_seg_good too_long_def)
  qed
qed

section \<open>The whole path\<close>

lemma path_cases:
  obtains s where "p = s" "CHR ''/'' \<notin> set s" "split_on CHR ''/'' p = [s]"
  | s q where "p = s @ CHR ''/'' # q" "CHR ''/'' \<notin> set s"
      "split_on CHR ''/'' p = s # split_on CHR ''/'' q"
proof (cases "CHR ''/'' \<in> set p")
  case True
  then obtain s q where "p = s @ CHR ''/'' # q" "CHR ''/'' \<notin> set s"
    by (meson split_list_first)
  then show ?thesis using that(2) by simp
qed (use that(1) in simp)

lemma code_path_Cons:
  "CHR ''/'' \<notin> set s \<Longrightarrow> code_path d l (s @ CHR ''/'' # q) \<longleftrightarrow>
     code_segment l s \<and> last s \<noteq> CHR ''.'' \<and> d \<noteq> 1 \<and>
     code_path (if d = 0 then 0 else d - 1) l q"
proof -
  have "d = 0 \<or> Suc n \<le> unat d \<longleftrightarrow> d \<noteq> 1 \<and> (if d = 0 then (0::16 word) else d - 1) = 0 \<or>
      d \<noteq> 1 \<and> n \<le> unat (if d = 0 then (0::16 word) else d - 1)" if "n > 0" for n
  proof (cases "d = 0")
    case False
    then have "unat (d - 1) = unat d - 1" by (simp add: unat_minus_one)
    moreover have "d = 1 \<longleftrightarrow> unat d = 1" by (metis unat_1 word_unat_eq_iff)
    moreover have "d - 1 = 0 \<longleftrightarrow> d = 1" by (metis diff_self eq_iff_diff_eq_0)
    moreover have "0 < unat d" using False by (simp add: unat_gt_0)
    ultimately show ?thesis using False that by auto
  qed simp
  moreover have "length (split_on CHR ''/'' q) > 0" by simp
  ultimately show "CHR ''/'' \<notin> set s \<Longrightarrow> ?thesis"
    unfolding code_path_def Let_def depth_ok_def by auto
qed

lemma validate_path_good:
  assumes "escapes_ok (s @ r)" and "CHR ''/'' \<notin> set s" and "r = [] \<or> hd r = CHR ''/''"
    and "s \<noteq> []" and "seg_good l 0 s r"
  shows "uri_validate_path (s @ r) d l =
    (if r = [] then Val ()
     else if d = 0 then uri_validate_path (tl r) d l
     else if d = 1 then Err OMADM_SYNCML_ERROR_URI_TOO_LONG
     else uri_validate_path (tl r) (d - 1) l)"
proof -
  have "seg_loop l 0 (s @ r) = Val (length s, r)"
    using seg_loop_char [OF assms(1-3), of l 0] assms(5) by simp
  then show ?thesis using assms(4) by (simp add: uri_validate_path.simps [of "s @ r" d l])
qed

lemma validate_path_bad:
  assumes "escapes_ok (s @ r)" and "CHR ''/'' \<notin> set s" and "r = [] \<or> hd r = CHR ''/''"
    and "\<not> (s \<noteq> [] \<and> seg_good l 0 s r)"
  shows "uri_validate_path (s @ r) d l =
    Err (if fits l (good_part (r \<noteq> []) s) then OMADM_SYNCML_ERROR_COMMAND_FAILED
         else OMADM_SYNCML_ERROR_URI_TOO_LONG)"
proof (cases "seg_good l 0 s r")
  case True
  then have "seg_loop l 0 (s @ r) = Val (length s, r)"
    using seg_loop_char [OF assms(1-3), of l 0] by simp
  moreover have "s = []" using assms(4) True by simp
  ultimately show ?thesis by (simp add: uri_validate_path.simps [of r d l] fits_def)
next
  case False
  show ?thesis
    using seg_loop_fault [OF assms(1-3) False] False
    by (cases "s @ r = []") (auto simp: uri_validate_path.simps [of "s @ r" d l] fits_def seg_good_def)
qed

lemma validate_path_char:
  "escapes_ok p \<Longrightarrow>
     uri_validate_path p d l =
       (if code_path d l p then Val () else Err (fault_code d l (split_on CHR ''/'' p)))"
proof (induction "length p" arbitrary: p d rule: less_induct)
  case less
  consider (one) "CHR ''/'' \<notin> set p" "split_on CHR ''/'' p = [p]"
    | (more) s q where "p = s @ CHR ''/'' # q" "CHR ''/'' \<notin> set s"
    by (rule path_cases [of p]) auto
  then show ?case
  proof cases
    case one
    have "depth_ok d [p]"
      by (auto simp: depth_ok_def unat_gt_0 Suc_le_eq)
    then have c: "code_path d l p \<longleftrightarrow> p \<noteq> [] \<and> seg_good l 0 p []"
      using one by (auto simp: code_path_def code_segment_def seg_good_def fits_def)
    show ?thesis
    proof (cases "p \<noteq> [] \<and> seg_good l 0 p []")
      case True
      then show ?thesis using validate_path_good [of p "[]" l d] one(1) less.prems c by simp
    next
      case False
      then have "\<not> (fits l (good_part False p) \<and> p \<noteq> [] \<and> good_part False p = p)"
        by (auto simp: good_part_seg_good fits_def)
      then show ?thesis using validate_path_bad [of p "[]" l d] False one less.prems c by auto
    qed
  next
    case more
    have q: "escapes_ok q"
      using escapes_ok_split [of s "CHR ''/'' # q"] less.prems more by simp
    have IH: "uri_validate_path q d' l =
        (if code_path d' l q then Val () else Err (fault_code d' l (split_on CHR ''/'' q)))" for d'
      using less.hyps [of q d'] q more by simp
    have c: "code_path d l p \<longleftrightarrow> s \<noteq> [] \<and> seg_good l 0 s (CHR ''/'' # q) \<and> d \<noteq> 1 \<and>
        code_path (if d = 0 then 0 else d - 1) l q"
      using code_path_Cons [OF more(2), of d l q] more(1)
      by (auto simp: code_segment_def seg_good_def fits_def)
    have sp: "split_on CHR ''/'' p = s # split_on CHR ''/'' q" "split_on CHR ''/'' q \<noteq> []"
      using more by simp_all
    show ?thesis
    proof (cases "s \<noteq> [] \<and> seg_good l 0 s (CHR ''/'' # q)")
      case True
      then have "good_part True s = s" "fits l s" by (auto simp: good_part_seg_good fits_def)
      moreover have "uri_validate_path p d l =
          (if d = 0 then uri_validate_path q d l
           else if d = 1 then Err OMADM_SYNCML_ERROR_URI_TOO_LONG
           else uri_validate_path q (d - 1) l)"
        using validate_path_good [of s "CHR ''/'' # q" l d] True less.prems more by simp
      ultimately show ?thesis using True IH c sp by simp
    next
      case False
      then have "\<not> (fits l (good_part True s) \<and> s \<noteq> [] \<and> good_part True s = s)"
        by (auto simp: good_part_seg_good fits_def)
      then show ?thesis
        using validate_path_bad [of s "CHR ''/'' # q" l d] False less.prems more(1,2) c sp by auto
    qed
  qed
qed

lemma doc_path_escapes: "doc_path p \<Longrightarrow> escapes_ok p"
proof (induction "length p" arbitrary: p rule: less_induct)
  case less
  have pc: "pchars s \<Longrightarrow> escapes_ok s" for s
    by (induction s rule: pchars.induct) (auto split: list.splits)
  have app: "escapes_ok s \<Longrightarrow> escapes_ok r \<Longrightarrow> escapes_ok (s @ r)" for s r
    by (induction s rule: escapes_ok.induct) (auto split: list.splits)
  show ?case
  proof (rule path_cases [of p])
    fix s assume "p = s" "CHR ''/'' \<notin> set s" "split_on CHR ''/'' p = [s]"
    then show ?thesis using less.prems pc by (simp add: doc_path_def doc_segment_def)
  next
    fix s q assume p: "p = s @ CHR ''/'' # q" "CHR ''/'' \<notin> set s"
    then have "doc_segment s" "doc_path q" using less.prems by (simp_all add: doc_path_def)
    then show ?thesis using less.hyps [of q] p pc app [of s "CHR ''/'' # q"]
      by (simp add: doc_segment_def)
  qed
qed

lemma doc_path_code_path:
  "doc_path p \<Longrightarrow> (\<And>s. s \<in> set (split_on CHR ''/'' p) \<Longrightarrow> fits l s) \<Longrightarrow>
     depth_ok d (split_on CHR ''/'' p) \<Longrightarrow> code_path d l p"
  by (auto simp: doc_path_def code_path_def code_segment_def doc_segment_def Let_def
      dest: in_set_butlastD)

section \<open>uri_validate\<close>

text \<open>
  \<open>oNodeURI\<close> and \<open>oPropId\<close> say whether the caller passed the out pointers.  The result is
  the normalised node URI (which the code frees when \<open>oNodeURI\<close> is null) and the property.
  \<open>cut_prop\<close> is the block on \<^verbatim>\<open>prop_str\<close> and \<open>node_form\<close> the block that finds
  \<^verbatim>\<open>path_str\<close> and prefixes a relative URI.
\<close>

definition cut_prop :: "string \<Rightarrow> bool \<Rightarrow> ('z heap_scheme, string \<times> string option) cmd" where
  "cut_prop node_uri oPropId =
     (case strstr node_uri ''?prop='' of
        None \<Rightarrow> ret (node_uri, None)
      | Some prop_str \<Rightarrow>
          DMC_FAIL_ERR (\<not> oPropId) OMADM_SYNCML_ERROR_NOT_ALLOWED
          (DMC_FAIL_NULL (strdup (drop (length ''?prop='') prop_str)) OMADM_SYNCML_ERROR_DEVICE_FULL
           (\<lambda>prop.
          (DMC_FAIL_ERR (before node_uri prop_str = []) OMADM_SYNCML_ERROR_COMMAND_FAILED
          (ret (before node_uri prop_str, Some prop))))))"

definition node_form :: "string \<Rightarrow> ('z heap_scheme, string \<times> string option) cmd" where
  "node_form node_uri =
     (case node_uri of
        [] \<Rightarrow> ret (node_uri, Some node_uri)
      | c # rest \<Rightarrow>
          if c = CHR ''.'' then
            (case rest of
               [] \<Rightarrow> ret (node_uri, None)
             | c' # path \<Rightarrow>
                 if c' = CHR ''/'' then ret (node_uri, Some path) else ret (node_uri, Some node_uri))
          else DMC_FAIL_NULL (malloc (''./'' @ node_uri)) OMADM_SYNCML_ERROR_DEVICE_FULL
            (\<lambda>n. ret (n, Some node_uri)))"

definition check_path :: "string option \<Rightarrow> 16 word \<Rightarrow> 16 word \<Rightarrow> ('s, unit) cmd" where
  "check_path path_str max_depth max_len =
     (case path_str of None \<Rightarrow> ret () | Some p \<Rightarrow> lift (uri_validate_path p max_depth max_len))"

lemma check_path_val [cmd_val]:
  "check_path q d l h = (Val u, h') \<longleftrightarrow>
     h' = h \<and> (\<forall>p. q = Some p \<longrightarrow> uri_validate_path p d l = Val ())"
  by (auto simp: check_path_def cmd_val split: option.splits)

definition uri_validate ::
  "16 word \<Rightarrow> 16 word \<Rightarrow> 16 word \<Rightarrow> string option \<Rightarrow> bool \<Rightarrow> bool \<Rightarrow>
     ('z heap_scheme, string \<times> string option) cmd" where
  "uri_validate max_total_len max_depth max_segment_len uri oNodeURI oPropId =
     DMC_FAIL_NULL (pure uri) OMADM_SYNCML_ERROR_COMMAND_FAILED (\<lambda>uri.
     DMC_FAIL_ERR (oPropId \<and> \<not> oNodeURI) OMADM_SYNCML_ERROR_COMMAND_FAILED (
     DMC_FAIL_ERR (uri = []) OMADM_SYNCML_ERROR_COMMAND_FAILED (
     DMC_FAIL_ERR (too_long max_total_len (length uri)) OMADM_SYNCML_ERROR_URI_TOO_LONG (
     DMC_FAIL_ERR (strstr uri ''?list='' \<noteq> None)
       OMADM_SYNCML_ERROR_OPTIONAL_FEATURE_NOT_SUPPORTED (
     DMC_FAIL_NULL (strdup uri) OMADM_SYNCML_ERROR_DEVICE_FULL (\<lambda>node_uri.
     DMC_FAIL (cut_prop node_uri oPropId) (\<lambda>(node_uri, prop).
     DMC_FAIL_ERR (last node_uri = CHR ''/'') OMADM_SYNCML_ERROR_COMMAND_FAILED (
     DMC_FAIL (node_form node_uri) (\<lambda>(node_uri, path_str).
     DMC_FAIL (check_path path_str max_depth max_segment_len) (\<lambda>_.
     ret (node_uri, prop)))))))))))"

text \<open>The node and property parts of a URI, its normal form, and the path that is checked.\<close>

definition uri_node :: "string \<Rightarrow> string" where
  "uri_node u = (case strstr u ''?prop='' of None \<Rightarrow> u | Some r \<Rightarrow> before u r)"

definition uri_prop :: "string \<Rightarrow> string option" where
  "uri_prop u = map_option (drop 6) (strstr u ''?prop='')"

definition normal :: "string \<Rightarrow> string" where
  "normal u = (if u \<noteq> [] \<and> hd u = CHR ''.'' then u else ''./'' @ u)"

definition checked_path :: "string \<Rightarrow> string option" where
  "checked_path u =
     (if u = ''.'' then None else if prefix ''./'' u then Some (drop 2 u) else Some u)"

lemma keeps_cut_prop [keeps_rules]: "keeps plenty (cut_prop u b)"
  unfolding cut_prop_def by (auto intro!: keeps_rules split: option.splits)

lemma keeps_uri_validate [keeps_rules]: "keeps plenty (uri_validate t d l u b c)"
proof -
  have "keeps plenty (node_form u)" for u
    unfolding node_form_def by (auto intro!: keeps_rules split: list.splits)
  moreover have "keeps plenty (check_path q d l)" for q d l
    unfolding check_path_def by (auto intro!: keeps_rules split: option.splits)
  ultimately show ?thesis
    unfolding uri_validate_def by (auto intro!: keeps_rules split: option.splits)
qed

lemma node_form_val:
  "u \<noteq> [] \<Longrightarrow> node_form u h = (Val (n, q), h') \<Longrightarrow> n = normal u \<and> q = checked_path u"
  by (cases u; cases "tl u")
    (auto simp: node_form_def normal_def checked_path_def cmd_val dest!: malloc_SomeD
      split: if_splits)

lemma node_form_plenty:
  "u \<noteq> [] \<Longrightarrow> plenty h \<Longrightarrow> node_form u h = (Val (normal u, checked_path u), h)"
  by (auto simp: node_form_def normal_def checked_path_def cmd_defs split: list.splits)

lemma cut_prop_val:
  "cut_prop u b h = (Val (n, q), h') \<Longrightarrow> u \<noteq> [] \<Longrightarrow> n = uri_node u \<and> q = uri_prop u \<and> n \<noteq> []"
  by (auto simp: cut_prop_def uri_node_def uri_prop_def cmd_val numeral_eq_Suc dest!: malloc_SomeD
      split: option.splits)

lemma cut_prop_plenty:
  "plenty h \<Longrightarrow> uri_node u \<noteq> [] \<Longrightarrow> cut_prop u True h = (Val (uri_node u, uri_prop u), h)"
  by (auto simp: cut_prop_def uri_node_def uri_prop_def cmd_defs numeral_eq_Suc
      split: option.splits)

text \<open>What a normal return says, whatever the allocator did.\<close>

lemma uri_validate_val:
  assumes "uri_validate t d l (Some u) b c h = (Val (n, q), h')"
  shows "u \<noteq> [] \<and> \<not> too_long t (length u) \<and> strstr u ''?list='' = None \<and> uri_node u \<noteq> [] \<and>
    last (uri_node u) \<noteq> CHR ''/'' \<and> n = normal (uri_node u) \<and> q = uri_prop u \<and>
    (\<forall>p. checked_path (uri_node u) = Some p \<longrightarrow> uri_validate_path p d l = Val ())"
proof -
  obtain h1 where v1: "u \<noteq> []" "\<not> too_long t (length u)" "strstr u ''?list='' = None"
    and v2: "DMC_FAIL (cut_prop u c) (\<lambda>(node_uri, prop).
      DMC_FAIL_ERR (last node_uri = CHR ''/'') OMADM_SYNCML_ERROR_COMMAND_FAILED (
      DMC_FAIL (node_form node_uri) (\<lambda>(node_uri, path_str).
      DMC_FAIL (check_path path_str d l) (\<lambda>_. ret (node_uri, prop))))) h1 = (Val (n, q), h')"
    using assms unfolding uri_validate_def
    by (simp only: DMC_FAIL_NULL_val DMC_FAIL_ERR_val pure_val option.inject not_not)
      (elim exE conjE, drule malloc_SomeD, hypsubst, blast)
  obtain nd pr h2 n' q' h3 where "cut_prop u c h1 = (Val (nd, pr), h2)" "last nd \<noteq> CHR ''/''"
    "node_form nd h2 = (Val (n', q'), h3)" and c: "check_path q' d l h3 = (Val (), h')"
    "n = n'" "q = pr"
    using v2 by (auto simp: DMC_FAIL_val DMC_FAIL_ERR_val ret_val)
  with v1 cut_prop_val [of u c h1 nd pr h2] node_form_val [of nd h2 n' q' h3] show ?thesis
    by (auto simp: check_path_val)
qed

text \<open>With enough memory the conditions are also sufficient.\<close>

lemma uri_validate_plenty:
  assumes "plenty h" and "u \<noteq> []" and "\<not> too_long t (length u)" and "strstr u ''?list='' = None"
    and "uri_node u \<noteq> []" and "last (uri_node u) \<noteq> CHR ''/''"
    and "\<And>p. checked_path (uri_node u) = Some p \<Longrightarrow> uri_validate_path p d l = Val ()"
  shows "uri_validate t d l (Some u) True True h = (Val (normal (uri_node u), uri_prop u), h)"
  using assms unfolding uri_validate_def
  by (cases "checked_path (uri_node u)")
    (simp_all add: DMC_FAIL_NULL_def DMC_FAIL_ERR_def DMC_FAIL_def pure_def ret_def lift_def
      check_path_def cut_prop_plenty node_form_plenty)

lemma normal_facts:
  assumes "u \<noteq> []"
  shows "checked_path (normal u) = checked_path u" and "last (normal u) = last u"
    and "normal (normal u) = normal u" and "normal u \<noteq> []"
  using assms by (cases u; auto simp: normal_def checked_path_def)+

lemma strstr_normal: "t \<noteq> [] \<Longrightarrow> hd t = CHR ''?'' \<Longrightarrow> strstr (normal u) t = strstr u t"
  using strstr_absent [of t "''./''" u] by (simp add: normal_def)

lemma uri_node_none: "strstr u ''?prop='' = None \<Longrightarrow> uri_node u = u \<and> uri_prop u = None"
  by (simp add: uri_node_def uri_prop_def)

lemma uri_node_no_prop: "strstr (uri_node u) ''?prop='' = None"
  by (auto simp: uri_node_def strstr_first split: option.splits)

lemma uri_node_no_list:
  assumes "strstr u ''?list='' = None"
  shows "strstr (uri_node u) ''?list='' = None"
proof (cases "strstr u ''?prop=''")
  case (Some r)
  have "strstr (before u r) ''?list='' = None" by (rule strstr_before_None [OF Some assms])
  then show ?thesis by (simp add: uri_node_def Some)
qed (use assms in \<open>simp add: uri_node_def\<close>)

lemma doc_path_no_query: "doc_path p \<Longrightarrow> CHR ''?'' \<notin> set p"
proof -
  have pc: "pchars s \<Longrightarrow> CHR ''?'' \<notin> set s" for s
  proof (induction s rule: pchars.induct)
    case (2 c cs)
    show ?case
    proof (cases "c = CHR ''%''")
      case True
      then obtain h h' q where cs: "cs = h # h' # q" and hex: "prv_check_hex h" "prv_check_hex h'"
        and "pchars q"
        using 2(3) by (auto split: list.splits)
      moreover have "h \<noteq> CHR ''?''" "h' \<noteq> CHR ''?''" using hex check_query by metis+
      ultimately show ?thesis using 2(1) [OF True cs refl] True by simp
    next
      case False
      then have "c = CHR ''.'' \<or> prv_check_pchar c" "pchars cs" using 2(3) by simp_all
      moreover from this have "c \<noteq> CHR ''?''" using check_query by auto
      ultimately show ?thesis using 2(2) [OF False] by simp
    qed
  qed simp
  show "doc_path p \<Longrightarrow> ?thesis"
  proof (induction "length p" arbitrary: p rule: less_induct)
    case less
    show ?case
    proof (rule path_cases [of p])
      fix s assume "p = s" "CHR ''/'' \<notin> set s" "split_on CHR ''/'' p = [s]"
      then show ?thesis using less.prems pc by (simp add: doc_path_def doc_segment_def)
    next
      fix s q assume p: "p = s @ CHR ''/'' # q" "CHR ''/'' \<notin> set s"
      then have "doc_segment s" "doc_path q" using less.prems by (simp_all add: doc_path_def)
      then show ?thesis using less.hyps [of q] p pc by (simp add: doc_segment_def)
    qed
  qed
qed

lemma doc_path_shape:
  assumes "doc_path p"
  shows "p \<noteq> []" and "last p \<noteq> CHR ''/''" and "\<not> prefix ''./'' p" and "p \<noteq> ''.''"
proof -
  show "p \<noteq> []" using assms by (auto simp: doc_path_def doc_segment_def)
  show "last p \<noteq> CHR ''/''"
    using assms
  proof (induction "length p" arbitrary: p rule: less_induct)
    case less
    show ?case
    proof (rule path_cases [of p])
      fix s assume "p = s" "CHR ''/'' \<notin> set s" "split_on CHR ''/'' p = [s]"
      then show ?thesis using less.prems
        by (auto simp: doc_path_def doc_segment_def) (metis last_in_set)
    next
      fix s q assume p: "p = s @ CHR ''/'' # q" "CHR ''/'' \<notin> set s"
      then have "doc_path q" "q \<noteq> []" using less.prems
        by (auto simp: doc_path_def doc_segment_def)
      then show ?thesis using less.hyps [of q] p by simp
    qed
  qed
  show "\<not> prefix ''./'' p" using assms by (auto simp: prefix_def doc_path_def doc_segment_def)
  show "p \<noteq> ''.''" using assms by (auto simp: doc_path_def doc_segment_def)
qed

section \<open>Properties\<close>

text \<open>
  C2. On every path whose percent signs start two-digit escapes, \<open>uri_validate_path\<close> accepts
  exactly the paths whose slash-separated segments are non-empty, consist of path characters, fit
  the segment limit and the depth limit, and, but for the last one, do not end in a dot; every other
  path gets the code \<open>fault_code\<close>: \<^verbatim>\<open>URI_TOO_LONG\<close> when a limit is passed before the first bad
  character or empty segment, and \<^verbatim>\<open>COMMAND_FAILED\<close> otherwise.
\<close>

theorem uri_validate_path_decides:
  assumes "escapes_ok p"
  shows "uri_validate_path p d l =
    (if code_path d l p then Val () else Err (fault_code d l (split_on CHR ''/'' p)))"
  by (rule validate_path_char [OF assms])

theorem uri_validate_path_decides_witness:
  "uri_validate_path ''DevInfo/Ext%2Fa'' 2 8 = Val () \<and>
   uri_validate_path ''DevInfo/Ext%2Fa'' 1 8 = Err 414 \<and>
   uri_validate_path ''DevInfo/Ext!'' 2 3 = Err 414 \<and> uri_validate_path ''Dev?Info/Ext'' 2 3 = Err 500"
proof -
  have e: "escapes_ok ''DevInfo/Ext%2Fa''" "escapes_ok ''DevInfo/Ext!''" "escapes_ok ''Dev?Info/Ext''"
    by code_simp+
  have c: "code_path 2 8 ''DevInfo/Ext%2Fa''" "\<not> code_path 1 8 ''DevInfo/Ext%2Fa''"
    "\<not> code_path 2 3 ''DevInfo/Ext!''" "\<not> code_path 2 3 ''Dev?Info/Ext''" by code_simp+
  have f: "fault_code 1 8 (split_on CHR ''/'' ''DevInfo/Ext%2Fa'') = 414"
    "fault_code 2 3 (split_on CHR ''/'' ''DevInfo/Ext!'') = 414"
    "fault_code 2 3 (split_on CHR ''/'' ''Dev?Info/Ext'') = 500" by code_simp+
  show ?thesis
    using uri_validate_path_decides [OF e(1), of 2 8] uri_validate_path_decides [OF e(1), of 1 8]
      uri_validate_path_decides [OF e(2), of 2 3] uri_validate_path_decides [OF e(3), of 2 3]
    by (simp only: c f if_True if_False simp_thms)
qed

text \<open>
  C9. While no allocation fails, and for a caller that wants the node and the property,
  \<open>uri_validate\<close> accepts a URI whose percent signs start two-digit escapes exactly when it is within
  the total limit, asks for no list, has a non-empty node part that does not end in a slash, and the
  path of its node part is one of the grammar within the limits; it then returns the node part in
  normal form and the property.
\<close>

theorem uri_validate_decides:
  assumes "plenty h" and "escapes_ok (uri_node u)"
  shows "uri_validate t d l (Some u) True True h = (Val (n, q), h') \<longleftrightarrow>
    \<not> too_long t (length u) \<and> strstr u ''?list='' = None \<and>
    uri_node u \<noteq> [] \<and> last (uri_node u) \<noteq> CHR ''/'' \<and>
    (uri_node u = ''.'' \<or> code_path d l (if prefix ''./'' (uri_node u) then drop 2 (uri_node u) else uri_node u)) \<and>
    n = normal (uri_node u) \<and> q = uri_prop u \<and> h' = h"
proof -
  let ?u = "uri_node u" and ?v = "uri_validate t d l (Some u) True True h"
  let ?A = "\<not> too_long t (length u) \<and> strstr u ''?list='' = None \<and> ?u \<noteq> [] \<and> last ?u \<noteq> CHR ''/'' \<and>
    (?u = ''.'' \<or> code_path d l (if prefix ''./'' ?u then drop 2 ?u else ?u))"
  have e: "escapes_ok p" if "checked_path ?u = Some p" for p
    using that assms(2) by (auto simp: checked_path_def prefix_def split: if_splits)
  have path: "(\<forall>p. checked_path ?u = Some p \<longrightarrow> uri_validate_path p d l = Val ()) \<longleftrightarrow>
      ?u = ''.'' \<or> code_path d l (if prefix ''./'' ?u then drop 2 ?u else ?u)"
    using validate_path_char [OF e] by (simp add: checked_path_def split: if_splits)
  have ne: "?u \<noteq> [] \<Longrightarrow> u \<noteq> []" by (auto simp: uri_node_def split: option.splits)
  have suff: "?v = (Val (normal ?u, uri_prop u), h)" if ?A
  proof -
    have "uri_validate_path p d l = Val ()" if "checked_path ?u = Some p" for p
      using path \<open>?A\<close> that by metis
    then show ?thesis using uri_validate_plenty [OF assms(1) ne, of t d l] that by simp
  qed
  have nec: "?A" if "?v = (Val (n, q), h')"
    using uri_validate_val [OF that] path by blast
  have "?v = (Val (n, q), h') \<longleftrightarrow> ?A \<and> n = normal ?u \<and> q = uri_prop u \<and> h' = h"
  proof
    assume v: "?v = (Val (n, q), h')"
    have "(Val (n, q), h') = (Val (normal ?u, uri_prop u), h)"
      by (rule trans [OF v [symmetric] suff [OF nec [OF v]]])
    then show "?A \<and> n = normal ?u \<and> q = uri_prop u \<and> h' = h" using nec [OF v] by simp
  next
    assume a: "?A \<and> n = normal ?u \<and> q = uri_prop u \<and> h' = h"
    then have "?v = (Val (normal ?u, uri_prop u), h)" by (intro suff) simp
    then show "?v = (Val (n, q), h')" using a by simp
  qed
  then show ?thesis by (simp only: conj_assoc)
qed

theorem uri_validate_decides_witness:
  "uri_validate 64 4 8 (Some ''DevInfo/Lang?prop=ACL'') True True \<lparr>mem = []\<rparr> =
     (Val (''./DevInfo/Lang'', Some ''ACL''), \<lparr>mem = []\<rparr>) \<and>
   uri_validate 64 1 8 (Some ''DevInfo/Lang?prop=ACL'') True True \<lparr>mem = []\<rparr> \<noteq>
     (Val (''./DevInfo/Lang'', Some ''ACL''), \<lparr>mem = []\<rparr>)"
proof -
  let ?u = "''DevInfo/Lang?prop=ACL''"
  have u: "uri_node ?u = ''DevInfo/Lang''" "uri_prop ?u = Some ''ACL''" by code_simp+
  have e: "escapes_ok (uri_node ?u)" by code_simp
  have c: "code_path 4 8 ''DevInfo/Lang''" "\<not> code_path 1 8 ''DevInfo/Lang''" by code_simp+
  have l: "strstr ?u ''?list='' = None" by code_simp
  show ?thesis
    using uri_validate_decides [OF _ e, of "\<lparr>mem = []\<rparr>" 64 4 8]
      uri_validate_decides [OF _ e, of "\<lparr>mem = []\<rparr>" 64 1 8]
    by (simp add: u c l too_long_def normal_def)
qed

text \<open>
  In particular a path of the documented grammar within the limits, with or without the leading dot
  segment and with or without a property, is accepted.
\<close>

theorem uri_validate_complete:
  assumes "plenty h" and "doc_path p" and "\<forall>s \<in> set (split_on CHR ''/'' p). fits l s"
    and "depth_ok d (split_on CHR ''/'' p)" and "node = p \<or> node = ''./'' @ p"
    and "u = node @ (case prop of None \<Rightarrow> [] | Some x \<Rightarrow> ''?prop='' @ x)"
    and "\<forall>x. prop = Some x \<longrightarrow> CHR ''?'' \<notin> set x" and "\<not> too_long t (length u)"
  shows "uri_validate t d l (Some u) True True h = (Val (normal node, prop), h)"
proof -
  note shape = doc_path_shape [OF assms(2)]
  have q: "CHR ''?'' \<notin> set node" using doc_path_no_query [OF assms(2)] assms(5) by auto
  have find: "strstr u t = strstr (case prop of None \<Rightarrow> [] | Some x \<Rightarrow> ''?prop='' @ x) t"
    if "t \<noteq> []" "hd t = CHR ''?''" for t
    unfolding assms(6) by (rule strstr_absent) (use q that in auto)
  have noL: "strstr u ''?list='' = None"
    using find [of "''?list=''"] assms(7) strstr_absent_None [of "''?list=''"]
    by (auto split: option.splits)
  have P: "uri_node u = node \<and> uri_prop u = prop"
    using find [of "''?prop=''"] assms(6)
    by (auto simp: uri_node_def uri_prop_def numeral_eq_Suc split: option.splits)
  have path: "checked_path node = Some p"
    using assms(5) shape by (auto simp: checked_path_def)
  have "uri_validate_path p d l = Val ()"
    using validate_path_char [OF doc_path_escapes [OF assms(2)], of d l]
      doc_path_code_path [OF assms(2), of l d] assms(3,4) by (simp split: if_splits)
  then show ?thesis
    using uri_validate_plenty [OF assms(1), of u t d l] P path noL assms(5,6,8) shape by auto
qed

theorem uri_validate_complete_witness:
  "uri_validate 64 4 8 (Some ''DevInfo/Lang?prop=ACL'') True True \<lparr>mem = []\<rparr> =
     (Val (''./DevInfo/Lang'', Some ''ACL''), \<lparr>mem = []\<rparr>)"
  using uri_validate_complete [of "\<lparr>mem = []\<rparr>" "''DevInfo/Lang''" 8 4 "''DevInfo/Lang''"
      "''DevInfo/Lang?prop=ACL''" "Some ''ACL''" 64]
  by (simp add: doc_path_def doc_segment_def fits_def depth_ok_def too_long_def normal_def
      prv_check_pchar_def in_range_def)

text \<open>
  The normal form is stable: when \<open>uri_validate\<close> returns a node URI, validating that URI
  again, under the same limits and without the total length limit, returns it unchanged and with
  no property, whatever the first call's memory was.
\<close>

theorem uri_validate_idempotent:
  assumes "uri_validate t d l (Some u) b c h = (Val (n, q), h')" and "plenty k"
  shows "uri_validate 0 d l (Some n) True True k = (Val (n, None), k)"
proof -
  note v = uri_validate_val [OF assms(1)]
  have ne: "uri_node u \<noteq> []" and n: "n = normal (uri_node u)" using v by auto
  have noP: "strstr n ''?prop='' = None" and noL: "strstr n ''?list='' = None"
    using v uri_node_no_prop [of u] uri_node_no_list [of u] by (simp_all add: n strstr_normal)
  then have "uri_node n = n \<and> uri_prop n = None" by (simp add: uri_node_none)
  then show ?thesis
    using uri_validate_plenty [OF assms(2), of n 0 d l] v noL normal_facts [OF ne]
    by (simp add: n too_long_def)
qed

theorem uri_validate_idempotent_witness:
  "uri_validate 0 4 8 (Some ''./DevInfo/Lang'') True True \<lparr>mem = []\<rparr> =
     (Val (''./DevInfo/Lang'', None), \<lparr>mem = []\<rparr>)"
proof -
  have "uri_validate 64 4 8 (Some ''DevInfo/Lang?prop=ACL'') True True \<lparr>mem = []\<rparr> =
     (Val (''./DevInfo/Lang'', Some ''ACL''), \<lparr>mem = []\<rparr>)"
    by code_simp
  then show ?thesis by (rule uri_validate_idempotent) simp
qed

text \<open>
  A malformed escape leaves the buffer: the check of the two digits joins its tests with
  \<^verbatim>\<open>&&\<close> instead of \<^verbatim>\<open>||\<close>, so a path that ends in a percent sign, or in a percent sign and
  one hexadecimal digit, is read beyond its terminator; and an escape whose second character is a
  slash swallows the separator, so a path of two segments passes a depth limit of one.
\<close>

theorem uri_escape_bug:
  "uri_validate_path ''Ext%'' d 0 = Ub \<and> uri_validate_path ''Ext%A'' d 0 = Ub \<and>
   uri_validate_path ''Ext%A/b'' 1 0 = Val () \<and> split_on CHR ''/'' ''Ext%A/b'' = [''Ext%A'', ''b'']"
  by (simp_all add: uri_validate_path.simps prv_check_pchar_def prv_check_hex_def in_range_def
      too_long_def)

text \<open>The grammar of the head comment has no segment that ends in a dot; the code accepts one.\<close>

lemma uri_trailing_dot:
  "uri_validate_path ''a/..'' 0 0 = Val ()" "\<not> doc_path ''a/..''"
  by (simp_all add: uri_validate_path.simps prv_check_pchar_def prv_check_hex_def in_range_def
      too_long_def doc_path_def doc_segment_def)

end
