(* ===== verification/Codec.thy ===== *)
theory Codec
  imports Dm_Prelude
begin

unbundle bit_operations_syntax

text \<open>
  The base64 half and the buffer functions of \<^verbatim>\<open>dmcore/src/codec.c\<close>, which the credential and
  nonce code uses.  Bytes are \<^typ>\<open>8 word\<close>; the shifts and masks are the code's.  A
  \<^verbatim>\<open>buffer_t\<close> is the allocated bytes (none when the pointer is null) and the length field,
  which can be smaller than the allocation.
\<close>

type_synonym byte = "8 word"

record buffer_t =
  buffer :: "byte list option"
  len :: nat

definition content :: "buffer_t \<Rightarrow> byte list" where
  "content b = (case buffer b of None \<Rightarrow> [] | Some bs \<Rightarrow> take (len b) bs)"

definition bytes_of :: "string \<Rightarrow> byte list" where
  "bytes_of s = map of_char s"

section \<open>Encoding\<close>

definition s_b64_alphabet :: "string" where
  "s_b64_alphabet = ''ABCDEFGHIJKLMNOPQRSTUVWXYZabcdefghijklmnopqrstuvwxyz0123456789+/''"

abbreviation PRV_B64_PADDING :: char where "PRV_B64_PADDING \<equiv> CHR ''=''"

definition b64_char :: "byte \<Rightarrow> char" where
  "b64_char w = s_b64_alphabet ! unat w"

definition prv_encode_block :: "byte \<Rightarrow> byte \<Rightarrow> byte \<Rightarrow> string" where
  "prv_encode_block a b c =
     [b64_char (drop_bit 2 a),
      b64_char (push_bit 4 (a AND 0x03) OR drop_bit 4 b),
      b64_char (push_bit 2 (b AND 0x0F) OR drop_bit 6 c),
      b64_char (c AND 0x3F)]"

fun encode_loop :: "byte list \<Rightarrow> string" where
  "encode_loop [] = []"
| "encode_loop [a] =
     [b64_char (drop_bit 2 a), b64_char (push_bit 4 (a AND 0x03)), PRV_B64_PADDING, PRV_B64_PADDING]"
| "encode_loop [a, b] =
     [b64_char (drop_bit 2 a), b64_char (push_bit 4 (a AND 0x03) OR drop_bit 4 b),
      b64_char (push_bit 2 (b AND 0x0F)), PRV_B64_PADDING]"
| "encode_loop (a # b # c # rest) = prv_encode_block a b c @ encode_loop rest"

definition b64_result_len :: "nat \<Rightarrow> nat" where
  "b64_result_len n = 4 * (n div 3) + 1 + (if n mod 3 \<noteq> 0 then 4 else 0)"

definition encode_b64 :: "byte list \<Rightarrow> 'z heap_scheme \<Rightarrow> string option \<times> 'z heap_scheme" where
  "encode_b64 data = malloc (encode_loop data)"

definition encode_b64_str :: "string \<Rightarrow> 'z heap_scheme \<Rightarrow> string option \<times> 'z heap_scheme" where
  "encode_b64_str str = encode_b64 (bytes_of str)"

section \<open>Decoding\<close>

definition byte_in :: "char \<Rightarrow> char \<Rightarrow> byte \<Rightarrow> bool" where
  "byte_in lo hi v \<longleftrightarrow> of_char lo \<le> v \<and> v \<le> of_char hi"

definition prv_revert_b64 :: "byte \<Rightarrow> byte" where
  "prv_revert_b64 value =
     (if byte_in CHR ''A'' CHR ''Z'' value then value - of_char CHR ''A''
      else if byte_in CHR ''a'' CHR ''z'' value then 26 + value - of_char CHR ''a''
      else if byte_in CHR ''0'' CHR ''9'' value then 52 + value - of_char CHR ''0''
      else if value = of_char CHR ''+'' then 62
      else if value = of_char CHR ''/'' then 63
      else 0)"

definition rev64 :: "char \<Rightarrow> byte" where
  "rev64 c = prv_revert_b64 (of_char c)"

definition prv_decode_block :: "char \<Rightarrow> char \<Rightarrow> char \<Rightarrow> char \<Rightarrow> byte list" where
  "prv_decode_block c0 c1 c2 c3 =
     [push_bit 2 (rev64 c0) OR drop_bit 4 (rev64 c1),
      push_bit 4 (rev64 c1) OR drop_bit 2 (rev64 c2),
      push_bit 6 (rev64 c2) OR rev64 c3]"

text \<open>
  The loop that drops the padding reads \<open>data[data_len - 1]\<close> with no lower bound: on an empty
  string, or on one of padding only, it runs before the start of the string (\<open>None\<close>).
\<close>

fun strip_padding :: "string \<Rightarrow> nat \<Rightarrow> nat option" where
  "strip_padding data 0 = None"
| "strip_padding data (Suc n) =
     (if data ! n = PRV_B64_PADDING then strip_padding data n else Some (Suc n))"

fun decode_blocks :: "string \<Rightarrow> byte list" where
  "decode_blocks (c0 # c1 # c2 # c3 # rest) = prv_decode_block c0 c1 c2 c3 @ decode_blocks rest"
| "decode_blocks _ = []"

text \<open>
  \<open>data_index\<close> and \<open>result_index\<close> are the values after the decoding loop.  The \<^verbatim>\<open>switch\<close> is
  on \<open>data_index - data_len\<close>, the number of characters of the last block that were padding.
\<close>

definition decode_b64 :: "string \<Rightarrow> ('z heap_scheme, buffer_t) cmd" where
  "decode_b64 data h =
     (if length data mod 4 \<noteq> 0 then (Val \<lparr>buffer = None, len = 0\<rparr>, h)
      else let rlen = (length data div 4) * 3 in
        case malloc (replicate rlen (0::byte)) h of
          (None, h) \<Rightarrow> (Val \<lparr>buffer = None, len = rlen\<rparr>, h)
        | (Some _, h) \<Rightarrow>
            (case strip_padding data (length data) of
               None \<Rightarrow> (Ub, h)
             | Some data_len \<Rightarrow>
                 let blocks = (data_len + 3) div 4;
                     data_index = 4 * blocks;
                     result_index = 3 * blocks;
                     out = decode_blocks (take data_index data) @ replicate (rlen - result_index) 0
                 in
                 if data_index - data_len = 0 then (Val \<lparr>buffer = Some out, len = rlen\<rparr>, h)
                 else if data_index - data_len = 2 then
                   (let t0 = rev64 (data ! (data_len - 2)); t1 = rev64 (data ! (data_len - 1)) in
                    (Val \<lparr>buffer = Some (out[result_index - 3 := push_bit 2 t0 OR drop_bit 4 t1,
                                            result_index - 2 := push_bit 4 t1]),
                          len = rlen - 2\<rparr>, h))
                 else if data_index - data_len = 3 then
                   (if data_len < 3 then (Ub, h)
                    else let t0 = rev64 (data ! (data_len - 3)); t1 = rev64 (data ! (data_len - 2));
                             t2 = rev64 (data ! (data_len - 1)) in
                    (Val \<lparr>buffer = Some (out[result_index - 3 := push_bit 2 t0 OR drop_bit 4 t1,
                                            result_index - 2 := push_bit 4 t1 OR drop_bit 2 t2,
                                            result_index - 1 := push_bit 6 t2]),
                          len = rlen - 1\<rparr>, h))
                 else (Val \<lparr>buffer = None, len = 0\<rparr>, h)))"

section \<open>Concatenating buffers\<close>

abbreviation PRV_COLUMN_STR :: string where "PRV_COLUMN_STR \<equiv> '':''"

text \<open>\<open>write_at i xs m\<close> is \<^verbatim>\<open>memcpy(m + i, xs, n)\<close> within the object \<open>m\<close>.\<close>

definition write_at :: "nat \<Rightarrow> 'a list \<Rightarrow> 'a list \<Rightarrow> 'a list" where
  "write_at i xs m = take i m @ xs @ drop (i + length xs) m"

definition buf_cat_str_buf ::
  "string \<Rightarrow> buffer_t \<Rightarrow> 'z heap_scheme \<Rightarrow> buffer_t \<times> 'z heap_scheme" where
  "buf_cat_str_buf str data h =
     (case malloc (bytes_of str @ bytes_of PRV_COLUMN_STR @ content data) h of
        (None, h) \<Rightarrow> (\<lparr>buffer = None, len = 0\<rparr>, h)
      | (Some bs, h) \<Rightarrow> (\<lparr>buffer = Some bs, len = length str + 1 + len data\<rparr>, h))"

text \<open>
  \<open>junk\<close> is the content the new block has when \<^verbatim>\<open>malloc\<close> returns it.  The last copy goes to the
  start of the block, as in the source.
\<close>

definition buf_append_str ::
  "(nat \<Rightarrow> byte list) \<Rightarrow> buffer_t \<Rightarrow> string \<Rightarrow> 'z heap_scheme \<Rightarrow> buffer_t \<times> 'z heap_scheme" where
  "buf_append_str junk dataP str h =
     (let newLen = length str + 1 + len dataP in
      case malloc (junk newLen) h of
        (None, h) \<Rightarrow> (dataP, h)
      | (Some newBuf, h) \<Rightarrow>
          let index = len dataP;
              newBuf = write_at 0 (content dataP) newBuf;
              newBuf = write_at index (bytes_of PRV_COLUMN_STR) newBuf;
              newBuf = write_at 0 (bytes_of str) newBuf
          in (\<lparr>buffer = Some newBuf, len = newLen\<rparr>, h))"

section \<open>Lemmas on blocks\<close>

lemma alphabet_inverse: "list_all (\<lambda>n. rev64 (s_b64_alphabet ! n) = word_of_nat n) [0..<64]"
  by code_simp

lemma alphabet_no_padding: "PRV_B64_PADDING \<notin> set s_b64_alphabet"
  by (simp add: s_b64_alphabet_def)

lemma length_alphabet: "length s_b64_alphabet = 64"
  by (simp add: s_b64_alphabet_def)

definition six :: "byte \<Rightarrow> bool" where
  "six w \<longleftrightarrow> take_bit 6 w = w"

lemma six_less: "six w \<Longrightarrow> unat w < 64"
proof -
  assume "six w"
  then have "unat w = take_bit 6 (unat w)"
    by (metis six_def unsigned_take_bit_eq)
  then show ?thesis using take_bit_nat_less_exp [of 6 "unat w"] by simp
qed

lemma rev64_b64_char: "six w \<Longrightarrow> rev64 (b64_char w) = w"
  using alphabet_inverse six_less [of w] by (simp add: list_all_iff b64_char_def)

lemma b64_char_no_padding: "six w \<Longrightarrow> b64_char w \<noteq> PRV_B64_PADDING"
  using alphabet_no_padding six_less [of w] length_alphabet
  by (metis b64_char_def nth_mem)

lemma less_8_cases: "n < (8::nat) \<longleftrightarrow> n \<in> {0,1,2,3,4,5,6,7}"
  by auto

lemma six_block:
  "six (drop_bit 2 a)" "six (push_bit 4 (a AND 0x03) OR drop_bit 4 b)"
  "six (push_bit 4 (a AND 0x03))" "six (push_bit 2 (b AND 0x0F))"
  "six (push_bit 2 (b AND 0x0F) OR drop_bit 6 c)" "six (c AND 0x3F)" for a b c :: byte
  unfolding six_def
  by (rule bit_word_eqI;
      auto simp: less_8_cases bit_simps numeral_2_eq_2 [symmetric] dest: bit_imp_le_length)+

lemma block_bits:
  fixes a b c :: byte
  shows "push_bit 2 (drop_bit 2 a) OR drop_bit 4 (push_bit 4 (a AND 0x03) OR drop_bit 4 b) = a"
    and "push_bit 4 (push_bit 4 (a AND 0x03) OR drop_bit 4 b) OR
         drop_bit 2 (push_bit 2 (b AND 0x0F) OR drop_bit 6 c) = b"
    and "push_bit 6 (push_bit 2 (b AND 0x0F) OR drop_bit 6 c) OR (c AND 0x3F) = c"
    and "push_bit 2 (drop_bit 2 a) OR drop_bit 4 (push_bit 4 (a AND 0x03)) = a"
  by (rule bit_word_eqI;
      auto simp: less_8_cases bit_simps numeral_2_eq_2 [symmetric] dest: bit_imp_le_length)+


lemma block_bits_tail:
  fixes a b :: byte
  shows "push_bit 4 (push_bit 4 (a AND 0x03) OR drop_bit 4 b) OR drop_bit 2 (push_bit 2 (b AND 0x0F)) = b"
  by (rule bit_word_eqI;
      auto simp: less_8_cases bit_simps numeral_2_eq_2 [symmetric] dest: bit_imp_le_length)

lemmas rev64_six = six_block [THEN rev64_b64_char]
lemmas no_padding_six = six_block [THEN b64_char_no_padding]

lemma decode_encode_block:
  assumes "prv_encode_block a b c = [c0, c1, c2, c3]"
  shows "prv_decode_block c0 c1 c2 c3 = [a, b, c]"
proof -
  have c: "c0 = b64_char (drop_bit 2 a)"
    "c1 = b64_char (push_bit 4 (a AND 0x03) OR drop_bit 4 b)"
    "c2 = b64_char (push_bit 2 (b AND 0x0F) OR drop_bit 6 c)"
    "c3 = b64_char (c AND 0x3F)"
    using assms by (auto simp only: prv_encode_block_def list.inject)
  show ?thesis unfolding prv_decode_block_def c rev64_six block_bits by (rule refl)
qed

lemma div_steps:
  "(Suc (Suc (Suc n)) + 2) div 3 = Suc ((n + 2) div 3)"
  "Suc (Suc (Suc (Suc n))) div 4 = Suc (n div 4)"
  "Suc (Suc (Suc n)) mod 3 = n mod 3"
  "(5 + n) div 3 = Suc ((n + 2) div 3)" "(4 + n) div 4 = Suc (n div 4)"
  "Suc (Suc (3 * n)) div 3 = n" "Suc (Suc (3 * n)) mod 3 = 2"
  by presburger+

lemma length_encode_loop: "length (encode_loop bs) = 4 * ((length bs + 2) div 3)"
proof (induction bs rule: encode_loop.induct)
  case (4 a b c rest)
  then show ?case by (simp add: prv_encode_block_def div_steps del: add_2_eq_Suc')
qed auto

lemma encode_loop_append:
  "length xs mod 3 = 0 \<Longrightarrow> encode_loop (xs @ ys) = encode_loop xs @ encode_loop ys"
  by (induction xs rule: encode_loop.induct) (auto simp: mod_Suc split: if_splits)

lemma encode_loop_no_padding:
  "length xs mod 3 = 0 \<Longrightarrow> PRV_B64_PADDING \<notin> set (encode_loop xs)"
proof (induction xs rule: encode_loop.induct)
  case (4 a b c rest)
  have "PRV_B64_PADDING \<notin> set (prv_encode_block a b c)"
    using no_padding_six [symmetric] by (simp only: prv_encode_block_def list.set insert_iff) simp
  with 4 show ?case by (simp add: div_steps)
qed auto

lemma decode_blocks_encode:
  "length xs mod 3 = 0 \<Longrightarrow> decode_blocks (encode_loop xs @ rest) = xs @ decode_blocks rest"
proof (induction xs rule: encode_loop.induct)
  case (4 a b c xs)
  then show ?case
    using decode_encode_block [of a b c] by (simp add: prv_encode_block_def)
qed auto

lemma length_decode_blocks: "length (decode_blocks cs) = 3 * (length cs div 4)"
proof (induction cs rule: decode_blocks.induct)
  case (1 c0 c1 c2 c3 rest)
  then show ?case by (simp add: prv_decode_block_def div_steps)
qed auto

lemma strip_padding_cong:
  "(\<And>i. i < n \<Longrightarrow> x ! i = y ! i) \<Longrightarrow> strip_padding x n = strip_padding y n"
  by (induction n) auto

lemma strip_padding_last:
  "cs \<noteq> [] \<Longrightarrow> last cs \<noteq> PRV_B64_PADDING \<Longrightarrow>
     strip_padding (cs @ replicate k PRV_B64_PADDING) (length cs + k) = Some (length cs)"
proof (induction k)
  case 0
  then show ?case by (cases "length cs") (auto simp: last_conv_nth)
next
  case (Suc k)
  have "strip_padding (cs @ replicate (Suc k) PRV_B64_PADDING) (length cs + k) =
      strip_padding (cs @ replicate k PRV_B64_PADDING) (length cs + k)"
    by (rule strip_padding_cong) (simp add: nth_append del: replicate_Suc)
  moreover have "(cs @ replicate (Suc k) PRV_B64_PADDING) ! (length cs + k) = PRV_B64_PADDING"
    by (simp add: nth_append del: replicate_Suc)
  ultimately show ?case using Suc by (simp del: replicate_Suc)
qed

text \<open>Every byte list is full blocks followed by at most two bytes.\<close>

lemma block_split:
  obtains xs where "bs = xs" "length xs mod 3 = 0"
  | xs a where "bs = xs @ [a]" "length xs mod 3 = 0"
  | xs a b where "bs = xs @ [a, b]" "length xs mod 3 = 0"
proof -
  let ?n = "3 * (length bs div 3)"
  have n: "?n \<le> length bs" by simp
  define u v where "u = take ?n bs" and "v = drop ?n bs"
  have "bs = u @ v" by (simp add: u_def v_def)
  moreover have "length u mod 3 = 0" using n by (simp add: u_def min_absorb2)
  moreover have "length v = length bs mod 3"
    unfolding v_def by (simp only: length_drop minus_mult_div_eq_mod)
  then have "length v < 3" by simp
  ultimately have uv: "bs = u @ v" "length u mod 3 = 0" "length v < 3" by simp_all
  show ?thesis
  proof (cases v)
    case (Cons a w)
    with uv that(2,3) show ?thesis by (cases w) auto
  qed (use uv that(1) in simp)
qed

section \<open>Decoding what was encoded\<close>

text \<open>The three shapes an encoded string can have, and what the decoder makes of each.\<close>

lemma decode_whole:
  assumes "plenty h" and "xs \<noteq> []" and "length xs mod 3 = 0"
  shows "decode_b64 (encode_loop xs) h = (Val \<lparr>buffer = Some xs, len = length xs\<rparr>, h)"
proof -
  obtain k where k: "length xs = 3 * k" using assms(3) by auto
  then have L: "length (encode_loop xs) = 4 * k"
    using length_encode_loop [of xs] by simp
  have "encode_loop xs \<noteq> []" using L k assms(2) by auto
  then have "last (encode_loop xs) \<noteq> PRV_B64_PADDING"
    using encode_loop_no_padding [OF assms(3)] last_in_set by metis
  then have "strip_padding (encode_loop xs) (4 * k) = Some (4 * k)"
    using strip_padding_last [of "encode_loop xs" 0] L \<open>encode_loop xs \<noteq> []\<close> by simp
  moreover have "(4 * k + 3) div 4 = k" by simp
  ultimately show ?thesis
    using decode_blocks_encode [OF assms(3), of "[]"] assms(1) L k
    by (simp add: decode_b64_def Let_def)
qed

lemma decode_tail_facts:
  assumes "length xs mod 3 = 0" and "length t = 4" and "data = encode_loop xs @ t"
    and "length xs = 3 * k"
  shows "length data = 4 * k + 4" and "take (4 * k + 4) data = data"
    and "decode_blocks data = xs @ decode_blocks t"
    and "\<And>i. i < 4 \<Longrightarrow> data ! (4 * k + i) = t ! i"
proof -
  have L: "length (encode_loop xs) = 4 * k"
    using assms(4) length_encode_loop [of xs] by (simp add: div_steps)
  show "length data = 4 * k + 4" "take (4 * k + 4) data = data"
    "decode_blocks data = xs @ decode_blocks t" "\<And>i. i < 4 \<Longrightarrow> data ! (4 * k + i) = t ! i"
    using assms L decode_blocks_encode [OF assms(1)] by (simp_all add: nth_append)
qed

lemma decode_one:
  assumes "plenty h" and "length xs mod 3 = 0"
  shows "\<exists>b. decode_b64 (encode_loop (xs @ [a])) h = (Val b, h) \<and> content b = xs @ [a] \<and>
    len b = length xs + 1"
proof -
  obtain k where k: "length xs = 3 * k" using assms(2) by auto
  define e0 where "e0 = b64_char (drop_bit 2 a)"
  define e1 where "e1 = b64_char (push_bit 4 (a AND 0x03))"
  define data where "data = encode_loop xs @ [e0, e1, PRV_B64_PADDING, PRV_B64_PADDING]"
  have L: "length (encode_loop xs) = 4 * k" using length_encode_loop [of xs] k by (simp add: div_steps)
  have data: "encode_loop (xs @ [a]) = data"
    using encode_loop_append [OF assms(2), of "[a]"] by (simp add: data_def e0_def e1_def)
  note f = decode_tail_facts [OF assms(2) _ data_def k, simplified]
  have "e1 \<noteq> PRV_B64_PADDING" unfolding e1_def by (rule no_padding_six)
  then have "strip_padding data (4 * k + 4) = Some (4 * k + 2)"
    using strip_padding_last [of "encode_loop xs @ [e0, e1]" 2] L
    by (simp add: data_def eval_nat_numeral)
  moreover have "push_bit 2 (rev64 e0) OR drop_bit 4 (rev64 e1) = a"
    unfolding e0_def e1_def rev64_six block_bits by (rule refl)
  moreover have "data ! (4 * k) = e0" "data ! Suc (4 * k) = e1"
    using f(4) [of 0] f(4) [of 1] by simp_all
  moreover have "(4 * k + 5) div 4 = k + 1" "(4 * k + 4) mod 4 = 0" "(4 * k + 4) div 4 = k + 1"
    by presburger+
  ultimately show ?thesis
    using f(1-3) assms(1) k
    by (simp add: data decode_b64_def Let_def content_def prv_decode_block_def list_update_append
        take_Suc_conv_app_nth)
qed

lemma decode_two:
  assumes "plenty h" and "length xs mod 3 = 0"
  shows "decode_b64 (encode_loop (xs @ [a, b])) h = (Val \<lparr>buffer = None, len = 0\<rparr>, h)"
proof -
  obtain k where k: "length xs = 3 * k" using assms(2) by auto
  define e0 where "e0 = b64_char (drop_bit 2 a)"
  define e1 where "e1 = b64_char (push_bit 4 (a AND 0x03) OR drop_bit 4 b)"
  define e2 where "e2 = b64_char (push_bit 2 (b AND 0x0F))"
  define data where "data = encode_loop xs @ [e0, e1, e2, PRV_B64_PADDING]"
  have L: "length (encode_loop xs) = 4 * k" using length_encode_loop [of xs] k by (simp add: div_steps)
  have data: "encode_loop (xs @ [a, b]) = data"
    using encode_loop_append [OF assms(2), of "[a, b]"] by (simp add: data_def e0_def e1_def e2_def)
  note f = decode_tail_facts [OF assms(2) _ data_def k, simplified]
  have "e2 \<noteq> PRV_B64_PADDING" unfolding e2_def by (rule no_padding_six)
  then have "strip_padding data (4 * k + 4) = Some (4 * k + 3)"
    using strip_padding_last [of "encode_loop xs @ [e0, e1, e2]" 1] L
    by (simp add: data_def eval_nat_numeral)
  moreover have "(4 * k + 6) div 4 = k + 1" "(4 * k + 4) mod 4 = 0" "(4 * k + 4) div 4 = k + 1"
    by presburger+
  ultimately show ?thesis
    using f(1-3) assms(1) k by (simp add: data decode_b64_def Let_def)
qed

section \<open>The contract of a byte codec\<close>

text \<open>
  What the nonce exchange relies on: decoding gives back what was encoded, on the domain where
  it does.  The interpretation below instantiates it with the code's two functions.
\<close>

locale byte_codec =
  fixes enc :: "byte list \<Rightarrow> string"
    and dec :: "string \<Rightarrow> byte list"
    and dom :: "byte list \<Rightarrow> bool"
  assumes dec_enc: "dom bs \<Longrightarrow> dec (enc bs) = bs"
begin

lemma enc_inj: "dom bs \<Longrightarrow> dom cs \<Longrightarrow> enc bs = enc cs \<Longrightarrow> bs = cs"
  by (metis dec_enc)

lemma enc_map_inj: "list_all dom bss \<Longrightarrow> map (dec \<circ> enc) bss = bss"
  by (induction bss) (auto simp: dec_enc)

end

definition b64_dom :: "byte list \<Rightarrow> bool" where
  "b64_dom bs \<longleftrightarrow> bs \<noteq> [] \<and> length bs mod 3 \<noteq> 2"

definition b64_dec :: "string \<Rightarrow> byte list" where
  "b64_dec s = (case decode_b64 s \<lparr>mem = []\<rparr> of (Val b, _) \<Rightarrow> content b | _ \<Rightarrow> [])"

lemma decode_encode:
  assumes "plenty h" and "b64_dom bs"
  shows "\<exists>b. decode_b64 (encode_loop bs) h = (Val b, h) \<and> content b = bs \<and> len b = length bs"
proof (rule block_split [of bs])
  fix xs assume "bs = xs" "length xs mod 3 = 0"
  then show ?thesis
    using decode_whole [OF assms(1), of xs] assms(2) by (simp add: b64_dom_def content_def)
next
  fix xs a assume "bs = xs @ [a]" "length xs mod 3 = 0"
  then show ?thesis using decode_one [OF assms(1), of xs a] by simp
next
  fix xs a b assume "bs = xs @ [a, b]" "length xs mod 3 = 0"
  then have "length bs mod 3 = 2" by simp presburger
  then show ?thesis using assms(2) by (simp add: b64_dom_def)
qed

interpretation b64: byte_codec encode_loop b64_dec b64_dom
proof unfold_locales
  fix bs assume "b64_dom bs"
  then show "b64_dec (encode_loop bs) = bs"
    using decode_encode [of "\<lparr>mem = []\<rparr>" bs] by (auto simp: b64_dec_def)
qed

section \<open>Properties\<close>

text \<open>
  C5. Base64 round trip where it holds: decoding what \<open>encode_b64\<close> made of any non-empty byte
  sequence whose length is not two modulo three gives back exactly those bytes.
\<close>

theorem b64_round_trip:
  assumes "plenty h" and "bs \<noteq> []" and "length bs mod 3 \<noteq> 2"
  shows "\<exists>s b. encode_b64 bs h = (Some s, h) \<and> decode_b64 s h = (Val b, h) \<and>
    content b = bs \<and> len b = length bs"
  using decode_encode [OF assms(1), of bs] assms by (simp add: b64_dom_def encode_b64_def)

theorem b64_round_trip_witness:
  "\<exists>s b. encode_b64 [1, 2, 3, 4] \<lparr>mem = []\<rparr> = (Some s, \<lparr>mem = []\<rparr>) \<and>
    decode_b64 s \<lparr>mem = []\<rparr> = (Val b, \<lparr>mem = []\<rparr>) \<and> content b = [1, 2, 3, 4] \<and>
    len b = length [1::byte, 2, 3, 4]"
  using b64_round_trip [of "\<lparr>mem = []\<rparr>" "[1, 2, 3, 4]"] by simp

lemma b64_lost:
  assumes "plenty h" and "length bs mod 3 = 2"
  shows "decode_b64 (encode_loop bs) h = (Val \<lparr>buffer = None, len = 0\<rparr>, h)"
proof (rule block_split [of bs])
  fix xs a b assume "bs = xs @ [a, b]" "length xs mod 3 = 0"
  then show ?thesis using decode_two [OF assms(1)] by simp
next
  fix xs a assume "bs = xs @ [a]" "length xs mod 3 = 0"
  then have "length bs mod 3 = 1" by simp presburger
  then show ?thesis using assms(2) by simp
qed (use assms(2) in simp)

text \<open>
  The round trip fails for a third of all inputs: \<open>encode_b64\<close> ends a string of length two
  modulo three with one padding character, and \<open>decode_b64\<close>, which counts padding characters
  where its \<^verbatim>\<open>switch\<close> expects the number of remaining ones, drops every such string and returns
  a null buffer.
\<close>

theorem b64_tail_of_two_lost:
  assumes "plenty h" and "length bs mod 3 = 2"
  shows "\<exists>s. encode_b64 bs h = (Some s, h) \<and>
    decode_b64 s h = (Val \<lparr>buffer = None, len = 0\<rparr>, h)"
  using b64_lost [OF assms] assms(1) by (simp add: encode_b64_def)

theorem b64_tail_of_two_lost_witness:
  "\<exists>s. encode_b64 [1, 2, 3, 4, 5, 6, 7, 8] \<lparr>mem = []\<rparr> = (Some s, \<lparr>mem = []\<rparr>) \<and>
    decode_b64 s \<lparr>mem = []\<rparr> = (Val \<lparr>buffer = None, len = 0\<rparr>, \<lparr>mem = []\<rparr>)"
  by (rule b64_tail_of_two_lost) simp_all

text \<open>
  The encoder never writes outside its allocation: for every input, the characters it writes
  and the terminator fill exactly the \<open>result_len\<close> bytes it asked for.
\<close>

theorem b64_fills_allocation: "length (encode_loop bs) + 1 = b64_result_len (length bs)"
proof -
  define q r where "q = length bs div 3" and "r = length bs mod 3"
  have n: "length bs = 3 * q + r" and "r < 3" by (simp_all add: q_def r_def)
  then consider "r = 0" | "r = 1" | "r = 2" by linarith
  then show ?thesis
    by cases (simp_all add: length_encode_loop n b64_result_len_def div_steps)
qed

text \<open>
  The padding loop has no lower bound: whenever a string of base64 length consists of padding
  only, in particular when it is empty, \<open>decode_b64\<close> reads before the start of the string.  The
  caller passes it the next nonce a server sent.
\<close>

theorem b64_padding_only_underflow:
  assumes "plenty h" and "n mod 4 = 0"
  shows "decode_b64 (replicate n PRV_B64_PADDING) h = (Ub, h)"
proof -
  have "k \<le> n \<Longrightarrow> strip_padding (replicate n PRV_B64_PADDING) k = None" for k
    by (induction k) simp_all
  then have "strip_padding (replicate n PRV_B64_PADDING) n = None" by simp
  then show ?thesis using assms by (simp add: decode_b64_def Let_def del: replicate_Suc)
qed

theorem b64_padding_only_underflow_witness: "decode_b64 [] \<lparr>mem = []\<rparr> = (Ub, \<lparr>mem = []\<rparr>)"
  using b64_padding_only_underflow [of "\<lparr>mem = []\<rparr>" 0] by simp

text \<open>
  \<open>buf_append_str\<close> does not append: with enough memory, and for a string no longer than the
  buffer, the result starts with the string written over the buffer's own bytes, and its last
  bytes, as many as the string has, are whatever the allocated block held.
\<close>

theorem buf_append_str_overwrites:
  assumes "plenty h" and "buffer b = Some d" and "len b = length d" and "length str \<le> length d"
    and "length (junk (length str + 1 + length d)) = length str + 1 + length d"
  shows "buf_append_str junk b str h =
    (\<lparr>buffer = Some (bytes_of str @ drop (length str) d @ bytes_of PRV_COLUMN_STR @
        drop (1 + length d) (junk (length str + 1 + length d))),
      len = length str + 1 + length d\<rparr>, h)"
  using assms
  by (simp add: buf_append_str_def Let_def content_def write_at_def bytes_of_def)

theorem buf_append_str_overwrites_witness:
  "buf_append_str (\<lambda>n. replicate n 255) \<lparr>buffer = Some [1, 2], len = 2\<rparr> ''A'' \<lparr>mem = []\<rparr> =
     (\<lparr>buffer = Some [65, 2, 58, 255], len = 4\<rparr>, \<lparr>mem = []\<rparr>)"
  using buf_append_str_overwrites [of "\<lparr>mem = []\<rparr>" "\<lparr>buffer = Some [1, 2], len = 2\<rparr>" "[1, 2]" "''A''"
      "\<lambda>n. replicate n 255"]
  by (simp add: bytes_of_def eval_nat_numeral)

end
