(* ===== verification/Md5.thy ===== *)
theory Md5
  imports Codec
begin

unbundle bit_operations_syntax

text \<open>
  \<^verbatim>\<open>externals/libmd5-rfc/md5.c\<close>: the digest every credential and notification check of the
  library is computed with.  Words are \<^typ>\<open>32 word\<close>, so additions wrap as \<^verbatim>\<open>md5_word_t\<close> does.
  The compression function is the table of the source's 64 \<^verbatim>\<open>SET\<close> lines run by one loop; the
  streaming functions keep the partially filled block in \<open>buf\<close>.

  The theory then gives RFC 1321 in one piece (pad the message, fold the compression function
  over its blocks) and shows that any sequence of \<open>md5_append\<close> calls computes it.
\<close>

type_synonym md5_word_t = "32 word"

record md5_state_t =
  count0 :: md5_word_t
  count1 :: md5_word_t
  abcd :: "md5_word_t list"
  buf :: "byte list"

section \<open>The compression function\<close>

definition ROTATE_LEFT :: "md5_word_t \<Rightarrow> nat \<Rightarrow> md5_word_t" where
  "ROTATE_LEFT x n = push_bit n x OR drop_bit (32 - n) x"

definition md5_F :: "md5_word_t \<Rightarrow> md5_word_t \<Rightarrow> md5_word_t \<Rightarrow> md5_word_t" where
  "md5_F x y z = (x AND y) OR (NOT x AND z)"

definition md5_G :: "md5_word_t \<Rightarrow> md5_word_t \<Rightarrow> md5_word_t \<Rightarrow> md5_word_t" where
  "md5_G x y z = (x AND z) OR (y AND NOT z)"

definition md5_H :: "md5_word_t \<Rightarrow> md5_word_t \<Rightarrow> md5_word_t \<Rightarrow> md5_word_t" where
  "md5_H x y z = x XOR y XOR z"

definition md5_I :: "md5_word_t \<Rightarrow> md5_word_t \<Rightarrow> md5_word_t \<Rightarrow> md5_word_t" where
  "md5_I x y z = y XOR (x OR NOT z)"

type_synonym regs = "md5_word_t \<times> md5_word_t \<times> md5_word_t \<times> md5_word_t"

text \<open>
  One \<^verbatim>\<open>SET\<close> line.  The lines pass the registers in rotating order, so the loop rotates the
  tuple instead: the register just written comes second.
\<close>

fun md5_SET ::
  "(md5_word_t \<Rightarrow> md5_word_t \<Rightarrow> md5_word_t \<Rightarrow> md5_word_t) \<Rightarrow> md5_word_t list \<Rightarrow>
     nat \<times> nat \<times> md5_word_t \<Rightarrow> regs \<Rightarrow> regs" where
  "md5_SET f X (k, s, Ti) (a, b, c, d) = (d, ROTATE_LEFT (a + f b c d + X ! k + Ti) s + b, b, c)"

definition round1 :: "(nat \<times> nat \<times> md5_word_t) list" where
  "round1 =
    [(0, 7, 0xd76aa478), (1, 12, 0xe8c7b756), (2, 17, 0x242070db), (3, 22, 0xc1bdceee),
     (4, 7, 0xf57c0faf), (5, 12, 0x4787c62a), (6, 17, 0xa8304613), (7, 22, 0xfd469501),
     (8, 7, 0x698098d8), (9, 12, 0x8b44f7af), (10, 17, 0xffff5bb1), (11, 22, 0x895cd7be),
     (12, 7, 0x6b901122), (13, 12, 0xfd987193), (14, 17, 0xa679438e), (15, 22, 0x49b40821)]"

definition round2 :: "(nat \<times> nat \<times> md5_word_t) list" where
  "round2 =
    [(1, 5, 0xf61e2562), (6, 9, 0xc040b340), (11, 14, 0x265e5a51), (0, 20, 0xe9b6c7aa),
     (5, 5, 0xd62f105d), (10, 9, 0x02441453), (15, 14, 0xd8a1e681), (4, 20, 0xe7d3fbc8),
     (9, 5, 0x21e1cde6), (14, 9, 0xc33707d6), (3, 14, 0xf4d50d87), (8, 20, 0x455a14ed),
     (13, 5, 0xa9e3e905), (2, 9, 0xfcefa3f8), (7, 14, 0x676f02d9), (12, 20, 0x8d2a4c8a)]"

definition round3 :: "(nat \<times> nat \<times> md5_word_t) list" where
  "round3 =
    [(5, 4, 0xfffa3942), (8, 11, 0x8771f681), (11, 16, 0x6d9d6122), (14, 23, 0xfde5380c),
     (1, 4, 0xa4beea44), (4, 11, 0x4bdecfa9), (7, 16, 0xf6bb4b60), (10, 23, 0xbebfbc70),
     (13, 4, 0x289b7ec6), (0, 11, 0xeaa127fa), (3, 16, 0xd4ef3085), (6, 23, 0x04881d05),
     (9, 4, 0xd9d4d039), (12, 11, 0xe6db99e5), (15, 16, 0x1fa27cf8), (2, 23, 0xc4ac5665)]"

definition round4 :: "(nat \<times> nat \<times> md5_word_t) list" where
  "round4 =
    [(0, 6, 0xf4292244), (7, 10, 0x432aff97), (14, 15, 0xab9423a7), (5, 21, 0xfc93a039),
     (12, 6, 0x655b59c3), (3, 10, 0x8f0ccc92), (10, 15, 0xffeff47d), (1, 21, 0x85845dd1),
     (8, 6, 0x6fa87e4f), (15, 10, 0xfe2ce6e0), (6, 15, 0xa3014314), (13, 21, 0x4e0811a1),
     (4, 6, 0xf7537e82), (11, 10, 0xbd3af235), (2, 15, 0x2ad7d2bb), (9, 21, 0xeb86d391)]"

definition le_word :: "byte list \<Rightarrow> md5_word_t" where
  "le_word bs = (case bs of
     [b0, b1, b2, b3] \<Rightarrow> ucast b0 + push_bit 8 (ucast b1) + push_bit 16 (ucast b2) + push_bit 24 (ucast b3)
   | _ \<Rightarrow> 0)"

fun le_words :: "byte list \<Rightarrow> md5_word_t list" where
  "le_words (b0 # b1 # b2 # b3 # rest) = le_word [b0, b1, b2, b3] # le_words rest"
| "le_words _ = []"

definition md5_compress :: "md5_word_t list \<Rightarrow> byte list \<Rightarrow> md5_word_t list" where
  "md5_compress r data =
     (let X = le_words data;
          s0 = (r ! 0, r ! 1, r ! 2, r ! 3);
          s1 = fold (md5_SET md5_F X) round1 s0;
          s2 = fold (md5_SET md5_G X) round2 s1;
          s3 = fold (md5_SET md5_H X) round3 s2;
          (a, b, c, d) = fold (md5_SET md5_I X) round4 s3
      in [r ! 0 + a, r ! 1 + b, r ! 2 + c, r ! 3 + d])"

definition md5_process :: "md5_state_t \<Rightarrow> byte list \<Rightarrow> md5_state_t" where
  "md5_process pms data = pms\<lparr>abcd := md5_compress (abcd pms) data\<rparr>"

section \<open>The streaming interface\<close>

text \<open>\<open>junk\<close> is the content of \<open>buf\<close>, which \<open>md5_init\<close> leaves as it is.\<close>

definition md5_init :: "byte list \<Rightarrow> md5_state_t" where
  "md5_init junk = \<lparr>count0 = 0, count1 = 0,
     abcd = [0x67452301, 0xefcdab89, 0x98badcfe, 0x10325476], buf = junk\<rparr>"

definition offset :: "md5_state_t \<Rightarrow> nat" where
  "offset pms = unat (drop_bit 3 (count0 pms) AND 63)"

fun full_blocks :: "md5_state_t \<Rightarrow> byte list \<Rightarrow> md5_state_t \<times> byte list" where
  "full_blocks pms p =
     (if length p \<ge> 64 then full_blocks (md5_process pms (take 64 p)) (drop 64 p) else (pms, p))"

declare full_blocks.simps [simp del]

definition md5_tail :: "md5_state_t \<Rightarrow> byte list \<Rightarrow> md5_state_t" where
  "md5_tail pms p =
     (case full_blocks pms p of (pms, p) \<Rightarrow>
        if p \<noteq> [] then pms\<lparr>buf := write_at 0 p (buf pms)\<rparr> else pms)"

text \<open>
  \<open>nbytes\<close> is the length of \<open>data\<close>; \<^verbatim>\<open>nbytes << 3\<close> is a signed shift, defined as long as
  \<open>nbytes\<close> is below 2 to the 28, which \<open>md5_ok_len\<close> states.
\<close>

definition md5_ok_len :: "byte list \<Rightarrow> bool" where
  "md5_ok_len data \<longleftrightarrow> length data < 2 ^ 28"

definition md5_count :: "md5_state_t \<Rightarrow> nat \<Rightarrow> md5_state_t" where
  "md5_count pms nbytes =
     (let nbits = word_of_nat (8 * nbytes);
          pms = pms\<lparr>count1 := count1 pms + word_of_nat (nbytes div 2 ^ 29)\<rparr>;
          pms = pms\<lparr>count0 := count0 pms + nbits\<rparr>
      in if count0 pms < nbits then pms\<lparr>count1 := count1 pms + 1\<rparr> else pms)"

definition md5_append :: "md5_state_t \<Rightarrow> byte list \<Rightarrow> md5_state_t" where
  "md5_append pms data =
     (let nbytes = length data; off = offset pms in
      if nbytes = 0 then pms
      else let pms = md5_count pms nbytes in
        if off \<noteq> 0 then
          (let copy = (if off + nbytes > 64 then 64 - off else nbytes);
               pms = pms\<lparr>buf := write_at off (take copy data) (buf pms)\<rparr>
           in if off + copy < 64 then pms
              else md5_tail (md5_process pms (buf pms)) (drop copy data))
        else md5_tail pms data)"

definition md5_pad :: "byte list" where
  "md5_pad = 0x80 # replicate 63 0"

definition count_bytes :: "md5_state_t \<Rightarrow> byte list" where
  "count_bytes pms =
     map (\<lambda>i. ucast (drop_bit (8 * (i mod 4)) (if i div 4 = 0 then count0 pms else count1 pms))) [0..<8]"

definition digest_bytes :: "md5_word_t list \<Rightarrow> byte list" where
  "digest_bytes r = map (\<lambda>i. ucast (drop_bit (8 * (i mod 4)) (r ! (i div 4)))) [0..<16]"

definition pad_len :: "md5_state_t \<Rightarrow> nat" where
  "pad_len pms = unat ((55 - drop_bit 3 (count0 pms)) AND 63) + 1"

definition md5_finish :: "md5_state_t \<Rightarrow> byte list" where
  "md5_finish pms =
     (let data = count_bytes pms;
          pms = md5_append pms (take (pad_len pms) md5_pad);
          pms = md5_append pms data
      in digest_bytes (abcd pms))"

section \<open>RFC 1321 in one piece\<close>

fun hash_blocks :: "md5_word_t list \<Rightarrow> byte list \<Rightarrow> md5_word_t list" where
  "hash_blocks r m =
     (if length m \<ge> 64 then hash_blocks (md5_compress r (take 64 m)) (drop 64 m) else r)"

declare hash_blocks.simps [simp del]

definition leftover :: "byte list \<Rightarrow> byte list" where
  "leftover m = drop (64 * (length m div 64)) m"

definition le64 :: "nat \<Rightarrow> byte list" where
  "le64 n = map (\<lambda>i. word_of_nat (n div 2 ^ (8 * i))) [0..<8]"

definition padding :: "byte list \<Rightarrow> byte list" where
  "padding m = 0x80 # replicate (nat ((55 - int (length m)) mod 64)) 0"

definition iv :: "md5_word_t list" where
  "iv = [0x67452301, 0xefcdab89, 0x98badcfe, 0x10325476]"

definition rfc1321 :: "byte list \<Rightarrow> byte list" where
  "rfc1321 m = digest_bytes (hash_blocks iv (m @ padding m @ le64 (8 * length m)))"

section \<open>The state represents the message so far\<close>

definition represents :: "md5_state_t \<Rightarrow> byte list \<Rightarrow> bool" where
  "represents pms m \<longleftrightarrow>
     count0 pms = word_of_nat (8 * length m) \<and> count1 pms = word_of_nat (8 * length m div 2 ^ 32) \<and>
     abcd pms = hash_blocks iv m \<and> length (buf pms) = 64 \<and>
     take (length m mod 64) (buf pms) = leftover m"

lemma leftover_short: "length m < 64 \<Longrightarrow> leftover m = m"
  by (simp add: leftover_def)

lemma length_leftover [simp]: "length (leftover m) = length m mod 64"
  unfolding leftover_def by (simp only: length_drop minus_mult_div_eq_mod)

lemma leftover_step: "64 \<le> length m \<Longrightarrow> leftover (drop 64 m) = leftover m"
  by (simp add: leftover_def le_div_geq add.commute)

lemma hash_blocks_short: "length m < 64 \<Longrightarrow> hash_blocks r m = r"
  by (simp add: hash_blocks.simps)

lemma hash_blocks_append: "hash_blocks r (m @ d) = hash_blocks (hash_blocks r m) (leftover m @ d)"
proof (induction r m rule: hash_blocks.induct)
  case (1 r m)
  show ?case
  proof (cases "64 \<le> length m")
    case True
    then show ?thesis
      using 1 [OF True] leftover_step [OF True]
      by (simp add: hash_blocks.simps [of r "m @ d"] hash_blocks.simps [of r m])
  next
    case False
    then show ?thesis by (simp add: hash_blocks_short leftover_short)
  qed
qed

lemma leftover_append: "leftover (m @ d) = leftover (leftover m @ d)"
proof -
  define q r where "q = length m div 64" and "r = length m mod 64"
  have m: "length m = 64 * q + r" and r: "r < 64" by (simp_all add: q_def r_def)
  have lo: "leftover m = drop (64 * q) m" by (simp add: leftover_def q_def)
  define t where "t = (r + length d) div 64"
  have "(length m + length d) div 64 = q + t" unfolding m t_def by simp
  then have "leftover (m @ d) = drop (64 * (q + t)) (m @ d)" by (simp add: leftover_def)
  also have "\<dots> = drop (64 * t) (drop (64 * q) (m @ d))"
    by (simp only: drop_drop) (simp add: algebra_simps)
  also have "drop (64 * q) (m @ d) = leftover m @ d" using m by (simp add: lo)
  also have "drop (64 * t) (leftover m @ d) = leftover (leftover m @ d)"
    by (simp add: leftover_def [of "leftover m @ d"] t_def r_def)
  finally show ?thesis .
qed

lemma full_blocks_eq: "full_blocks pms p = (pms\<lparr>abcd := hash_blocks (abcd pms) p\<rparr>, leftover p)"
proof (induction pms p rule: full_blocks.induct)
  case (1 pms p)
  show ?case
  proof (cases "64 \<le> length p")
    case True
    then show ?thesis
      using 1 [OF True] leftover_step [OF True]
      by (simp add: full_blocks.simps [of pms p] hash_blocks.simps [of "abcd pms" p] md5_process_def)
  next
    case False
    then show ?thesis
      by (simp add: full_blocks.simps [of pms p] hash_blocks_short leftover_short)
  qed
qed

lemma take_write_at: "i + length xs \<le> length m \<Longrightarrow>
    take (i + length xs) (write_at i xs m) = take i m @ xs"
  by (simp add: write_at_def)

lemma length_write_at: "i + length xs \<le> length m \<Longrightarrow> length (write_at i xs m) = length m"
  by (simp add: write_at_def)

lemma md5_tail_eq:
  "length (buf pms) = 64 \<Longrightarrow>
     count0 (md5_tail pms p) = count0 pms \<and> count1 (md5_tail pms p) = count1 pms \<and>
     abcd (md5_tail pms p) = hash_blocks (abcd pms) p \<and> length (buf (md5_tail pms p)) = 64 \<and>
     take (length p mod 64) (buf (md5_tail pms p)) = leftover p"
  using take_write_at [of 0 "leftover p" "buf pms"] length_write_at [of 0 "leftover p" "buf pms"]
  by (cases "leftover p = []")
    (simp_all add: md5_tail_def full_blocks_eq less_imp_le, metis length_leftover list.size(3) take0)

lemma and_63: "(w :: md5_word_t) AND 63 = take_bit 6 w"
  by (simp add: take_bit_eq_mask mask_eq_exp_minus_1)

lemma offset_represents:
  assumes "represents pms m"
  shows "offset pms = length m mod 64"
proof -
  define a where "a = 8 * length m"
  have c: "count0 pms = word_of_nat a" using assms by (simp only: represents_def a_def)
  have "unat (drop_bit 3 (count0 pms) AND 63) = take_bit 6 (drop_bit 3 (unat (count0 pms)))"
    by (simp only: and_63 unsigned_take_bit_eq unat_drop_bit_eq)
  also have "unat (count0 pms) = a mod 2 ^ 32" unfolding c by (simp add: unat_of_nat)
  also have "take_bit 6 (drop_bit 3 (a mod 2 ^ 32)) = a mod 2 ^ 32 div 2 ^ 3 mod 2 ^ 6"
    by (simp only: take_bit_eq_mod drop_bit_eq_div)
  also have "a mod 2 ^ 32 = 8 * (length m mod 2 ^ 29)" by (simp add: a_def mult_mod_right)
  also have "8 * (length m mod 2 ^ 29) div 2 ^ 3 mod 2 ^ 6 = length m mod 64"
    by (simp add: mod_mod_cancel)
  finally show ?thesis unfolding offset_def .
qed

lemma count_carry:
  fixes a b :: nat
  assumes "b < 2 ^ 32"
  shows "(word_of_nat a + word_of_nat b :: md5_word_t) < word_of_nat b \<longleftrightarrow> 2 ^ 32 \<le> a mod 2 ^ 32 + b"
    and "(a + b) div 2 ^ 32 = a div 2 ^ 32 + (if 2 ^ 32 \<le> a mod 2 ^ 32 + b then 1 else 0)"
proof -
  define M :: nat where "M = 2 ^ 32"
  define r where "r = a mod M"
  have r: "r < M" "a = M * (a div M) + r" by (simp_all add: r_def M_def)
  have ub: "unat (word_of_nat b :: md5_word_t) = b" using assms by (simp add: unat_of_nat)
  have "unat (word_of_nat a + word_of_nat b :: md5_word_t) = (r + b) mod M"
    by (simp add: unat_word_ariths unat_of_nat r_def M_def mod_simps)
  moreover have "(r + b) mod M < b \<longleftrightarrow> M \<le> r + b"
  proof (cases "M \<le> r + b")
    case True
    moreover have "r + b - M < M" using r(1) assms unfolding M_def by linarith
    ultimately have "(r + b) mod M = r + b - M" by (simp add: le_mod_geq)
    then show ?thesis using True r(1) by linarith
  qed (simp add: not_le)
  ultimately show "(word_of_nat a + word_of_nat b :: md5_word_t) < word_of_nat b \<longleftrightarrow>
      2 ^ 32 \<le> a mod 2 ^ 32 + b"
    using ub by (simp add: word_less_nat_alt r_def M_def)
  have "(a + b) div M = a div M + (r + b) div M" by (subst r(2)) (simp add: M_def)
  moreover have "(r + b) div M = (if M \<le> r + b then 1 else 0)"
  proof (cases "M \<le> r + b")
    case True
    moreover have "r + b - M < M" using r(1) assms unfolding M_def by linarith
    ultimately show ?thesis by (simp add: le_div_geq)
  qed simp
  ultimately show "(a + b) div 2 ^ 32 = a div 2 ^ 32 + (if 2 ^ 32 \<le> a mod 2 ^ 32 + b then 1 else 0)"
    by (simp add: M_def r_def)
qed

lemma md5_count_eq:
  assumes "represents pms m" and "n < 2 ^ 28"
  shows "count0 (md5_count pms n) = word_of_nat (8 * (length m + n))"
    and "count1 (md5_count pms n) = word_of_nat (8 * (length m + n) div 2 ^ 32)"
    and "abcd (md5_count pms n) = abcd pms" and "buf (md5_count pms n) = buf pms"
proof -
  define a b where "a = 8 * length m" and "b = 8 * n"
  have b: "b < 2 ^ 32" "n div 2 ^ 29 = 0" using assms(2) by (simp_all add: b_def)
  have c: "count0 pms = word_of_nat a" "count1 pms = word_of_nat (a div 2 ^ 32)"
    using assms(1) by (simp_all only: represents_def a_def)
  have ab: "8 * (length m + n) = a + b" by (simp add: a_def b_def)
  show "count0 (md5_count pms n) = word_of_nat (8 * (length m + n))"
    unfolding ab by (simp add: md5_count_def Let_def c b_def)
  show "count1 (md5_count pms n) = word_of_nat (8 * (length m + n) div 2 ^ 32)"
    unfolding ab count_carry(2) [OF b(1)]
    using count_carry(1) [OF b(1), of a] by (simp only: md5_count_def Let_def b b_def [symmetric]) (simp add: c)
  show "abcd (md5_count pms n) = abcd pms" "buf (md5_count pms n) = buf pms"
    by (simp_all add: md5_count_def Let_def)
qed

section \<open>Appending\<close>

text \<open>The main invariant: \<open>md5_append\<close> extends the represented message by its argument.\<close>

lemma md5_append_represents:
  assumes rep: "represents pms m" and ok: "md5_ok_len d"
  shows "represents (md5_append pms d) (m @ d)"
proof (cases "d = []")
  case True
  then show ?thesis using rep by (simp add: md5_append_def Let_def)
next
  case False
  define c where "c = md5_count pms (length d)"
  have n: "length d < 2 ^ 28" using ok by (simp add: md5_ok_len_def)
  note count = md5_count_eq [OF rep n, folded c_def]
  have off: "offset pms = length m mod 64" by (rule offset_represents [OF rep])
  have buf: "length (buf c) = 64" "take (length m mod 64) (buf c) = leftover m"
    and hash: "abcd c = hash_blocks iv m"
    using rep count by (simp_all add: represents_def)
  have mod: "length (m @ d) mod 64 = (length m mod 64 + length d) mod 64" by (simp add: mod_simps)
  consider (aligned) "length m mod 64 = 0"
    | (short) "length m mod 64 \<noteq> 0" "length m mod 64 + length d < 64"
    | (fill) "length m mod 64 \<noteq> 0" "64 \<le> length m mod 64 + length d" by linarith
  then show ?thesis
  proof cases
    case aligned
    then have lo: "leftover m = []" by (simp flip: length_0_conv)
    have "md5_append pms d = md5_tail c d"
      using False aligned by (simp add: md5_append_def Let_def off c_def)
    then show ?thesis
      using md5_tail_eq [OF buf(1), of d] count hash aligned mod lo
      by (simp add: represents_def hash_blocks_append [of iv m d] leftover_append [of m d])
  next
    case short
    have "md5_append pms d = c\<lparr>buf := write_at (length m mod 64) d (buf c)\<rparr>"
      using False short by (simp add: md5_append_def Let_def off c_def)
    then show ?thesis
      using count hash short mod buf take_write_at [of "length m mod 64" d "buf c"]
        length_write_at [of "length m mod 64" d "buf c"]
      by (simp add: represents_def hash_blocks_append [of iv m d] leftover_append [of m d]
          hash_blocks_short leftover_short)
  next
    case fill
    define k where "k = 64 - length m mod 64"
    define w where "w = write_at (length m mod 64) (take k d) (buf c)"
    have k: "length m mod 64 + k = 64" "k \<le> length d" using fill by (simp_all add: k_def)
    have w: "w = leftover m @ take k d"
      using take_write_at [of "length m mod 64" "take k d" "buf c"] k buf
        length_write_at [of "length m mod 64" "take k d" "buf c"]
      by (simp add: w_def min_absorb2)
    have "md5_append pms d = md5_tail (md5_process (c\<lparr>buf := w\<rparr>) w) (drop k d)"
      using False fill k by (auto simp: md5_append_def Let_def off c_def w_def k_def)
    moreover have "hash_blocks iv (m @ d) = hash_blocks (md5_compress (hash_blocks iv m) w) (drop k d)"
      using k w
      by (simp add: hash_blocks_append [of iv m d] hash_blocks.simps [of "hash_blocks iv m"]
          k_def [symmetric])
    moreover have "leftover (m @ d) = leftover (drop k d)"
      using k leftover_step [of "leftover m @ d"]
      by (simp add: leftover_append [of m d] k_def [symmetric])
    moreover have "length (m @ d) mod 64 = length (drop k d) mod 64"
      using k by (metis calculation(3) length_leftover)
    moreover have "length w = 64" using w k by simp
    ultimately show ?thesis
      using md5_tail_eq [of "md5_process (c\<lparr>buf := w\<rparr>) w" "drop k d"] count hash
      by (simp add: represents_def md5_process_def)
  qed
qed


lemma represents_init: "length junk = 64 \<Longrightarrow> represents (md5_init junk) []"
  by (simp add: represents_def md5_init_def iv_def hash_blocks_short leftover_short)

lemma fold_append_represents:
  "list_all md5_ok_len ds \<Longrightarrow> represents pms m \<Longrightarrow>
     represents (fold (\<lambda>d s. md5_append s d) ds pms) (m @ concat ds)"
proof (induction ds arbitrary: pms m)
  case (Cons d ds)
  then show ?case using md5_append_represents [of pms m d] by fastforce
qed simp

section \<open>Finishing\<close>

lemma byte_of_word:
  fixes n :: nat
  assumes "8 * i + 8 \<le> 32"
  shows "ucast (drop_bit (8 * i) (word_of_nat n :: md5_word_t)) = (word_of_nat (n div 2 ^ (8 * i)) :: byte)"
  unfolding drop_bit_eq_div [symmetric]
  using assms by (intro bit_word_eqI) (auto simp: bit_simps)

lemma count_bytes_le64:
  assumes "represents pms m"
  shows "count_bytes pms = le64 (8 * length m)"
proof -
  define a where "a = 8 * length m"
  have c: "count0 pms = word_of_nat a" "count1 pms = word_of_nat (a div 2 ^ 32)"
    using assms by (simp_all only: represents_def a_def)
  have "ucast (drop_bit (8 * (i mod 4)) (if i div 4 = 0 then count0 pms else count1 pms)) =
      (word_of_nat (a div 2 ^ (8 * i)) :: byte)" if "i < 8" for i
  proof (cases "i < 4")
    case True
    then show ?thesis using byte_of_word [of i a] by (simp add: c)
  next
    case False
    define j where "j = i - 4"
    then have "i = 4 + j" "j < 4" using that False by simp_all
    then show ?thesis using byte_of_word [of j "a div 2 ^ 32"]
      by (simp add: c div_mult2_eq [symmetric] power_add)
  qed
  then show ?thesis unfolding count_bytes_def le64_def a_def [symmetric] by simp
qed

lemma pad_len_padding:
  assumes "represents pms m"
  shows "take (pad_len pms) md5_pad = padding m"
proof -
  define k where "k = nat ((55 - int (length m)) mod 64)"
  have k: "k < 64" by (simp add: k_def)
  define a where "a = 8 * length m"
  have c: "count0 pms = word_of_nat a" using assms by (simp only: represents_def a_def)
  have a: "unat (drop_bit 3 (count0 pms)) = length m mod 2 ^ 29"
  proof -
    have "unat (drop_bit 3 (count0 pms)) = a mod 2 ^ 32 div 8"
      unfolding c by (simp only: unat_drop_bit_eq) (simp add: drop_bit_eq_div unat_of_nat)
    also have "a mod 2 ^ 32 = 8 * (length m mod 2 ^ 29)" by (simp add: a_def mult_mod_right)
    finally show ?thesis by simp
  qed
  define w where "w = drop_bit 3 (count0 pms)"
  have w: "uint w = int (length m mod 2 ^ 29)" using a by (simp add: w_def uint_nat)
  have "uint ((55 - w) AND 63) = take_bit 6 (uint (55 - w))"
    by (simp only: and_63 unsigned_take_bit_eq)
  also have "\<dots> = (55 - uint w) mod 2 ^ 32 mod 64"
    by (simp add: take_bit_eq_mod uint_word_ariths)
  also have "\<dots> = (55 - int (length m) mod 2 ^ 29) mod 64"
    by (simp add: mod_mod_cancel w zmod_int)
  also have "\<dots> = (55 - int (length m) mod 2 ^ 29 mod 64) mod 64" by (simp only: mod_diff_right_eq)
  also have "\<dots> = (55 - int (length m)) mod 64"
    by (simp add: mod_mod_cancel mod_diff_right_eq)
  finally have "unat ((55 - w) AND 63) = k" by (simp add: unat_eq_nat_uint k_def)
  then have "pad_len pms = k + 1" by (simp add: pad_len_def w_def)
  then show ?thesis using k by (simp add: md5_pad_def padding_def k_def [symmetric] min_def)
qed


lemma md5_finish_represents:
  assumes "represents pms m"
  shows "md5_finish pms = rfc1321 m"
proof -
  have ok: "md5_ok_len (padding m)" "md5_ok_len (le64 (8 * length m))"
    by (simp_all add: md5_ok_len_def padding_def le64_def nat_less_iff)
  have "represents (md5_append (md5_append pms (padding m)) (le64 (8 * length m)))
      ((m @ padding m) @ le64 (8 * length m))"
    by (intro md5_append_represents assms ok)
  then show ?thesis
    by (simp add: md5_finish_def Let_def count_bytes_le64 [OF assms] pad_len_padding [OF assms]
        rfc1321_def represents_def)
qed

section \<open>Properties\<close>

text \<open>
  C4. The streaming implementation is RFC 1321: for any sequence of \<open>md5_append\<close> calls after
  \<open>md5_init\<close>, whatever the block boundaries they cut the message at and whatever the buffer held,
  \<open>md5_finish\<close> returns the digest of the concatenated message.
\<close>

theorem md5_streaming_is_rfc1321:
  assumes "length junk = 64" and "list_all md5_ok_len ds"
  shows "md5_finish (fold (\<lambda>d s. md5_append s d) ds (md5_init junk)) = rfc1321 (concat ds)"
  using md5_finish_represents
    [OF fold_append_represents [OF assms(2) represents_init [OF assms(1)]]] by simp

theorem md5_streaming_is_rfc1321_witness:
  "md5_finish (fold (\<lambda>d s. md5_append s d) [[97], [98, 99]] (md5_init (replicate 64 0))) =
     rfc1321 [97, 98, 99]"
  using md5_streaming_is_rfc1321 [of "replicate 64 0" "[[97], [98, 99]]"]
  by (simp add: md5_ok_len_def)

section \<open>The digest functions of codec.c\<close>

definition prv_compute_md5 :: "byte list \<Rightarrow> byte list \<Rightarrow> byte list" where
  "prv_compute_md5 junk data = md5_finish (md5_append (md5_init junk) data)"

definition encode_b64_md5 ::
  "byte list \<Rightarrow> byte list \<Rightarrow> 'z heap_scheme \<Rightarrow> string option \<times> 'z heap_scheme" where
  "encode_b64_md5 junk data = encode_b64 (prv_compute_md5 junk data)"

definition encode_b64_md5_str ::
  "byte list \<Rightarrow> string \<Rightarrow> 'z heap_scheme \<Rightarrow> string option \<times> 'z heap_scheme" where
  "encode_b64_md5_str junk str = encode_b64_md5 junk (bytes_of str)"

text \<open>\<open>encode_md5\<close> returns \<^verbatim>\<open>strdup\<close> of the digest: a copy up to its first zero byte.\<close>

definition encode_md5 ::
  "byte list \<Rightarrow> byte list \<Rightarrow> 'z heap_scheme \<Rightarrow> byte list option \<times> 'z heap_scheme" where
  "encode_md5 junk data = malloc (takeWhile (\<lambda>b. b \<noteq> 0) (prv_compute_md5 junk data))"

lemma prv_compute_md5_eq:
  "length junk = 64 \<Longrightarrow> md5_ok_len data \<Longrightarrow> prv_compute_md5 junk data = rfc1321 data"
  using md5_finish_represents [OF md5_append_represents [OF represents_init, of junk data]]
  by (simp add: prv_compute_md5_def)

lemma length_rfc1321 [simp]: "length (rfc1321 m) = 16"
  by (simp add: rfc1321_def digest_bytes_def)

end
