(* ===== verification/Str_Utils.thy ===== *)
theory Str_Utils
  imports Dm_Prelude
begin

text \<open>
  The string and string-array helpers of \<^verbatim>\<open>dmcore/src/utils.c\<close>.  A \<^verbatim>\<open>char **\<close> terminated by a
  null pointer is a list of strings, and a null \<^verbatim>\<open>char **\<close> is \<open>None\<close>.
\<close>

section \<open>Concatenation of strings\<close>

definition str_cat_2 :: "string \<Rightarrow> string \<Rightarrow> 'z heap_scheme \<Rightarrow> string option \<times> 'z heap_scheme" where
  "str_cat_2 first second = malloc (first @ second)"

definition str_cat_3 ::
  "string \<Rightarrow> string \<Rightarrow> string \<Rightarrow> 'z heap_scheme \<Rightarrow> string option \<times> 'z heap_scheme" where
  "str_cat_3 first second third = malloc (first @ second @ third)"

definition str_cat_5 ::
  "string \<Rightarrow> string \<Rightarrow> string \<Rightarrow> string \<Rightarrow> string \<Rightarrow> 'z heap_scheme \<Rightarrow> string option \<times> 'z heap_scheme"
where
  "str_cat_5 a b c d e h =
     (case str_cat_3 a b c h of
        (None, h) \<Rightarrow> (None, h)
      | (Some tmp, h) \<Rightarrow> str_cat_3 tmp d e h)"

lemma str_cat_plenty [simp]:
  "plenty h \<Longrightarrow> str_cat_2 a b h = (Some (a @ b), h)"
  "plenty h \<Longrightarrow> str_cat_3 a b c h = (Some (a @ b @ c), h)"
  "plenty h \<Longrightarrow> str_cat_5 a b c d e h = (Some (a @ b @ c @ d @ e), h)"
  by (simp_all add: str_cat_2_def str_cat_3_def str_cat_5_def)

lemma str_cat_SomeD:
  "str_cat_2 a b h = (Some r, h') \<Longrightarrow> r = a @ b"
  "str_cat_3 a b c h = (Some r, h') \<Longrightarrow> r = a @ b @ c"
  "str_cat_5 a b c d e h = (Some r, h') \<Longrightarrow> r = a @ b @ c @ d @ e"
  by (auto simp: str_cat_2_def str_cat_3_def str_cat_5_def dest!: malloc_SomeD
      split: prod.splits option.splits)

section \<open>Arrays of strings\<close>

text \<open>
  The second copy of \<open>strArray_concat\<close> goes to \<^verbatim>\<open>result + firstCount * sizeof(char*)\<close>, an index
  that the pointer arithmetic scales a second time.  With \<open>ptr\<close> bytes in a pointer, the copy
  covers the slots from \<open>ptr * firstCount\<close> on; a copy of nothing writes nothing.
\<close>

definition sizeof_ptr :: nat where
  "sizeof_ptr = 8"

definition strArray_concat ::
  "string list option \<Rightarrow> string list option \<Rightarrow> ('z heap_scheme, string list option) cmd" where
  "strArray_concat first second h =
     (if first = None \<and> second = None then (Val None, h)
      else let f = (case first of None \<Rightarrow> [] | Some xs \<Rightarrow> xs);
               s = (case second of None \<Rightarrow> [] | Some xs \<Rightarrow> xs);
               slots = length f + length s + 1
        in case malloc (f @ s) h of
             (None, h) \<Rightarrow> (Val None, h)
           | (Some r, h) \<Rightarrow>
               if s \<noteq> [] \<and> length f * sizeof_ptr + length s > slots then (Ub, h)
               else (Val (Some r), h))"

definition strArray_add ::
  "string list option \<Rightarrow> string \<Rightarrow> ('z heap_scheme, string list option) cmd" where
  "strArray_add array newStr = strArray_concat array (Some [newStr])"

lemma strArray_concat_first_empty:
  "plenty h \<Longrightarrow> first = None \<or> first = Some [] \<Longrightarrow>
     strArray_concat first (Some s) h = (Val (Some s), h)"
  by (auto simp: strArray_concat_def sizeof_ptr_def)

lemma strArray_concat_overflow:
  "plenty h \<Longrightarrow> f \<noteq> [] \<Longrightarrow> s \<noteq> [] \<Longrightarrow> strArray_concat (Some f) (Some s) h = (Ub, h)"
  by (cases f; cases s) (simp_all add: strArray_concat_def sizeof_ptr_def)

lemma strArray_concat_val:
  "strArray_concat first second h = (Val (Some r), h') \<Longrightarrow>
     r = (case first of None \<Rightarrow> [] | Some xs \<Rightarrow> xs) @ (case second of None \<Rightarrow> [] | Some xs \<Rightarrow> xs)"
  by (auto simp: strArray_concat_def Let_def dest!: malloc_SomeD split: if_splits prod.splits option.splits)

section \<open>Child lists\<close>

text \<open>
  \<open>child_names\<close> are the names the loops of \<open>strArray_buildChildList\<close> visit: they stop at the end
  of the list and at a separator the list ends with.
\<close>

function child_names :: "string \<Rightarrow> string list" where
  "child_names childName =
     (if childName = [] then []
      else case strchr childName CHR ''/'' of
        None \<Rightarrow> [childName]
      | Some slashStr \<Rightarrow> takeWhile (\<lambda>c. c \<noteq> CHR ''/'') childName # child_names (tl slashStr))"
  by pat_completeness auto
termination by (relation "measure length") (auto dest: strchr_shorter)

declare child_names.simps [simp del]

text \<open>The loop that builds one URI per name; a failed allocation frees the array.\<close>

fun build_uris ::
  "string \<Rightarrow> string list \<Rightarrow> 'z heap_scheme \<Rightarrow> string list option \<times> 'z heap_scheme" where
  "build_uris base [] h = (Some [], h)"
| "build_uris base (n # ns) h =
     (case str_cat_3 base ''/'' n h of
        (None, h) \<Rightarrow> (None, h)
      | (Some u, h) \<Rightarrow>
          (case build_uris base ns h of
             (None, h) \<Rightarrow> (None, h)
           | (Some us, h) \<Rightarrow> (Some (u # us), h)))"

text \<open>
  The array of results is cleared before the test whether it was allocated, so a failed
  allocation there is a write through a null pointer.
\<close>

definition strArray_buildChildList ::
  "string \<Rightarrow> string \<Rightarrow> nat \<Rightarrow> ('z heap_scheme, string list option) cmd" where
  "strArray_buildChildList iBaseUri iChildList iChildListLength h =
     (case malloc (takeWhile (\<lambda>c. c \<noteq> CHR 0x00) (take iChildListLength iChildList)) h of
        (None, h) \<Rightarrow> (Val None, h)
      | (Some listCopy, h) \<Rightarrow>
          let names = child_names listCopy in
          if names = [] then (Val None, h)
          else case malloc () h of
            (None, h) \<Rightarrow> (Ub, h)
          | (Some _, h) \<Rightarrow> (case build_uris iBaseUri names h of (r, h) \<Rightarrow> (Val r, h)))"

lemma drawn_build_uris [keeps_rules]: "keeps (drawn e) (build_uris b ns)"
proof (rule keepsI)
  fix s assume "drawn e s"
  then show "drawn e (snd (build_uris b ns s))"
    by (induction ns arbitrary: s)
      (auto simp: str_cat_3_def split: option.split prod.split intro: drawn_mallocD; metis drawn_mallocD snd_conv)+
qed

lemma drawn_buildChildList [keeps_rules]: "keeps (drawn e) (strArray_buildChildList b c k)"
  unfolding strArray_buildChildList_def [abs_def] Let_def by (intro keeps_rules)

lemma build_uris_plenty: "plenty h \<Longrightarrow> build_uris b ns h = (Some (map (\<lambda>n. b @ ''/'' @ n) ns), h)"
  by (induction ns) auto

lemma child_names_join:
  assumes "\<And>n. n \<in> set ns \<Longrightarrow> n \<noteq> [] \<and> CHR ''/'' \<notin> set n"
  shows "child_names (join_on CHR ''/'' ns) = ns"
  using assms
proof (induction "CHR ''/''" ns rule: join_on.induct)
  case 1
  then show ?case by (simp add: child_names.simps)
next
  case (2 s)
  then show ?case by (simp add: child_names.simps [of s])
next
  case (3 s t ts)
  let ?r = "join_on CHR ''/'' (t # ts)"
  have s: "CHR ''/'' \<notin> set s" "s \<noteq> []" using 3(2) by auto
  have "strchr (s @ CHR ''/'' # ?r) CHR ''/'' = Some (CHR ''/'' # ?r)"
    by (rule strchr_append [OF s(1)])
  moreover have "takeWhile (\<lambda>c. c \<noteq> CHR ''/'') (s @ CHR ''/'' # ?r) = s"
    using s(1) by (auto simp: takeWhile_append2 takeWhile_eq_all_conv [THEN iffD2]
        intro: takeWhile_append2 [THEN trans])
  ultimately show ?case
    using 3 by (simp add: child_names.simps [of "s @ CHR ''/'' # ?r"])
qed

text \<open>
  Child lists round trip: for any list of non-empty names without separators and
  terminators, the value of an interior node that lists them, joined with slashes, is split by
  \<open>strArray_buildChildList\<close> into exactly the URIs of those children, in order.
\<close>

theorem build_child_list_round_trip:
  assumes "plenty h" and "ns \<noteq> []"
    and "\<forall>n \<in> set ns. n \<noteq> [] \<and> CHR ''/'' \<notin> set n \<and> CHR 0x00 \<notin> set n"
  shows "strArray_buildChildList base (join_on CHR ''/'' ns) (length (join_on CHR ''/'' ns)) h =
    (Val (Some (map (\<lambda>n. base @ ''/'' @ n) ns)), h)"
proof -
  have "c \<in> set (join_on CHR ''/'' ns) \<Longrightarrow> c \<noteq> CHR 0x00" for c
    using assms(3) by (induction "CHR ''/''" ns rule: join_on.induct) auto
  then have T: "takeWhile (\<lambda>c. c \<noteq> CHR 0x00) (join_on CHR ''/'' ns) = join_on CHR ''/'' ns"
    by (subst takeWhile_eq_all_conv) blast
  have J: "child_names (join_on CHR ''/'' ns) = ns"
    using assms(3) child_names_join [of ns] by blast
  show ?thesis
    unfolding strArray_buildChildList_def Let_def take_all [OF order_refl] T J
    using assms(1,2) J by (simp add: build_uris_plenty)
qed

theorem build_child_list_round_trip_witness:
  "strArray_buildChildList ''./DevInfo'' ''Mod/Man'' 7 \<lparr>mem = []\<rparr> =
     (Val (Some [''./DevInfo/Mod'', ''./DevInfo/Man'']), \<lparr>mem = []\<rparr>)"
  using build_child_list_round_trip [of "\<lparr>mem = []\<rparr>" "[''Mod'', ''Man'']" "''./DevInfo''"]
  by (simp add: eval_nat_numeral)

text \<open>
  \<open>strArray_concat\<close> overflows the heap: appending a non-empty array to a non-empty one
  writes outside the allocated array; it is safe, and correct, only when one of them is empty.
\<close>

theorem strArray_concat_spec:
  assumes "plenty h"
  shows "strArray_concat (Some f) (Some s) h =
    (if f = [] \<or> s = [] then Val (Some (f @ s)) else Ub, h)"
  using assms strArray_concat_overflow [of h f s]
  by (cases "s = []"; cases "f = []") (simp_all add: strArray_concat_def sizeof_ptr_def)

theorem strArray_concat_spec_witness:
  "strArray_concat (Some [''./DMAcc/1'']) (Some [''./DMAcc/2'']) \<lparr>mem = []\<rparr> = (Ub, \<lparr>mem = []\<rparr>)"
  using strArray_concat_spec [of "\<lparr>mem = []\<rparr>" "[''./DMAcc/1'']" "[''./DMAcc/2'']"] by simp

end
