(* ===== verification/Mo_Types.thy ===== *)
theory Mo_Types
  imports Str_Utils
begin

text \<open>
  The data of \<^verbatim>\<open>dmcore/include/omadmtree_mo.h\<close> and \<^verbatim>\<open>dmcore/src/momgr.h\<close>: nodes, the interface
  a management object (MO) implements, the directory of registered MOs, and the manager.

  A management object is code outside the library, so its callbacks are fields of the interface
  record: functions over a world \<open>'w\<close> that holds whatever the objects keep.  A missing callback
  is \<open>None\<close>.  The opaque \<^verbatim>\<open>void *\<close> of an object is a number.
\<close>

datatype omadmtree_node_kind_t = OMADM_NODE_NOT_EXIST | OMADM_NODE_IS_INTERIOR | OMADM_NODE_IS_LEAF

record dmtree_node_t =
  node_uri :: "string option"
  node_format :: "string option"
  node_type :: "string option"
  data_size :: nat
  data_buffer :: "string option"

text \<open>The node after \<^verbatim>\<open>memset\<close> to zero.\<close>

definition node_zero :: dmtree_node_t where
  "node_zero = \<lparr>node_uri = None, node_format = None, node_type = None, data_size = 0, data_buffer = None\<rparr>"

type_synonym mo_data = nat

record 'w omadm_mo_interface_t =
  base_uri :: "string option"
  initFunc :: "('w \<Rightarrow> (int \<times> mo_data) \<times> 'w) option"
  closeFunc :: "(mo_data \<Rightarrow> 'w \<Rightarrow> 'w) option"
  isNodeFunc :: "(string \<Rightarrow> mo_data \<Rightarrow> 'w \<Rightarrow> (int \<times> omadmtree_node_kind_t) \<times> 'w) option"
  findURNFunc :: "(string \<Rightarrow> mo_data \<Rightarrow> 'w \<Rightarrow> (int \<times> string list option) \<times> 'w) option"
  getFunc :: "(dmtree_node_t \<Rightarrow> mo_data \<Rightarrow> 'w \<Rightarrow> (int \<times> dmtree_node_t) \<times> 'w) option"
  setFunc :: "(dmtree_node_t \<Rightarrow> mo_data \<Rightarrow> 'w \<Rightarrow> int \<times> 'w) option"
  getACLFunc :: "(string \<Rightarrow> mo_data \<Rightarrow> 'w \<Rightarrow> (int \<times> string option) \<times> 'w) option"
  setACLFunc :: "(string \<Rightarrow> string \<Rightarrow> mo_data \<Rightarrow> 'w \<Rightarrow> int \<times> 'w) option"
  renameFunc :: "(string \<Rightarrow> string \<Rightarrow> mo_data \<Rightarrow> 'w \<Rightarrow> int \<times> 'w) option"
  deleteFunc :: "(string \<Rightarrow> mo_data \<Rightarrow> 'w \<Rightarrow> int \<times> 'w) option"
  execFunc :: "(string \<Rightarrow> string option \<Rightarrow> string option \<Rightarrow> mo_data \<Rightarrow> 'w \<Rightarrow> int \<times> 'w) option"

text \<open>The interface after \<^verbatim>\<open>memset\<close> to zero.\<close>

definition interface_zero :: "'w omadm_mo_interface_t" where
  "interface_zero = \<lparr>base_uri = None, initFunc = None, closeFunc = None, isNodeFunc = None,
     findURNFunc = None, getFunc = None, setFunc = None, getACLFunc = None, setACLFunc = None,
     renameFunc = None, deleteFunc = None, execFunc = None\<rparr>"

record 'w dmtree_plugin_t =
  interface :: "'w omadm_mo_interface_t"
  plugin_data :: mo_data

text \<open>
  A directory with its children in list order.  The parent pointer of the source is not a field:
  a pointer to a directory is the chain of directories from it up to the root, which is what
  following the parent pointers yields.
\<close>

datatype 'w mo_dir_t =
  Mo_Dir (dir_name: string) (plugin: "'w dmtree_plugin_t option") (children: "'w mo_dir_t list")

record 'w mo_mgr_t =
  root :: "'w mo_dir_t"
  max_depth :: "16 word"
  max_total_len :: "16 word"
  max_segment_len :: "16 word"
  last_uri :: "string option"
  last_plugin :: "'w dmtree_plugin_t option"

text \<open>The state the manager's functions run in: the allocator, the world and the manager.\<close>

record 'w mo_env = heap +
  world :: 'w
  MOs :: "'w mo_mgr_t"

section \<open>Calling an object\<close>

definition on_world :: "('w \<Rightarrow> 'a \<times> 'w) \<Rightarrow> ('w, 'z) mo_env_scheme \<Rightarrow> 'a \<times> ('w, 'z) mo_env_scheme" where
  "on_world f s = (case f (world s) of (r, w) \<Rightarrow> (r, s\<lparr>world := w\<rparr>))"

text \<open>A callback that returns only a SyncML code.\<close>

definition code_call :: "('w \<Rightarrow> int \<times> 'w) \<Rightarrow> (('w, 'z) mo_env_scheme, unit) cmd" where
  "code_call f s =
     (case on_world f s of
        (c, s) \<Rightarrow> (if c = OMADM_SYNCML_ERROR_NONE then Val () else Err c, s))"

lemma on_world_simps [simp]:
  "mem (snd (on_world f s)) = mem s" "MOs (snd (on_world f s)) = MOs s"
  "mo_env.more (snd (on_world f s)) = mo_env.more s" "world (snd (on_world f s)) = snd (f (world s))"
  by (simp_all add: on_world_def split: prod.splits)

lemma on_worldD:
  "on_world f s = (r, t) \<Longrightarrow> mem t = mem s \<and> MOs t = MOs s \<and> mo_env.more t = mo_env.more s"
  by (auto simp: on_world_def split: prod.splits)

section \<open>Utilities on nodes\<close>

text \<open>
  \<open>dmtree_node_as_string\<close> copies \<open>data_size\<close> bytes of the buffer; a buffer is a terminated
  string, so a size beyond the terminator is a read outside the object.
\<close>

definition dmtree_node_as_string :: "dmtree_node_t \<Rightarrow> ('z heap_scheme, string option) cmd" where
  "dmtree_node_as_string node h =
     (case malloc () h of
        (None, h) \<Rightarrow> (Val None, h)
      | (Some _, h) \<Rightarrow>
          if data_size node = 0 then (Val (Some []), h)
          else case data_buffer node of
            None \<Rightarrow> (Ub, h)
          | Some b \<Rightarrow>
              if data_size node > length b + 1 then (Ub, h)
              else (Val (Some (takeWhile (\<lambda>c. c \<noteq> CHR 0x00) (take (data_size node) b))), h))"

definition dmtree_node_clean :: "dmtree_node_t \<Rightarrow> dmtree_node_t" where
  "dmtree_node_clean node = node_zero"

text \<open>A strdup of an optional field; \<open>None\<close> of the outer option is the jump to the error label.\<close>

definition dup_field :: "string option \<Rightarrow> 'z heap_scheme \<Rightarrow> string option option \<times> 'z heap_scheme" where
  "dup_field f h =
     (case f of
        None \<Rightarrow> (Some None, h)
      | Some x \<Rightarrow> (case strdup x h of (None, h) \<Rightarrow> (None, h) | (Some y, h) \<Rightarrow> (Some (Some y), h)))"

definition dmtree_node_dup ::
  "dmtree_node_t option \<Rightarrow> 'z heap_scheme \<Rightarrow> dmtree_node_t option \<times> 'z heap_scheme" where
  "dmtree_node_dup src h =
     (case src of
        None \<Rightarrow> (None, h)
      | Some src \<Rightarrow>
          (case malloc node_zero h of
             (None, h) \<Rightarrow> (None, h)
           | (Some dest, h) \<Rightarrow>
          (case dup_field (node_uri src) h of
             (None, h) \<Rightarrow> (None, h)
           | (Some u, h) \<Rightarrow>
          (case dup_field (node_format src) h of
             (None, h) \<Rightarrow> (None, h)
           | (Some f, h) \<Rightarrow>
          (case dup_field (node_type src) h of
             (None, h) \<Rightarrow> (None, h)
           | (Some t, h) \<Rightarrow>
               let dest = dest\<lparr>node_uri := u, node_format := f, node_type := t\<rparr> in
               (case data_buffer src of
                  None \<Rightarrow> (Some dest, h)
                | Some b \<Rightarrow>
                    if data_size src = 0 then (Some dest, h)
                    else (case malloc (take (data_size src) b) h of
                            (None, h) \<Rightarrow> (None, h)
                          | (Some b', h) \<Rightarrow>
                              (Some (dest\<lparr>data_size := data_size src, data_buffer := Some b'\<rparr>), h))))))))"

definition fill_none :: "'a option \<Rightarrow> 'a option \<Rightarrow> 'a option" where
  "fill_none d s = (case d of None \<Rightarrow> s | Some _ \<Rightarrow> d)"

definition dmtree_node_copy ::
  "dmtree_node_t option \<Rightarrow> dmtree_node_t option \<Rightarrow> 'z heap_scheme \<Rightarrow>
     dmtree_node_t option \<times> 'z heap_scheme" where
  "dmtree_node_copy dest src h =
     (case dest of
        None \<Rightarrow> (None, h)
      | Some d \<Rightarrow>
          (case src of
             None \<Rightarrow> (Some d, h)
           | Some s \<Rightarrow>
               (case dmtree_node_dup (Some s) h of
                  (None, h) \<Rightarrow> (None, h)
                | (Some tmp, h) \<Rightarrow>
                    (Some \<lparr>node_uri = fill_none (node_uri d) (node_uri tmp),
                           node_format = fill_none (node_format d) (node_format tmp),
                           node_type = fill_none (node_type d) (node_type tmp),
                           data_size = (if data_buffer d = None then data_size tmp else data_size d),
                           data_buffer = fill_none (data_buffer d) (data_buffer tmp)\<rparr>, h))))"

text \<open>
  \<open>dmtree_node_copy\<close> keeps every field the destination already has and fills the missing
  ones from the source; in particular the buffer and its size always come from the same node, as
  the interface's documentation promises, and a duplicate equals its source up to an unused buffer.
\<close>

theorem node_copy_fills:
  assumes "plenty h" and "\<And>b. data_buffer s = Some b \<Longrightarrow> 0 < data_size s \<and> data_size s = length b"
    and "data_buffer s = None \<Longrightarrow> data_size s = 0"
  shows "dmtree_node_copy (Some d) (Some s) h =
      (Some \<lparr>node_uri = fill_none (node_uri d) (node_uri s),
             node_format = fill_none (node_format d) (node_format s),
             node_type = fill_none (node_type d) (node_type s),
             data_size = (if data_buffer d = None then data_size s else data_size d),
             data_buffer = fill_none (data_buffer d) (data_buffer s)\<rparr>, h) \<and>
    dmtree_node_dup (Some s) h = (Some s, h)"
proof
  have f: "dup_field x h = (Some x, h)" for x
    using assms(1) by (simp add: dup_field_def split: option.splits)
  show dup: "dmtree_node_dup (Some s) h = (Some s, h)"
    using assms
    by (cases s; cases "data_buffer s") (simp_all add: dmtree_node_dup_def f node_zero_def)
  from dup show "dmtree_node_copy (Some d) (Some s) h =
      (Some \<lparr>node_uri = fill_none (node_uri d) (node_uri s),
             node_format = fill_none (node_format d) (node_format s),
             node_type = fill_none (node_type d) (node_type s),
             data_size = (if data_buffer d = None then data_size s else data_size d),
             data_buffer = fill_none (data_buffer d) (data_buffer s)\<rparr>, h)"
    by (simp add: dmtree_node_copy_def)
qed

theorem node_copy_fills_witness:
  "dmtree_node_copy (Some (node_zero\<lparr>node_uri := Some ''./A''\<rparr>))
     (Some \<lparr>node_uri = Some ''./B'', node_format = Some ''chr'', node_type = None, data_size = 2,
            data_buffer = Some ''ok''\<rparr>) \<lparr>mem = []\<rparr> =
   (Some \<lparr>node_uri = Some ''./A'', node_format = Some ''chr'', node_type = None, data_size = 2,
          data_buffer = Some ''ok''\<rparr>, \<lparr>mem = []\<rparr>)"
  using node_copy_fills [of "\<lparr>mem = []\<rparr>" "\<lparr>node_uri = Some ''./B'', node_format = Some ''chr'',
      node_type = None, data_size = 2, data_buffer = Some ''ok''\<rparr>" "node_zero\<lparr>node_uri := Some ''./A''\<rparr>"]
  by (simp add: node_zero_def fill_none_def)

end
