(* ===== verification/Mo_Dirs.thy ===== *)
theory Mo_Dirs
  imports Mo_Types Uri_Check
begin

text \<open>
  The directory of registered management objects (the \<^verbatim>\<open>prv_*MoDir\<close> functions of
  \<^verbatim>\<open>dmcore/src/momgr.c\<close>) and the lookup of the object responsible for a URI.

  A pointer into the directory is a chain: the directory first, then its ancestors up to the
  root.  A path is the list of names below the root.
\<close>

section \<open>Searching the tree\<close>

fun find_child :: "string \<Rightarrow> 'w mo_dir_t list \<Rightarrow> 'w mo_dir_t option" where
  "find_child name [] = None"
| "find_child name (child # next) = (if dir_name child = name then Some child else find_child name next)"

function prv_findMoDir ::
  "'w mo_dir_t list \<Rightarrow> 'w mo_dir_t \<Rightarrow> string \<Rightarrow> bool \<Rightarrow> 'z heap_scheme \<Rightarrow>
     'w mo_dir_t list option \<times> 'z heap_scheme" where
  "prv_findMoDir up origin iURI exact h =
     (case strchr iURI CHR ''/'' of
        None \<Rightarrow>
          (case find_child iURI (children origin) of
             Some child \<Rightarrow> (Some (child # origin # up), h)
           | None \<Rightarrow> (if exact then None else Some (origin # up), h))
      | Some slash \<Rightarrow>
          (case malloc (before iURI slash) h of
             (None, h) \<Rightarrow> (None, h)
           | (Some name, h) \<Rightarrow>
               (case find_child name (children origin) of
                  Some child \<Rightarrow> prv_findMoDir (origin # up) child (tl slash) exact h
                | None \<Rightarrow> (if exact then None else Some (origin # up), h))))"
  by pat_completeness auto
termination by (relation "measure (\<lambda>(up, d, u, e, h). length u)") (auto dest: strchr_shorter)

declare prv_findMoDir.simps [simp del]

text \<open>The walk along the parent pointers to the first directory with an object.\<close>

fun up_to_plugin :: "'w mo_dir_t list \<Rightarrow> 'w dmtree_plugin_t option" where
  "up_to_plugin [] = None"
| "up_to_plugin (dirP # up) = (case plugin dirP of Some p \<Rightarrow> Some p | None \<Rightarrow> up_to_plugin up)"

definition strip_dot :: "string \<Rightarrow> string" where
  "strip_dot uri = (if prefix ''./'' uri then drop 2 uri else uri)"

text \<open>
  A failing \<^verbatim>\<open>strdup\<close> of the cached URI leaves \<open>last_uri\<close> null and \<open>last_plugin\<close> set.
\<close>

definition prv_findPlugin ::
  "string \<Rightarrow> ('w, 'z) mo_env_scheme \<Rightarrow> 'w dmtree_plugin_t option \<times> ('w, 'z) mo_env_scheme" where
  "prv_findPlugin iURI s =
     (if last_uri (MOs s) = Some iURI then (last_plugin (MOs s), s)
      else
        let s = s\<lparr>MOs := (MOs s)\<lparr>last_uri := None\<rparr>\<rparr> in
        if iURI = ''.'' then (plugin (root (MOs s)), s)
        else case strdup iURI s of
          (None, s) \<Rightarrow> (None, s)
        | (Some uriCopy, s) \<Rightarrow>
            (case prv_findMoDir [] (root (MOs s)) (strip_dot uriCopy) False s of
               (dirP, s) \<Rightarrow>
                 (case (case dirP of None \<Rightarrow> None | Some chain \<Rightarrow> up_to_plugin chain) of
                    None \<Rightarrow> (None, s)
                  | Some p \<Rightarrow>
                      (case strdup iURI s of
                         (u, s) \<Rightarrow>
                           (Some p, s\<lparr>MOs := (MOs s)\<lparr>last_uri := u, last_plugin := Some p\<rparr>\<rparr>)))))"

section \<open>Building and freeing the tree\<close>

fun replace_child :: "string \<Rightarrow> 'w mo_dir_t \<Rightarrow> 'w mo_dir_t list \<Rightarrow> 'w mo_dir_t list" where
  "replace_child name new [] = []"
| "replace_child name new (child # next) =
     (if dir_name child = name then new # next else child # replace_child name new next)"

text \<open>
  The loop of \<open>prv_createMoDir\<close> at a directory.  The result is the path of the directory it
  ends at (\<open>None\<close> after a failed allocation) and the tree, in which the directories created
  before a failure stay.  A new directory is inserted at the head of the list of children.
\<close>

function create_loop ::
  "'w mo_dir_t \<Rightarrow> string \<Rightarrow> 'z heap_scheme \<Rightarrow> (string list option \<times> 'w mo_dir_t) \<times> 'z heap_scheme"
where
  "create_loop pointer curNode h =
     (if curNode = [] then ((Some [], pointer), h)
      else
        let name = takeWhile (\<lambda>c. c \<noteq> CHR ''/'') curNode;
            nextNode = (case strchr curNode CHR ''/'' of None \<Rightarrow> [] | Some slash \<Rightarrow> tl slash)
        in case find_child name (children pointer) of
             Some child \<Rightarrow>
               (case create_loop child nextNode h of
                  ((r, child'), h) \<Rightarrow>
                    ((map_option ((#) name) r,
                      Mo_Dir (dir_name pointer) (plugin pointer)
                        (replace_child name child' (children pointer))), h))
           | None \<Rightarrow>
               (case malloc () h of
                  (None, h) \<Rightarrow> ((None, pointer), h)
                | (Some _, h) \<Rightarrow>
                    (case strdup name h of
                       (None, h) \<Rightarrow> ((None, pointer), h)
                     | (Some nm, h) \<Rightarrow>
                         (case create_loop (Mo_Dir nm None []) nextNode h of
                            ((r, child'), h) \<Rightarrow>
                              ((map_option ((#) name) r,
                                Mo_Dir (dir_name pointer) (plugin pointer)
                                  (child' # children pointer)), h)))))"
  by pat_completeness auto
termination
proof (relation "measure (\<lambda>(d, u, h). length u)", goal_cases)
  case (2 d u h name nextNode child)
  then show ?case using strchr_shorter [of u "CHR ''/''"] by (auto split: option.splits)
next
  case (3 d u h name nextNode)
  then show ?case using strchr_shorter [of u "CHR ''/''"] by (auto split: option.splits)
qed simp

declare create_loop.simps [simp del]

definition prv_createMoDir :: "string \<Rightarrow> (('w, 'z) mo_env_scheme, string list) cmd" where
  "prv_createMoDir uri =
     DMC_FAIL_NULL (strdup uri) OMADM_SYNCML_ERROR_DEVICE_FULL (\<lambda>uriCopy.
     DMC_FAIL_ERR (uriCopy = ''.'') OMADM_SYNCML_ERROR_NOT_ALLOWED (\<lambda>s.
       case create_loop (root (MOs s)) (strip_dot uriCopy) s of
         ((r, d), s) \<Rightarrow>
           (case r of None \<Rightarrow> Err OMADM_SYNCML_ERROR_DEVICE_FULL | Some elem \<Rightarrow> Val elem,
            s\<lparr>MOs := (MOs s)\<lparr>root := d\<rparr>\<rparr>)))"

text \<open>The assignment to the \<^verbatim>\<open>plugin\<close> field of the directory at a path.\<close>

fun set_plugin ::
  "'w mo_dir_t \<Rightarrow> string list \<Rightarrow> 'w dmtree_plugin_t option \<Rightarrow> 'w mo_dir_t" where
  "set_plugin d [] x = Mo_Dir (dir_name d) x (children d)"
| "set_plugin d (n # ns) x =
     (case find_child n (children d) of
        None \<Rightarrow> d
      | Some c \<Rightarrow>
          Mo_Dir (dir_name d) (plugin d) (replace_child n (set_plugin c ns x) (children d)))"

text \<open>\<open>prv_freeMoDir\<close>: the children first, then the object; and the unlinking from the parent.\<close>

definition prv_freePlugin :: "'w dmtree_plugin_t \<Rightarrow> 'w \<Rightarrow> 'w" where
  "prv_freePlugin iPlugin w =
     (case closeFunc (interface iPlugin) of None \<Rightarrow> w | Some f \<Rightarrow> f (plugin_data iPlugin) w)"

fun prv_freeMoDir :: "'w mo_dir_t \<Rightarrow> 'w \<Rightarrow> 'w" where
  "prv_freeMoDir (Mo_Dir name p cs) w =
     (let w = fold prv_freeMoDir cs w in case p of None \<Rightarrow> w | Some p \<Rightarrow> prv_freePlugin p w)"

fun unlink_child :: "string \<Rightarrow> 'w mo_dir_t list \<Rightarrow> 'w mo_dir_t list" where
  "unlink_child name [] = []"
| "unlink_child name (child # next) =
     (if dir_name child = name then next else child # unlink_child name next)"

fun unlink :: "'w mo_dir_t \<Rightarrow> string list \<Rightarrow> 'w mo_dir_t" where
  "unlink d [] = d"
| "unlink d [n] = Mo_Dir (dir_name d) (plugin d) (unlink_child n (children d))"
| "unlink d (n # ns) =
     (case find_child n (children d) of
        None \<Rightarrow> d
      | Some c \<Rightarrow> Mo_Dir (dir_name d) (plugin d) (replace_child n (unlink c ns) (children d)))"

fun dir_at :: "'w mo_dir_t \<Rightarrow> string list \<Rightarrow> 'w mo_dir_t option" where
  "dir_at d [] = Some d"
| "dir_at d (n # ns) = (case find_child n (children d) of None \<Rightarrow> None | Some c \<Rightarrow> dir_at c ns)"

section \<open>Registering an object\<close>

text \<open>
  When the descriptor of the object cannot be allocated, its directory is freed with everything
  below it; freeing the root leaves the manager with a dangling pointer.  So does freeing the object of
  the cached URI, which the code goes on returning for that URI, as the model does.
\<close>

definition place_plugin :: "string list \<Rightarrow> 'w dmtree_plugin_t \<Rightarrow> (('w, 'z) mo_env_scheme, unit) cmd"
where
  "place_plugin newElem p s =
     (case malloc p s of
        (Some p, s) \<Rightarrow>
          (Val (), s\<lparr>MOs := (MOs s)\<lparr>root := set_plugin (root (MOs s)) newElem (Some p)\<rparr>\<rparr>)
      | (None, s) \<Rightarrow>
          let d = set_plugin (root (MOs s)) newElem None in
          if newElem = [] then (Ub, s)
          else (Err OMADM_SYNCML_ERROR_DEVICE_FULL,
                s\<lparr>world := (case dir_at d newElem of None \<Rightarrow> world s | Some e \<Rightarrow> prv_freeMoDir e (world s)),
                  MOs := (MOs s)\<lparr>root := unlink d newElem\<rparr>\<rparr>))"

definition register_plugin ::
  "'w omadm_mo_interface_t \<Rightarrow> mo_data \<Rightarrow> (('w, 'z) mo_env_scheme, unit) cmd" where
  "register_plugin iPlugin pluginData s =
     (case base_uri iPlugin of
        None \<Rightarrow> (Val (), s)
      | Some base \<Rightarrow>
          (DMC_FAIL_ERR (base = ''.'') OMADM_SYNCML_ERROR_NOT_ALLOWED (
           DMC_FAIL (lift (uri_validate_path (strip_dot base) (max_depth (MOs s)) (max_segment_len (MOs s))))
             (\<lambda>_.
           DMC_FAIL (prv_createMoDir base) (\<lambda>newElem.
           place_plugin newElem \<lparr>interface = iPlugin, plugin_data = pluginData\<rparr>)))) s)"

definition momgr_add_plugin ::
  "'w omadm_mo_interface_t option \<Rightarrow> (('w, 'z) mo_env_scheme, unit) cmd" where
  "momgr_add_plugin iPlugin =
     DMC_FAIL_NULL (pure iPlugin) OMADM_SYNCML_ERROR_SESSION_INTERNAL (\<lambda>iPlugin.
     DMC_FAIL_NULL (pure (initFunc iPlugin)) OMADM_SYNCML_ERROR_SESSION_INTERNAL (\<lambda>f s.
       case on_world f s of
         ((c, pluginData), s) \<Rightarrow>
           if c \<noteq> OMADM_SYNCML_ERROR_NONE then (Err c, s) else register_plugin iPlugin pluginData s))"

section \<open>The directory as a map from paths\<close>

definition plugin_at :: "'w mo_dir_t \<Rightarrow> string list \<Rightarrow> 'w dmtree_plugin_t option" where
  "plugin_at d p = (case dir_at d p of None \<Rightarrow> None | Some e \<Rightarrow> plugin e)"

text \<open>The value at the longest prefix of a path that has one.\<close>

definition longest :: "(string list \<Rightarrow> 'p option) \<Rightarrow> string list \<Rightarrow> 'p option" where
  "longest lookup q = Option.bind (List.find (\<lambda>r. lookup r \<noteq> None) (rev (prefixes q))) lookup"

abbreviation segments :: "string \<Rightarrow> string list" where
  "segments \<equiv> pieces CHR ''/''"

text \<open>The path a URI names, and the path at which an object with this base URI is registered.\<close>

definition path_of :: "string \<Rightarrow> string list" where
  "path_of uri = (if uri = ''.'' then [] else split_on CHR ''/'' (strip_dot uri))"

definition base_path :: "string \<Rightarrow> string list" where
  "base_path uri = pieces CHR ''/'' (strip_dot uri)"

fun make_dirs :: "'w mo_dir_t \<Rightarrow> string list \<Rightarrow> 'w mo_dir_t" where
  "make_dirs d [] = d"
| "make_dirs d (n # ns) =
     (case find_child n (children d) of
        Some c \<Rightarrow> Mo_Dir (dir_name d) (plugin d) (replace_child n (make_dirs c ns) (children d))
      | None \<Rightarrow> Mo_Dir (dir_name d) (plugin d) (make_dirs (Mo_Dir n None []) ns # children d))"

lemma dir_name_make_dirs [simp]: "dir_name (make_dirs d p) = dir_name d"
  by (cases p) (auto split: option.splits)

lemma dir_name_set_plugin [simp]: "dir_name (set_plugin d p x) = dir_name d"
  by (cases p) (auto split: option.splits)

lemma find_child_name: "find_child n cs = Some c \<Longrightarrow> dir_name c = n"
  by (induction cs) (auto split: if_splits)

lemma find_replace:
  "dir_name c' = n \<Longrightarrow> find_child n cs = Some c \<Longrightarrow>
     find_child m (replace_child n c' cs) = (if m = n then Some c' else find_child m cs)"
  by (induction cs) auto

lemma plugin_at_Nil [simp]: "plugin_at d [] = plugin d"
  by (simp add: plugin_at_def)

lemma plugin_at_Cons [simp]:
  "plugin_at d (n # ns) = (case find_child n (children d) of None \<Rightarrow> None | Some c \<Rightarrow> plugin_at c ns)"
  by (simp add: plugin_at_def split: option.splits)

lemma plugin_at_fresh [simp]: "plugin_at (Mo_Dir n None []) q = None"
  by (cases q) simp_all

lemma make_dirs_plugin_at [simp]: "plugin_at (make_dirs d p) q = plugin_at d q"
proof (induction p arbitrary: d q)
  case (Cons n ns)
  note IH = Cons.IH
  show ?case
  proof (cases q)
    case Nil
    then show ?thesis by (auto split: option.splits)
  next
    case (Cons m ms)
    show ?thesis
    proof (cases "find_child n (children d)")
      case None
      then show ?thesis using Cons IH [of "Mo_Dir n None []" ms] by auto
    next
      case (Some c)
      then show ?thesis
        using Cons IH [of c ms] by (simp add: find_replace [OF _ Some] find_child_name [OF Some])
    qed
  qed
qed simp

lemma make_dirs_dir_at: "dir_at (make_dirs d p) p \<noteq> None"
proof (induction p arbitrary: d)
  case (Cons n ns)
  show ?case
  proof (cases "find_child n (children d)")
    case None
    then show ?thesis using Cons [of "Mo_Dir n None []"] by simp
  next
    case (Some c)
    then show ?thesis
      using Cons [of c] by (simp add: find_replace [OF _ Some] find_child_name [OF Some])
  qed
qed simp

lemma dir_at_set_plugin: "dir_at d p \<noteq> None \<Longrightarrow> dir_at (set_plugin d p x) p \<noteq> None"
proof (induction p arbitrary: d)
  case (Cons n ns)
  from Cons.prems obtain c where c: "find_child n (children d) = Some c" and e: "dir_at c ns \<noteq> None"
    by (auto split: option.splits)
  then show ?case
    using Cons.IH [OF e] by (simp add: find_replace [OF _ c] find_child_name [OF c])
qed simp

lemma set_plugin_at:
  "dir_at d p \<noteq> None \<Longrightarrow> plugin_at (set_plugin d p x) q = (if q = p then x else plugin_at d q)"
proof (induction p arbitrary: d q)
  case Nil
  then show ?case by (cases q) auto
next
  case (Cons n ns)
  from Cons.prems obtain c where c: "find_child n (children d) = Some c" and e: "dir_at c ns \<noteq> None"
    by (auto split: option.splits)
  show ?case
    using c Cons.IH [OF e]
    by (cases q) (simp_all add: find_replace [OF _ c] find_child_name [OF c])
qed

section \<open>The contract of the directory\<close>

text \<open>
  What the manager relies on: creating the directories of a path changes no registration, and an
  assignment at a created path changes the registration at that path only.
\<close>

locale plugin_directory =
  fixes lookup :: "'d \<Rightarrow> string list \<Rightarrow> 'p option"
    and create :: "'d \<Rightarrow> string list \<Rightarrow> 'd"
    and assign :: "'d \<Rightarrow> string list \<Rightarrow> 'p option \<Rightarrow> 'd"
  assumes lookup_create: "lookup (create d p) q = lookup d q"
    and lookup_assign: "lookup (assign (create d p) p x) q = (if q = p then x else lookup d q)"
begin

lemma lookup_assign_fun: "lookup (assign (create d p) p (Some x)) = (lookup d)(p \<mapsto> x)"
  by (auto simp: lookup_assign)

end

interpretation mo_dir: plugin_directory plugin_at make_dirs set_plugin
  by unfold_locales (simp_all add: set_plugin_at [OF make_dirs_dir_at])

section \<open>Longest prefixes\<close>

lemma find_append:
  "List.find P (xs @ ys) = (case List.find P xs of Some y \<Rightarrow> Some y | None \<Rightarrow> List.find P ys)"
  by (induction xs) auto

lemma find_map: "List.find P (map f xs) = map_option f (List.find (\<lambda>x. P (f x)) xs)"
  by (induction xs) auto

lemma find_holds: "List.find P xs = Some x \<Longrightarrow> P x"
  by (induction xs) (auto split: if_splits)

lemma longest_Nil [simp]: "longest f [] = f []"
  by (simp add: longest_def)

lemma longest_Cons [simp]:
  "longest f (n # ns) = (case longest (\<lambda>r. f (n # r)) ns of Some x \<Rightarrow> Some x | None \<Rightarrow> f [])"
proof (cases "List.find (\<lambda>r. f (n # r) \<noteq> None) (rev (prefixes ns))")
  case None
  then show ?thesis by (simp add: longest_def find_append find_map rev_map)
next
  case (Some r)
  with find_holds [OF Some] show ?thesis
    by (auto simp: longest_def find_append find_map rev_map)
qed

lemma longest_None: "longest f q = None \<longleftrightarrow> (\<forall>r. prefix r q \<longrightarrow> f r = None)"
proof (induction q arbitrary: f)
  case (Cons n ns)
  have "longest f (n # ns) = None \<longleftrightarrow> longest (\<lambda>r. f (n # r)) ns = None \<and> f [] = None"
    by (auto split: option.splits)
  then show ?case using Cons [of "\<lambda>r. f (n # r)"] by (auto simp: prefix_Cons)
qed simp

lemma longest_nothing [simp]: "longest (\<lambda>r. None) q = None"
  by (simp add: longest_None)

lemma longest_cong: "(\<And>r. prefix r q \<Longrightarrow> f r = g r) \<Longrightarrow> longest f q = longest g q"
proof (induction q arbitrary: f g)
  case (Cons n ns)
  have "longest (\<lambda>r. f (n # r)) ns = longest (\<lambda>r. g (n # r)) ns"
    by (rule Cons.IH) (simp add: Cons.prems)
  then show ?case using Cons.prems [of "[]"] by (simp split: option.splits)
qed simp

lemma longest_SomeD:
  "longest f q = Some x \<Longrightarrow>
     \<exists>r. prefix r q \<and> f r = Some x \<and> (\<forall>t. prefix t q \<and> f t \<noteq> None \<longrightarrow> prefix t r)"
proof (induction q arbitrary: f)
  case Nil
  then show ?case by auto
next
  case (Cons n ns)
  let ?g = "\<lambda>r. f (n # r)"
  show ?case
  proof (cases "longest ?g ns")
    case None
    then have "\<forall>r. prefix r ns \<longrightarrow> f (n # r) = None" by (simp add: longest_None)
    with None Cons.prems show ?thesis
      by (intro exI [of _ "[]"]) (auto simp: prefix_Cons)
  next
    case (Some y)
    with Cons.prems have "longest ?g ns = Some x" by simp
    from Cons.IH [OF this] obtain r where "prefix r ns" "?g r = Some x"
      "\<forall>t. prefix t ns \<and> ?g t \<noteq> None \<longrightarrow> prefix t r" by blast
    then show ?thesis by (intro exI [of _ "n # r"]) (auto simp: prefix_Cons)
  qed
qed

lemma longestI:
  assumes "prefix r q" and "f r = Some x" and "\<And>t. prefix t q \<Longrightarrow> f t \<noteq> None \<Longrightarrow> prefix t r"
  shows "longest f q = Some x"
proof -
  obtain y where y: "longest f q = Some y" using assms(1,2) longest_None [of f q] by fastforce
  from longest_SomeD [OF y] obtain r' where r': "prefix r' q" "f r' = Some y"
    "\<forall>t. prefix t q \<and> f t \<noteq> None \<longrightarrow> prefix t r'" by blast
  then have "prefix r r'" "prefix r' r" using assms by auto
  then show ?thesis using r'(2) assms(2) y by (metis prefix_order.antisym)
qed

lemma longest_upd_here [simp]: "longest (f(q \<mapsto> x)) q = Some x"
  by (rule longestI [of q]) auto

lemma longest_upd_other: "\<not> prefix p q \<Longrightarrow> longest (f(p \<mapsto> x)) q = longest f q"
  by (rule longest_cong) auto

section \<open>The search finds the longest registered prefix\<close>

lemma before_strchr: "strchr s c = Some r \<Longrightarrow> before s r = takeWhile (\<lambda>x. x \<noteq> c) s"
  using strchr_SomeD(1) [of s c r] by (metis before_append)

lemma find_dir_plugin:
  "prv_findMoDir up d u False h = (Some chain, h') \<Longrightarrow>
     up_to_plugin chain =
       (case longest (plugin_at d) (split_on CHR ''/'' u) of
          Some p \<Rightarrow> Some p | None \<Rightarrow> up_to_plugin up)"
proof (induction up d u "False" h rule: prv_findMoDir.induct)
  case (1 up d u h)
  show ?case
  proof (cases "strchr u CHR ''/''")
    case None
    with 1(2) show ?thesis
      by (auto simp: prv_findMoDir.simps [of _ _ u] split_on_strchr [of _ u] split: option.splits)
  next
    case (Some r)
    let ?n = "takeWhile (\<lambda>x. x \<noteq> CHR ''/'') u"
    obtain nm h1 where m: "malloc (before u r) h = (Some nm, h1)"
      using 1(2) Some by (auto simp: prv_findMoDir.simps [of _ _ u] split: prod.splits option.splits)
    then have nm: "nm = ?n" using malloc_SomeD [OF m] before_strchr [OF Some] by simp
    show ?thesis
    proof (cases "find_child ?n (children d)")
      case None
      with 1(2) Some m nm show ?thesis
        by (auto simp: prv_findMoDir.simps [of _ _ u] split_on_strchr [of _ u] split: option.splits)
    next
      case c: (Some c)
      have "prv_findMoDir (d # up) c (tl r) False h1 = (Some chain, h')"
        using 1(2) Some m nm c by (simp add: prv_findMoDir.simps [of _ _ u])
      from 1(1) [OF Some m [symmetric] refl _ this] show ?thesis
        using Some c nm by (simp add: split_on_strchr [of _ u] split: option.splits)
    qed
  qed
qed

lemma find_dir_plenty:
  "plenty h \<Longrightarrow> \<exists>chain. prv_findMoDir up d u False h = (Some chain, h)"
proof (induction up d u "False" h rule: prv_findMoDir.induct)
  case (1 up d u h)
  then show ?case
    by (subst prv_findMoDir.simps) (auto split: option.splits)
qed

lemma find_dir_exact:
  "plenty h \<Longrightarrow>
     prv_findMoDir up d u True h = (r, h') \<longrightarrow>
       h' = h \<and> (r \<noteq> None \<longleftrightarrow> dir_at d (split_on CHR ''/'' u) \<noteq> None)"
proof (induction up d u "True" h arbitrary: r rule: prv_findMoDir.induct)
  case (1 up d u h)
  show ?case
  proof (cases "strchr u CHR ''/''")
    case None
    then show ?thesis
      using 1(2) by (auto simp: prv_findMoDir.simps [of _ _ u] split_on_strchr [of _ u] split: option.splits)
  next
    case (Some r')
    have b: "before u r' = takeWhile (\<lambda>x. x \<noteq> CHR ''/'') u" by (rule before_strchr [OF Some])
    show ?thesis
      using 1 Some b by (auto simp: prv_findMoDir.simps [of _ _ u] split_on_strchr [of _ u] split: option.splits)
  qed
qed

section \<open>The cached lookup\<close>

text \<open>The cache is right when it holds the object the tree has for the cached URI.\<close>

definition responsible :: "'w mo_mgr_t \<Rightarrow> string \<Rightarrow> 'w dmtree_plugin_t option" where
  "responsible m uri = longest (plugin_at (root m)) (path_of uri)"

definition cache_ok :: "'w mo_mgr_t \<Rightarrow> bool" where
  "cache_ok m \<longleftrightarrow> (\<forall>u. last_uri m = Some u \<longrightarrow> last_plugin m = responsible m u)"

lemma responsible_root [simp]: "responsible m ''.'' = plugin (root m)"
  by (simp add: responsible_def path_of_def)

lemma responsible_below:
  "u \<noteq> ''.'' \<Longrightarrow>
     responsible m u = longest (plugin_at (root m)) (split_on CHR ''/'' (strip_dot u))"
  by (simp add: responsible_def path_of_def)

lemma responsible_more [simp]:
  "responsible (m\<lparr>last_uri := a\<rparr>) u = responsible m u"
  "responsible (m\<lparr>last_plugin := b\<rparr>) u = responsible m u"
  by (simp_all add: responsible_def)

lemma malloc_env:
  "malloc a s = (r, t) \<Longrightarrow> MOs t = MOs s \<and> world t = world s \<and> mo_env.more t = mo_env.more s"
  by (auto simp: malloc_def split: list.splits)

lemma find_dir_env:
  "prv_findMoDir up d u e s = (r, t) \<Longrightarrow>
     MOs t = MOs s \<and> world t = world s \<and> mo_env.more t = mo_env.more s"
proof (induction up d u e s arbitrary: r rule: prv_findMoDir.induct)
  case (1 up d u e s)
  show ?case
  proof (cases "strchr u CHR ''/''")
    case None
    then show ?thesis using 1(2) by (auto simp: prv_findMoDir.simps [of up d u] split: option.splits)
  next
    case (Some sl)
    obtain c s1 where m: "malloc (before u sl) s = (c, s1)" by fastforce
    note e = malloc_env [OF m]
    show ?thesis
    proof (cases "\<exists>n ch. c = Some n \<and> find_child n (children d) = Some ch")
      case True
      then obtain n ch where n: "c = Some n" "find_child n (children d) = Some ch" by blast
      have "prv_findMoDir (d # up) ch (tl sl) e s1 = (r, t)"
        using 1(2) Some m n by (simp add: prv_findMoDir.simps [of up d u])
      from 1(1) [OF Some m [symmetric] n this] e show ?thesis by simp
    next
      case False
      then show ?thesis using 1(2) Some m e
        by (auto simp: prv_findMoDir.simps [of up d u] split: option.splits)
    qed
  qed
qed

text \<open>One case rule for a lookup: from the cache, at the root, or by a search.\<close>

lemma findPlugin_cases:
  assumes "prv_findPlugin u s = (r, t)"
  obtains (hit) "last_uri (MOs s) = Some u" "r = last_plugin (MOs s)" "t = s"
  | (failed) "last_uri (MOs s) \<noteq> Some u" "r = None" "MOs t = (MOs s)\<lparr>last_uri := None\<rparr>"
      "world t = world s"
  | (top) "last_uri (MOs s) \<noteq> Some u" "u = ''.''" "r = plugin (root (MOs s))"
      "MOs t = (MOs s)\<lparr>last_uri := None\<rparr>" "world t = world s"
  | (found) p l where "last_uri (MOs s) \<noteq> Some u" "r = Some p" "responsible (MOs s) u = Some p"
      "MOs t = (MOs s)\<lparr>last_uri := l, last_plugin := Some p\<rparr>" "l = None \<or> l = Some u"
      "world t = world s" "u \<noteq> ''.''"
proof (cases "last_uri (MOs s) = Some u \<or> u = ''.''")
  case True
  show ?thesis
  proof (cases "last_uri (MOs s) = Some u")
    case True
    then show ?thesis using assms by (intro that(1)) (auto simp: prv_findPlugin_def)
  next
    case False
    then have "u = ''.''" using True by blast
    with False assms have "r = plugin (root (MOs s)) \<and> t = s\<lparr>MOs := (MOs s)\<lparr>last_uri := None\<rparr>\<rparr>"
      by (auto simp: prv_findPlugin_def Let_def)
    then show ?thesis using False \<open>u = ''.''\<close> by (intro that(3)) simp_all
  qed
next
  case False
  let ?s = "s\<lparr>MOs := (MOs s)\<lparr>last_uri := None\<rparr>\<rparr>"
  obtain c s1 where c: "strdup u ?s = (c, s1)" by fastforce
  have s1: "MOs s1 = (MOs s)\<lparr>last_uri := None\<rparr>" "world s1 = world s" using malloc_env [OF c] by auto
  show ?thesis
  proof (cases c)
    case None
    with False assms c have "r = None \<and> t = s1" by (simp add: prv_findPlugin_def Let_def)
    then show ?thesis using False s1 by (intro that(2)) simp_all
  next
    case (Some v)
    have v: "v = u" by (rule malloc_SomeD [OF c [unfolded Some]])
    obtain dirP s2 where d: "prv_findMoDir [] (root (MOs s1)) (strip_dot u) False s1 = (dirP, s2)"
      by (metis surj_pair)
    have s2: "MOs s2 = (MOs s)\<lparr>last_uri := None\<rparr>" "world s2 = world s"
      using find_dir_env [OF d] s1 by auto
    show ?thesis
    proof (cases "case dirP of None \<Rightarrow> None | Some chain \<Rightarrow> up_to_plugin chain")
      case None
      with False assms c d Some v have "r = None \<and> t = s2" by (simp add: prv_findPlugin_def Let_def)
      then show ?thesis using False s2 by (intro that(2)) simp_all
    next
      case p: (Some p)
      obtain l s3 where l: "strdup u s2 = (l, s3)" by fastforce
      have "responsible (MOs s) u = Some p"
        using p d find_dir_plugin [of "[]" "root (MOs s1)" "strip_dot u" s1 _ s2] False s1
        by (auto simp: responsible_below split: option.splits)
      moreover have "l = None \<or> l = Some u"
        using malloc_SomeD [of u s2 _ s3] l by (cases l) simp_all
      moreover have "r = Some p" "MOs t = (MOs s3)\<lparr>last_uri := l, last_plugin := Some p\<rparr>"
        "world t = world s3"
        using False assms c d Some v p l by (auto simp: prv_findPlugin_def Let_def)
      ultimately show ?thesis
        using malloc_env [OF l] s2 False by (intro that(4) [of p l]) auto
    qed
  qed
qed

lemma findPlugin_root: "prv_findPlugin u s = (r, t) \<Longrightarrow> root (MOs t) = root (MOs s) \<and> world t = world s"
  by (erule findPlugin_cases) auto

lemma findPlugin_more: "prv_findPlugin u s = (r, t) \<Longrightarrow> mo_env.more t = mo_env.more s"
  by (auto simp: prv_findPlugin_def Let_def split: prod.splits option.splits if_splits
      dest!: malloc_env find_dir_env)

lemma findPlugin_limits:
  "prv_findPlugin u s = (r, t) \<Longrightarrow>
     max_depth (MOs t) = max_depth (MOs s) \<and> max_total_len (MOs t) = max_total_len (MOs s) \<and>
     max_segment_len (MOs t) = max_segment_len (MOs s)"
  by (erule findPlugin_cases) auto

lemma findPlugin_cache_ok: "cache_ok (MOs s) \<Longrightarrow> prv_findPlugin u s = (r, t) \<Longrightarrow> cache_ok (MOs t)"
  by (erule findPlugin_cases) (auto simp: cache_ok_def)

lemma findPlugin_sound:
  "cache_ok (MOs s) \<Longrightarrow> prv_findPlugin u s = (Some p, t) \<Longrightarrow> responsible (MOs s) u = Some p"
  by (erule findPlugin_cases) (auto simp: cache_ok_def)

lemma findPlugin_plenty:
  assumes "plenty s" and "prv_findPlugin u s = (r, t)" and "last_uri (MOs s) \<noteq> Some u"
  shows "plenty t \<and> r = responsible (MOs s) u"
proof (cases "u = ''.''")
  case True
  then show ?thesis using assms by (auto simp: prv_findPlugin_def)
next
  case False
  let ?s = "s\<lparr>MOs := (MOs s)\<lparr>last_uri := None\<rparr>\<rparr>"
  obtain chain where c: "prv_findMoDir [] (root (MOs s)) (strip_dot u) False ?s = (Some chain, ?s)"
    using find_dir_plenty [of ?s "[]" "root (MOs s)" "strip_dot u"] assms(1) by auto
  have "up_to_plugin chain = responsible (MOs s) u"
    using find_dir_plugin [OF c] False by (simp add: responsible_below split: option.splits)
  then show ?thesis
    using assms c False by (auto simp: prv_findPlugin_def Let_def split: option.splits)
qed

text \<open>
  C3. \<open>prv_findPlugin\<close> returns the object registered at the longest registered prefix of the
  URI's path, whether the answer comes from the cache, from the root, or from the search, and
  keeps the cache right.
\<close>

theorem findPlugin_longest_prefix:
  assumes "plenty s" and "cache_ok (MOs s)"
  shows "\<exists>t. prv_findPlugin uri s = (longest (plugin_at (root (MOs s))) (path_of uri), t) \<and>
    cache_ok (MOs t) \<and> plenty t \<and> root (MOs t) = root (MOs s) \<and> world t = world s"
proof -
  obtain r t where r: "prv_findPlugin uri s = (r, t)" by fastforce
  have "plenty t \<and> r = responsible (MOs s) uri"
  proof (cases "last_uri (MOs s) = Some uri")
    case True
    then show ?thesis using r assms by (auto simp: prv_findPlugin_def cache_ok_def)
  next
    case False
    then show ?thesis using findPlugin_plenty [OF assms(1) r] by blast
  qed
  then show ?thesis
    using r findPlugin_cache_ok [OF assms(2) r] findPlugin_root [OF r]
    by (auto simp: responsible_def)
qed

section \<open>Creating directories\<close>

lemma base_path_segments: "base_path b = segments (strip_dot b)"
  by (simp add: base_path_def)

lemma create_loop_name: "create_loop d u h = ((r, d'), h') \<Longrightarrow> dir_name d' = dir_name d"
  by (subst (asm) create_loop.simps) (auto simp: Let_def split: if_splits option.splits prod.splits)

lemma create_loop_Some:
  "create_loop d u h = ((Some p, d'), h') \<Longrightarrow> p = segments u \<and> d' = make_dirs d p"
proof (induction d u h arbitrary: p d' h' rule: create_loop.induct)
  case (1 d u h)
  show ?case
  proof (cases "u = []")
    case True
    then show ?thesis using 1(3) by (simp add: create_loop.simps pieces_rec [of _ "[]"])
  next
    case ne: False
    let ?n = "takeWhile (\<lambda>c. c \<noteq> CHR ''/'') u"
    let ?r = "case strchr u CHR ''/'' of None \<Rightarrow> [] | Some slash \<Rightarrow> tl slash"
    show ?thesis
    proof (cases "find_child ?n (children d)")
      case (Some c)
      from 1(3) ne Some obtain q c' where q: "create_loop c ?r h = ((Some q, c'), h')"
        "p = ?n # q" "d' = Mo_Dir (dir_name d) (plugin d) (replace_child ?n c' (children d))"
        by (subst (asm) create_loop.simps) (auto simp: Let_def split: prod.splits)
      from 1(2) [OF ne refl refl Some q(1)] show ?thesis
        using q Some ne by (subst pieces_rec) simp
    next
      case None
      from 1(3) ne None obtain nm h1 h2 q c' where q: "malloc () h = (Some (), h1)"
        "strdup ?n h1 = (Some nm, h2)" "create_loop (Mo_Dir nm None []) ?r h2 = ((Some q, c'), h')"
        "p = ?n # q" "d' = Mo_Dir (dir_name d) (plugin d) (c' # children d)"
        by (subst (asm) create_loop.simps) (auto simp: Let_def split: prod.splits option.splits)
      from 1(1) [OF ne refl refl None q(1) [symmetric] refl q(2) [symmetric] refl q(3)]
      show ?thesis
        using q None ne malloc_SomeD [OF q(2)] by (subst pieces_rec) simp
    qed
  qed
qed

lemma create_loop_plugin_at:
  "create_loop d u h = ((r, d'), h') \<Longrightarrow> plugin_at d' q = plugin_at d q"
proof (induction d u h arbitrary: r d' h' q rule: create_loop.induct)
  case (1 d u h)
  show ?case
  proof (cases "u = []")
    case True
    then show ?thesis using 1(3) by (simp add: create_loop.simps)
  next
    case ne: False
    let ?n = "takeWhile (\<lambda>c. c \<noteq> CHR ''/'') u"
    let ?r = "case strchr u CHR ''/'' of None \<Rightarrow> [] | Some slash \<Rightarrow> tl slash"
    show ?thesis
    proof (cases "find_child ?n (children d)")
      case (Some c)
      from 1(3) ne Some obtain q' c' where q: "create_loop c ?r h = ((q', c'), h')"
        "d' = Mo_Dir (dir_name d) (plugin d) (replace_child ?n c' (children d))"
        by (subst (asm) create_loop.simps) (auto simp: Let_def split: prod.splits)
      have "dir_name c' = ?n" using create_loop_name [OF q(1)] find_child_name [OF Some] by simp
      then show ?thesis
        using 1(2) [OF ne refl refl Some q(1)] q(2) Some
        by (cases q) (simp_all add: find_replace)
    next
      case None
      show ?thesis
      proof (cases "d' = d")
        case False
        with 1(3) ne None obtain nm h1 h2 q' c' where q: "malloc () h = (Some (), h1)"
          "strdup ?n h1 = (Some nm, h2)" "create_loop (Mo_Dir nm None []) ?r h2 = ((q', c'), h')"
          "d' = Mo_Dir (dir_name d) (plugin d) (c' # children d)"
          by (subst (asm) create_loop.simps) (auto simp: Let_def split: prod.splits option.splits)
        have "dir_name c' = ?n" using create_loop_name [OF q(3)] malloc_SomeD [OF q(2)] by simp
        then show ?thesis
          using 1(1) [OF ne refl refl None q(1) [symmetric] refl q(2) [symmetric] refl q(3)] q(4) None
          by (cases q) auto
      qed simp
    qed
  qed
qed

lemma create_loop_plenty: "plenty h \<Longrightarrow> \<exists>p d'. create_loop d u h = ((Some p, d'), h)"
proof (induction d u h rule: create_loop.induct)
  case (1 d u h)
  then show ?case
    by (subst create_loop.simps) (fastforce simp: Let_def split: option.splits)
qed

lemma create_loop_env: "create_loop d u s = (x, t) \<Longrightarrow> MOs t = MOs s \<and> world t = world s"
proof (induction d u s arbitrary: x rule: create_loop.induct)
  case (1 d u s)
  show ?case
  proof (cases "u = []")
    case True
    then show ?thesis using 1(3) by (simp add: create_loop.simps)
  next
    case ne: False
    let ?n = "takeWhile (\<lambda>c. c \<noteq> CHR ''/'') u"
    let ?r = "case strchr u CHR ''/'' of None \<Rightarrow> [] | Some slash \<Rightarrow> tl slash"
    show ?thesis
    proof (cases "find_child ?n (children d)")
      case (Some c)
      from 1(3) ne Some obtain y where q: "create_loop c ?r s = (y, t)"
        by (subst (asm) create_loop.simps) (auto simp: Let_def split: prod.splits)
      from 1(2) [OF ne refl refl Some q] show ?thesis .
    next
      case None
      obtain a s1 where a: "malloc () s = (a, s1)" by (metis surj_pair)
      obtain b s2 where b: "strdup ?n s1 = (b, s2)" by (metis surj_pair)
      show ?thesis
      proof (cases "a = None \<or> b = None")
        case True
        then show ?thesis using 1(3) ne None a b malloc_env [OF a] malloc_env [OF b]
          by (subst (asm) create_loop.simps) (auto simp: Let_def split: prod.splits option.splits)
      next
        case False
        then obtain nm where nm: "a = Some ()" "b = Some nm" by auto
        have "\<exists>y. create_loop (Mo_Dir nm None []) ?r s2 = (y, t) \<and>
            snd x = Mo_Dir (dir_name d) (plugin d) (snd y # children d)"
          using 1(3) ne None a b nm
          by (auto simp: create_loop.simps [of d u s] Let_def split: prod.splits)
        then obtain y where q: "create_loop (Mo_Dir nm None []) ?r s2 = (y, t)"
          and "snd x = Mo_Dir (dir_name d) (plugin d) (snd y # children d)" by blast
        from 1(1) [OF ne refl refl None a [symmetric] nm(1) b [symmetric] nm(2) q]
        show ?thesis using malloc_env [OF a] malloc_env [OF b] by simp
      qed
    qed
  qed
qed

lemma create_loop_exists:
  "dir_at d (segments u) \<noteq> None \<Longrightarrow>
     create_loop d u h = ((Some (segments u), make_dirs d (segments u)), h)"
proof (induction d u h rule: create_loop.induct)
  case (1 d u h)
  show ?case
  proof (cases "u = []")
    case True
    then show ?thesis by (simp add: create_loop.simps pieces_rec [of _ "[]"])
  next
    case ne: False
    let ?n = "takeWhile (\<lambda>c. c \<noteq> CHR ''/'') u"
    let ?r = "case strchr u CHR ''/'' of None \<Rightarrow> [] | Some slash \<Rightarrow> tl slash"
    have seg: "segments u = ?n # segments ?r" using ne by (subst pieces_rec) simp
    obtain c where c: "find_child ?n (children d) = Some c" and e: "dir_at c (segments ?r) \<noteq> None"
      using 1(3) unfolding seg by (auto split: option.splits)
    show ?thesis
      using 1(2) [OF ne refl refl c e] ne c unfolding seg
      by (subst create_loop.simps) (simp add: Let_def)
  qed
qed

section \<open>Well-formed directories\<close>

text \<open>Names are distinct among siblings, so a path names at most one directory.\<close>

fun wf_dir :: "'w mo_dir_t \<Rightarrow> bool" where
  "wf_dir (Mo_Dir name p cs) \<longleftrightarrow> distinct (map dir_name cs) \<and> (\<forall>c \<in> set cs. wf_dir c)"

lemma wf_dir_iff:
  "wf_dir d \<longleftrightarrow> distinct (map dir_name (children d)) \<and> (\<forall>c \<in> set (children d). wf_dir c)"
  by (cases d) simp

lemma find_child_in: "find_child n cs = Some c \<Longrightarrow> c \<in> set cs"
  by (induction cs) (auto split: if_splits)

lemma find_child_None: "find_child n cs = None \<longleftrightarrow> n \<notin> dir_name ` set cs"
  by (induction cs) auto

lemma names_replace [simp]: "dir_name c = n \<Longrightarrow> map dir_name (replace_child n c cs) = map dir_name cs"
  by (induction cs) auto

lemma set_replace: "set (replace_child n c cs) \<subseteq> insert c (set cs)"
  by (induction cs) auto

lemma wf_replace:
  "wf_dir d \<Longrightarrow> wf_dir c \<Longrightarrow> dir_name c = n \<Longrightarrow> wf_dir (Mo_Dir m p (replace_child n c (children d)))"
  using set_replace [of n c "children d"] by (auto simp: wf_dir_iff [of d])

lemma wf_found: "wf_dir d \<Longrightarrow> find_child n (children d) = Some c \<Longrightarrow> wf_dir c"
  by (auto simp: wf_dir_iff [of d] dest: find_child_in)

lemma set_unlink_child: "set (unlink_child n cs) \<subseteq> set cs"
  by (induction cs) auto

lemma distinct_unlink_child: "distinct (map dir_name cs) \<Longrightarrow> distinct (map dir_name (unlink_child n cs))"
  using set_unlink_child [of n] by (induction cs) auto

lemma find_unlink_child:
  "distinct (map dir_name cs) \<Longrightarrow>
     find_child m (unlink_child n cs) = (if m = n then None else find_child m cs)"
  by (induction cs) (auto simp: find_child_None)

lemma dir_name_unlink [simp]: "dir_name (unlink d p) = dir_name d"
  by (induction d p rule: unlink.induct) (auto split: option.splits)

lemma wf_set_plugin: "wf_dir d \<Longrightarrow> wf_dir (set_plugin d p x)"
proof (induction p arbitrary: d)
  case Nil
  then show ?case by (cases d) simp
next
  case (Cons n ns)
  then show ?case
    by (auto split: option.splits dest: wf_found find_child_name simp del: wf_dir.simps
        intro!: wf_replace)
qed

lemma wf_make_dirs: "wf_dir d \<Longrightarrow> wf_dir (make_dirs d p)"
proof (induction p arbitrary: d)
  case (Cons n ns)
  show ?case
  proof (cases "find_child n (children d)")
    case None
    then show ?thesis
      using Cons.prems Cons.IH [of "Mo_Dir n None []"] wf_dir_iff [of d] None
        find_child_None [of n "children d"] by simp
  next
    case (Some c)
    have "wf_dir (make_dirs c ns)" by (rule Cons.IH [OF wf_found [OF Cons.prems Some]])
    then show ?thesis
      using wf_replace [OF Cons.prems, of "make_dirs c ns" n] find_child_name [OF Some] Some by simp
  qed
qed simp

lemma wf_unlink: "wf_dir d \<Longrightarrow> wf_dir (unlink d p)"
proof (induction d p rule: unlink.induct)
  case (2 d n)
  then show ?case
    using distinct_unlink_child [of "children d" n] set_unlink_child [of n "children d"]
    by (auto simp: wf_dir_iff [of d])
next
  case (3 d n m ns)
  then show ?case
    by (auto split: option.splits dest: wf_found find_child_name simp del: wf_dir.simps
        intro!: wf_replace)
qed simp

lemma wf_create_loop: "create_loop d u h = ((r, d'), h') \<Longrightarrow> wf_dir d \<Longrightarrow> wf_dir d'"
proof (induction d u h arbitrary: r d' h' rule: create_loop.induct)
  case (1 d u h)
  show ?case
  proof (cases "u = [] \<or> d' = d")
    case True
    then show ?thesis using 1(3,4) by (auto simp: create_loop.simps)
  next
    case False
    then have ne: "u \<noteq> []" by blast
    let ?n = "takeWhile (\<lambda>c. c \<noteq> CHR ''/'') u"
    let ?r = "case strchr u CHR ''/'' of None \<Rightarrow> [] | Some slash \<Rightarrow> tl slash"
    show ?thesis
    proof (cases "find_child ?n (children d)")
      case (Some c)
      from 1(3) ne Some obtain q' c' where q: "create_loop c ?r h = ((q', c'), h')"
        "d' = Mo_Dir (dir_name d) (plugin d) (replace_child ?n c' (children d))"
        by (subst (asm) create_loop.simps) (auto simp: Let_def split: prod.splits)
      have "dir_name c' = ?n" using create_loop_name [OF q(1)] find_child_name [OF Some] by simp
      moreover have "wf_dir c'" using 1(2) [OF ne refl refl Some q(1)] wf_found [OF 1(4) Some] .
      ultimately show ?thesis unfolding q(2) by (intro wf_replace [OF 1(4)])
    next
      case None
      from 1(3) False None obtain nm h1 h2 q' c' where q: "malloc () h = (Some (), h1)"
        "strdup ?n h1 = (Some nm, h2)" "create_loop (Mo_Dir nm None []) ?r h2 = ((q', c'), h')"
        "d' = Mo_Dir (dir_name d) (plugin d) (c' # children d)"
        by (subst (asm) create_loop.simps) (auto simp: Let_def split: prod.splits option.splits)
      have n: "dir_name c' = ?n" using create_loop_name [OF q(3)] malloc_SomeD [OF q(2)] by simp
      have "wf_dir c'"
        by (rule 1(1) [OF ne refl refl None q(1) [symmetric] refl q(2) [symmetric] refl q(3)]) simp
      then show ?thesis using q(4) None n 1(4) wf_dir_iff [of d] by (auto simp: find_child_None)
    qed
  qed
qed

lemma unlink_plugin_at:
  "wf_dir d \<Longrightarrow> dir_at d p \<noteq> None \<Longrightarrow> p \<noteq> [] \<Longrightarrow>
     plugin_at (unlink d p) q = (if prefix p q then None else plugin_at d q)"
proof (induction d p arbitrary: q rule: unlink.induct)
  case (2 d n)
  then show ?case by (cases q) (auto simp: find_unlink_child wf_dir_iff [of d])
next
  case (3 d n m ns)
  then obtain c where c: "find_child n (children d) = Some c" "dir_at c (m # ns) \<noteq> None"
    by (auto split: option.splits)
  have "wf_dir c" by (rule wf_found [OF 3(2) c(1)])
  from 3(1) [OF c(1) this c(2)] show ?case
    using c find_child_name [OF c(1)] by (cases q) (auto simp: find_replace [OF _ c(1)])
qed simp

section \<open>Properties of registration\<close>

lemma createMoDir_val:
  assumes "prv_createMoDir b s = (Val p, t)"
  shows "p = base_path b \<and> MOs t = (MOs s)\<lparr>root := make_dirs (root (MOs s)) p\<rparr> \<and> world t = world s"
proof -
  obtain n s1 where m: "strdup b s = (n, s1)" by (metis surj_pair)
  obtain r d s2 where l: "create_loop (root (MOs s1)) (strip_dot b) s1 = ((r, d), s2)" by (metis surj_pair)
  have n: "n = Some b" using m assms malloc_SomeD [of b s _ s1]
    by (cases n) (simp_all add: prv_createMoDir_def cmd_defs)
  have c: "create_loop (root (MOs s1)) (strip_dot b) s1 = ((Some p, d), s2)"
    and t: "t = s2\<lparr>MOs := (MOs s2)\<lparr>root := d\<rparr>\<rparr>"
    using assms m l n by (auto simp: prv_createMoDir_def cmd_defs split: option.splits if_splits)
  show ?thesis
    using malloc_env [OF m] create_loop_Some [OF c] create_loop_env [OF c] t
    by (simp add: base_path_segments)
qed

lemma createMoDir_plenty:
  assumes "plenty s" and "b \<noteq> ''.''"
  shows "\<exists>p t. prv_createMoDir b s = (Val p, t) \<and> plenty t"
proof -
  obtain p d where "create_loop (root (MOs s)) (strip_dot b) s = ((Some p, d), s)"
    using create_loop_plenty [OF assms(1)] by blast
  then show ?thesis
    using assms by (simp add: prv_createMoDir_def DMC_FAIL_NULL_def DMC_FAIL_ERR_def)
qed

text \<open>The state after the \<open>initFunc\<close> of an object, and the descriptor it is registered with.\<close>

definition plugin_for :: "'w omadm_mo_interface_t \<Rightarrow> 'w \<Rightarrow> 'w dmtree_plugin_t" where
  "plugin_for i w =
     \<lparr>interface = i, plugin_data = (case initFunc i of None \<Rightarrow> 0 | Some f \<Rightarrow> snd (fst (f w)))\<rparr>"

lemma add_plugin_val:
  assumes "momgr_add_plugin (Some i) s = (Val (), t)" and b: "base_uri i = Some b"
  shows "MOs t = (MOs s)\<lparr>root := set_plugin (make_dirs (root (MOs s)) (base_path b)) (base_path b)
      (Some (plugin_for i (world s)))\<rparr>" and "b \<noteq> ''.''" and "plenty s \<Longrightarrow> plenty t"
proof -
  obtain f where f': "initFunc i = Some f"
    using assms(1) by (cases "initFunc i") (simp_all add: momgr_add_plugin_def cmd_defs)
  obtain c d s1 where w': "on_world f s = ((c, d), s1)" by (metis surj_pair)
  have f: "initFunc i = Some f" "on_world f s = ((0, d), s1)"
    and r: "register_plugin i d s1 = (Val (), t)"
    using assms(1) f' w' by (auto simp: momgr_add_plugin_def cmd_defs split: if_splits)
  from r b obtain p s2 where b': "b \<noteq> ''.''" and c: "prv_createMoDir b s1 = (Val p, s2)"
    and pl: "place_plugin p \<lparr>interface = i, plugin_data = d\<rparr> s2 = (Val (), t)"
    by (auto simp: register_plugin_def cmd_val)
  have w: "plugin_for i (world s) = \<lparr>interface = i, plugin_data = d\<rparr>"
    using f by (simp add: plugin_for_def on_world_def split: prod.splits)
  obtain s3 where t: "malloc \<lparr>interface = i, plugin_data = d\<rparr> s2 = (Some (plugin_for i (world s)), s3)"
      "t = s3\<lparr>MOs := (MOs s3)\<lparr>root := set_plugin (root (MOs s3)) p (Some (plugin_for i (world s)))\<rparr>\<rparr>"
    using pl by (auto simp: place_plugin_def w Let_def split: prod.splits option.splits if_splits dest: malloc_SomeD)
  show "b \<noteq> ''.''" by (rule b')
  show "MOs t = (MOs s)\<lparr>root := set_plugin (make_dirs (root (MOs s)) (base_path b)) (base_path b)
      (Some (plugin_for i (world s)))\<rparr>"
    using createMoDir_val [OF c] malloc_env [OF t(1)] on_worldD [OF f(2)] t(2) by simp
  show "plenty t" if "plenty s"
  proof -
    have "plenty s1" using on_worldD [OF f(2)] that by simp
    then have "plenty s2" using createMoDir_plenty [OF _ b', of s1] c by auto
    then show ?thesis using t by simp
  qed
qed

lemma add_plugin_lookup:
  assumes "momgr_add_plugin (Some i) s = (Val (), t)" and "base_uri i = Some b"
  shows "plugin_at (root (MOs t)) =
    (plugin_at (root (MOs s)))(base_path b \<mapsto> plugin_for i (world s))"
  using add_plugin_val(1) [OF assms] by (simp add: mo_dir.lookup_assign_fun)

text \<open>
  C10. After a successful registration under a base URI in which no allocation failed, the next
  lookup of a URI that was not cached before finds the new object at and below the base URI, except
  below objects nested deeper, and what was registered before everywhere else; the lookup of the
  cached URI returns the object cached before the registration, also where the new object is now
  the one responsible.
\<close>

theorem add_plugin_then_find:
  assumes "plenty s" and "momgr_add_plugin (Some i) s = (Val (), t)" and "base_uri i = Some b"
  shows "fst (prv_findPlugin uri t) =
    (if last_uri (MOs s) = Some uri then last_plugin (MOs s)
     else longest ((plugin_at (root (MOs s)))(base_path b \<mapsto> plugin_for i (world s))) (path_of uri))"
proof (cases "last_uri (MOs s) = Some uri")
  case True
  then show ?thesis using add_plugin_val(1) [OF assms(2,3)] by (simp add: prv_findPlugin_def)
next
  case False
  then have "last_uri (MOs t) \<noteq> Some uri" using add_plugin_val(1) [OF assms(2,3)] by simp
  then have "fst (prv_findPlugin uri t) = responsible (MOs t) uri"
    using findPlugin_plenty [OF add_plugin_val(3) [OF assms(2,3,1)]] by (metis prod.collapse)
  then show ?thesis using False by (simp add: responsible_def add_plugin_lookup [OF assms(2,3)])
qed

text \<open>
  \<open>momgr_add_plugin\<close> leaves a stale cache: if the URI looked up last is the one the object
  is registered at, the manager goes on returning the object it returned before, although the
  directory now has the new one.
\<close>

theorem add_plugin_stale_cache:
  assumes "momgr_add_plugin (Some i) s = (Val (), t)" and "base_uri i = Some uri"
    and "path_of uri = base_path uri" and "last_uri (MOs s) = Some uri"
  shows "fst (prv_findPlugin uri t) = last_plugin (MOs s) \<and>
    responsible (MOs t) uri = Some (plugin_for i (world s))"
proof
  show "fst (prv_findPlugin uri t) = last_plugin (MOs s)"
    using add_plugin_val(1) [OF assms(1,2)] assms(4) by (simp add: prv_findPlugin_def)
  show "responsible (MOs t) uri = Some (plugin_for i (world s))"
    by (simp only: responsible_def add_plugin_lookup [OF assms(1,2)] assms(3) longest_upd_here)
qed

text \<open>
  Without a failed allocation, a registration that is refused (a null object, no
  \<open>initFunc\<close>, an \<open>initFunc\<close> that fails, the root, an invalid base URI) changes nothing in the
  manager.
\<close>

theorem add_plugin_refused:
  assumes "plenty s" and "momgr_add_plugin iPlugin s = (Err e, t)"
  shows "MOs t = MOs s"
proof -
  have reg: "MOs u = MOs s1" if p: "plenty s1" and r: "register_plugin i d s1 = (Err e, u)" for i d s1 u
  proof (cases "base_uri i")
    case (Some b)
    show ?thesis
    proof (cases "b = ''.'' \<or> uri_validate_path (strip_dot b) (max_depth (MOs s1)) (max_segment_len (MOs s1)) \<noteq> Val ()")
      case True
      then show ?thesis using r Some
        by (auto simp: register_plugin_def cmd_defs split: outcome.splits if_splits)
    next
      case False
      then obtain p s2 where c: "prv_createMoDir b s1 = (Val p, s2)" "plenty s2"
        using createMoDir_plenty [OF p] by blast
      then show ?thesis using r Some False
        by (simp add: register_plugin_def DMC_FAIL_ERR_def DMC_FAIL_def lift_def place_plugin_def)
    qed
  qed (use r in \<open>simp add: register_plugin_def\<close>)
  show ?thesis
  proof (cases "iPlugin = None \<or> (\<exists>i. iPlugin = Some i \<and> initFunc i = None)")
    case True
    then show ?thesis using assms(2) by (auto simp: momgr_add_plugin_def cmd_defs)
  next
    case False
    then obtain i f where i: "iPlugin = Some i" "initFunc i = Some f" by auto
    obtain c d s1 where w: "on_world f s = ((c, d), s1)" by (metis surj_pair)
    note e = on_worldD [OF w]
    show ?thesis
    proof (cases "c = 0")
      case True
      then show ?thesis using assms(2) i w reg [of s1 i d t] e assms(1)
        by (simp add: momgr_add_plugin_def DMC_FAIL_NULL_def pure_def)
    next
      case False
      then show ?thesis using assms(2) i w e by (simp add: momgr_add_plugin_def DMC_FAIL_NULL_def pure_def)
    qed
  qed
qed

text \<open>
  C11. Under every schedule of allocations, \<open>momgr_add_plugin\<close> keeps the directory well formed:
  no two siblings share a name, so every path names at most one directory.
\<close>

theorem add_plugin_keeps_wf:
  fixes s :: "('w, 'z) mo_env_scheme"
  assumes "wf_dir (root (MOs s))" and "momgr_add_plugin iPlugin s = (r, t)"
  shows "wf_dir (root (MOs t))"
proof -
  have create: "keeps (\<lambda>s :: ('w, 'z) mo_env_scheme. wf_dir (root (MOs s))) (prv_createMoDir b)" for b
  proof (rule keepsI)
    fix s :: "('w, 'z) mo_env_scheme"
    assume w: "wf_dir (root (MOs s))"
    obtain c s1 where m: "strdup b s = (c, s1)" by (metis surj_pair)
    obtain r d s2 where l: "create_loop (root (MOs s1)) (strip_dot b) s1 = ((r, d), s2)" by (metis surj_pair)
    have "wf_dir d" using wf_create_loop [OF l] malloc_env [OF m] w by simp
    then show "wf_dir (root (MOs (snd (prv_createMoDir b s))))"
      using m l malloc_env [OF m] w malloc_SomeD [of b s _ s1]
      by (cases c) (auto simp: prv_createMoDir_def cmd_defs split: option.splits)
  qed
  have place: "keeps (\<lambda>s :: ('w, 'z) mo_env_scheme. wf_dir (root (MOs s))) (place_plugin p x)" for p x
  proof (rule keepsI)
    fix s :: "('w, 'z) mo_env_scheme"
    assume w: "wf_dir (root (MOs s))"
    obtain c s1 where m: "malloc x s = (c, s1)" by (metis surj_pair)
    have "wf_dir (root (MOs s1))" using malloc_env [OF m] w by simp
    then have "wf_dir (set_plugin (root (MOs s1)) p y)" for y by (rule wf_set_plugin)
    then show "wf_dir (root (MOs (snd (place_plugin p x s))))"
      using m \<open>wf_dir (root (MOs s1))\<close>
      by (cases c) (simp_all add: place_plugin_def Let_def wf_unlink)
  qed
  have reg: "keeps (\<lambda>s :: ('w, 'z) mo_env_scheme. wf_dir (root (MOs s))) (register_plugin i d)" for i d
  proof (rule keepsI)
    fix s :: "('w, 'z) mo_env_scheme"
    assume w: "wf_dir (root (MOs s))"
    have "keeps (\<lambda>s :: ('w, 'z) mo_env_scheme. wf_dir (root (MOs s)))
        (DMC_FAIL_ERR (b = ''.'') e (DMC_FAIL (lift v) (\<lambda>_ :: unit.
           DMC_FAIL (prv_createMoDir b) (\<lambda>p. place_plugin p x))))" for b e v x
      by (intro keeps_rules create place)
    then show "wf_dir (root (MOs (snd (register_plugin i d s))))"
      using w by (auto simp: register_plugin_def keeps_def split: option.splits)
  qed
  have reg': "wf_dir (root (MOs t))" if "register_plugin i d (s\<lparr>world := w\<rparr>) = (r, t)" for i d w
    using keepsD [OF reg _ that] assms(1) by simp
  show ?thesis
    using assms reg'
    by (auto simp: momgr_add_plugin_def cmd_defs on_world_def split: option.splits prod.splits if_splits)
qed

text \<open>
  When the descriptor of a registration cannot be allocated and its directory existed
  already, the whole directory is thrown away: every object registered at or below the base URI,
  by earlier successful calls, is lost.
\<close>

theorem add_plugin_drops_nested:
  assumes "wf_dir (root (MOs s))" and "initFunc i = Some f" and "f (world s) = ((0, d), w)"
    and "base_uri i = Some b" and "b \<noteq> ''.''"
    and "uri_validate_path (strip_dot b) (max_depth (MOs s)) (max_segment_len (MOs s)) = Val ()"
    and "dir_at (root (MOs s)) (base_path b) \<noteq> None" and "base_path b \<noteq> []"
    and "mem s = [True, False]"
  shows "\<exists>t. momgr_add_plugin (Some i) s = (Err OMADM_SYNCML_ERROR_DEVICE_FULL, t) \<and>
    (\<forall>q. plugin_at (root (MOs t)) q =
      (if prefix (base_path b) q then None else plugin_at (root (MOs s)) q))"
proof -
  let ?p = "base_path b"
  let ?d = "make_dirs (root (MOs s)) ?p"
  have e: "dir_at (root (MOs s)) (segments (strip_dot b)) \<noteq> None"
    using assms(7) by (simp add: base_path_segments)
  have c: "prv_createMoDir b (s\<lparr>world := w\<rparr>) =
      (Val ?p, s\<lparr>world := w, mem := [False], MOs := (MOs s)\<lparr>root := ?d\<rparr>\<rparr>)"
    using assms(5,9) create_loop_exists [OF e, of "s\<lparr>world := w, mem := [False]\<rparr>"]
    by (simp add: prv_createMoDir_def DMC_FAIL_NULL_def DMC_FAIL_ERR_def malloc_def base_path_segments)
  let ?u = "unlink (set_plugin ?d ?p None) ?p"
  have "plugin_at ?u q = (if prefix ?p q then None else plugin_at (set_plugin ?d ?p None) q)" for q
    by (rule unlink_plugin_at [OF wf_set_plugin [OF wf_make_dirs [OF assms(1)]]
          dir_at_set_plugin [OF make_dirs_dir_at] assms(8)])
  then have u: "plugin_at ?u q = (if prefix ?p q then None else plugin_at (root (MOs s)) q)" for q
    by (simp add: mo_dir.lookup_assign)
  have "momgr_add_plugin (Some i) s =
      place_plugin ?p \<lparr>interface = i, plugin_data = d\<rparr>
        (s\<lparr>world := w, mem := [False], MOs := (MOs s)\<lparr>root := ?d\<rparr>\<rparr>)"
    using assms(2,3,4,5,6) c
    by (simp add: momgr_add_plugin_def DMC_FAIL_NULL_def pure_def on_world_def register_plugin_def
        DMC_FAIL_ERR_def DMC_FAIL_def lift_def)
  then show ?thesis
    using u assms(8) by (simp add: place_plugin_def malloc_def Let_def)
qed

section \<open>Witnesses\<close>

text \<open>
  A manager with the default limits, an object at \<^verbatim>\<open>./DevInfo\<close> and one at \<^verbatim>\<open>./DevInfo/Ext\<close>,
  and an object that registers at \<^verbatim>\<open>./DevInfo/Ext\<close>.
\<close>

definition sample_mo :: "string \<Rightarrow> nat omadm_mo_interface_t" where
  "sample_mo uri = interface_zero\<lparr>base_uri := Some uri, initFunc := Some (\<lambda>w. ((0, w), w + 1))\<rparr>"

definition sample_dirs :: "nat mo_dir_t" where
  "sample_dirs = Mo_Dir ''.'' (Some \<lparr>interface = interface_zero, plugin_data = 0\<rparr>)
     [Mo_Dir ''DevInfo'' (Some \<lparr>interface = sample_mo ''./DevInfo'', plugin_data = 1\<rparr>)
        [Mo_Dir ''Ext'' (Some \<lparr>interface = sample_mo ''./DevInfo/Ext'', plugin_data = 2\<rparr>) []]]"

definition sample_env :: "bool list \<Rightarrow> string option \<Rightarrow> nat mo_env" where
  "sample_env m u = \<lparr>mem = m, world = 3,
     MOs = \<lparr>root = sample_dirs, max_depth = 0, max_total_len = 0, max_segment_len = 0,
            last_uri = u, last_plugin = Some \<lparr>interface = sample_mo ''./DevInfo/Ext'', plugin_data = 2\<rparr>\<rparr>\<rparr>"

lemmas sample_defs = sample_env_def sample_dirs_def sample_mo_def interface_zero_def

lemma sample_add:
  "fst (momgr_add_plugin (Some (sample_mo ''./New'')) (sample_env [] None)) = Val ()"
  "fst (momgr_add_plugin (Some (sample_mo ''./DevInfo/Ext'')) (sample_env [] (Some ''./DevInfo/Ext''))) = Val ()"
  "fst (momgr_add_plugin (Some (sample_mo ''.'')) (sample_env [] None)) = Err OMADM_SYNCML_ERROR_NOT_ALLOWED"
  by code_simp+

lemma sample_wf: "wf_dir (root (MOs (sample_env m u)))"
  by (simp add: sample_defs)

theorem findPlugin_longest_prefix_witness:
  "map_option plugin_data (fst (prv_findPlugin ''./DevInfo/Ext/Name'' (sample_env [] None))) = Some 2"
proof -
  have "longest (plugin_at (root (MOs (sample_env [] None)))) (path_of ''./DevInfo/Ext/Name'') =
      Some \<lparr>interface = sample_mo ''./DevInfo/Ext'', plugin_data = 2\<rparr>"
    by (simp add: sample_env_def sample_dirs_def path_of_def strip_dot_def)
  then show ?thesis
    using findPlugin_longest_prefix [of "sample_env [] None" "''./DevInfo/Ext/Name''"]
    by (auto simp: cache_ok_def sample_env_def)
qed

theorem add_plugin_then_find_witness:
  "map_option plugin_data (fst (prv_findPlugin ''./New/A''
     (snd (momgr_add_plugin (Some (sample_mo ''./New'')) (sample_env [] None))))) = Some 3"
proof -
  have a: "momgr_add_plugin (Some (sample_mo ''./New'')) (sample_env [] None) =
      (Val (), snd (momgr_add_plugin (Some (sample_mo ''./New'')) (sample_env [] None)))"
    by (metis sample_add(1) prod.collapse)
  have f: "fst (prv_findPlugin ''./New/A''
      (snd (momgr_add_plugin (Some (sample_mo ''./New'')) (sample_env [] None)))) =
    (if last_uri (MOs (sample_env [] None)) = Some ''./New/A'' then last_plugin (MOs (sample_env [] None))
     else longest ((plugin_at (root (MOs (sample_env [] None))))(base_path ''./New'' \<mapsto>
      plugin_for (sample_mo ''./New'') (world (sample_env [] None)))) (path_of ''./New/A''))"
    by (rule add_plugin_then_find [OF _ a]) (simp_all add: sample_env_def sample_mo_def)
  show ?thesis
    unfolding f by (simp add: sample_defs base_path_def pieces_def path_of_def strip_dot_def plugin_for_def)
qed

theorem add_plugin_stale_cache_witness:
  "map_option plugin_data (fst (prv_findPlugin ''./DevInfo/Ext''
     (snd (momgr_add_plugin (Some (sample_mo ''./DevInfo/Ext''))
       (sample_env [] (Some ''./DevInfo/Ext'')))))) = Some 2"
proof -
  let ?s = "sample_env [] (Some ''./DevInfo/Ext'')"
  have a: "momgr_add_plugin (Some (sample_mo ''./DevInfo/Ext'')) ?s =
      (Val (), snd (momgr_add_plugin (Some (sample_mo ''./DevInfo/Ext'')) ?s))"
    by (metis sample_add(2) prod.collapse)
  have "fst (prv_findPlugin ''./DevInfo/Ext''
      (snd (momgr_add_plugin (Some (sample_mo ''./DevInfo/Ext'')) ?s))) = last_plugin (MOs ?s)"
    by (rule conjunct1 [OF add_plugin_stale_cache [OF a]])
      (simp_all add: sample_env_def sample_mo_def base_path_def pieces_def path_of_def strip_dot_def)
  then show ?thesis by (simp add: sample_env_def)
qed

theorem add_plugin_refused_witness:
  "MOs (snd (momgr_add_plugin (Some (sample_mo ''.'')) (sample_env [] None))) =
     MOs (sample_env [] None)"
proof (rule add_plugin_refused)
  show "momgr_add_plugin (Some (sample_mo ''.'')) (sample_env [] None) =
      (Err OMADM_SYNCML_ERROR_NOT_ALLOWED,
       snd (momgr_add_plugin (Some (sample_mo ''.'')) (sample_env [] None)))"
    by (metis sample_add(3) prod.collapse)
qed (simp add: sample_env_def)

theorem add_plugin_keeps_wf_witness:
  "wf_dir (root (MOs (snd (momgr_add_plugin (Some (sample_mo ''./DevInfo/A/B''))
     (sample_env [True, True, False] None)))))"
  by (rule add_plugin_keeps_wf [OF sample_wf prod.collapse [symmetric]])

theorem add_plugin_drops_nested_witness:
  "\<exists>t. momgr_add_plugin (Some (sample_mo ''./DevInfo'')) (sample_env [True, False] None) =
       (Err OMADM_SYNCML_ERROR_DEVICE_FULL, t) \<and>
     plugin_at (root (MOs t)) [''DevInfo'', ''Ext''] = None \<and>
     plugin_at (root (MOs (sample_env [True, False] None))) [''DevInfo'', ''Ext''] \<noteq> None"
proof -
  have "uri_validate_path ''DevInfo'' 0 0 = Val ()" by code_simp
  then have "\<exists>t. momgr_add_plugin (Some (sample_mo ''./DevInfo'')) (sample_env [True, False] None) =
       (Err OMADM_SYNCML_ERROR_DEVICE_FULL, t) \<and>
     (\<forall>q. plugin_at (root (MOs t)) q = (if prefix (base_path ''./DevInfo'') q then None
        else plugin_at (root (MOs (sample_env [True, False] None))) q))"
    by (intro add_plugin_drops_nested [OF sample_wf, where f = "\<lambda>w. ((0, w), w + 1)" and d = 3 and w = 4])
      (simp_all add: sample_defs base_path_def pieces_def strip_dot_def)
  moreover have "plugin_at (root (MOs (sample_env [True, False] None))) [''DevInfo'', ''Ext''] \<noteq> None"
    by (simp add: sample_defs)
  ultimately show ?thesis by (auto simp: base_path_def pieces_def strip_dot_def simp del: plugin_at_Cons)
qed

end
