(* ===== verification/Mo_Mgr.thy ===== *)
theory Mo_Mgr
  imports Mo_Dirs
begin

text \<open>
  The operations of the MO manager (the rest of \<^verbatim>\<open>dmcore/src/momgr.c\<close>) and the default
  object at the root (\<^verbatim>\<open>dmcore/src/defaultroot.c\<close>).

  A \<^verbatim>\<open>const char *\<close> the code tests against null is an option.  Callbacks return the SyncML code
  with the values of their out parameters.
\<close>

section \<open>The default root object\<close>

text \<open>
  The callbacks run in the world, so the \<^verbatim>\<open>strdup\<close> they call is a parameter \<open>dup\<close> over it.
\<close>

definition prv_init :: "'w \<Rightarrow> (int \<times> mo_data) \<times> 'w" where
  "prv_init w = ((OMADM_SYNCML_ERROR_NONE, 0), w)"

definition prv_isNode :: "string \<Rightarrow> mo_data \<Rightarrow> 'w \<Rightarrow> (int \<times> omadmtree_node_kind_t) \<times> 'w" where
  "prv_isNode uri d w =
     ((OMADM_SYNCML_ERROR_NONE,
       if uri = ''.'' then OMADM_NODE_IS_INTERIOR else OMADM_NODE_NOT_EXIST), w)"

definition prv_getACL ::
  "(string \<Rightarrow> 'w \<Rightarrow> string option \<times> 'w) \<Rightarrow> string \<Rightarrow> mo_data \<Rightarrow> 'w \<Rightarrow> (int \<times> string option) \<times> 'w"
where
  "prv_getACL dup uri d w =
     (if uri \<noteq> ''.'' then ((OMADM_SYNCML_ERROR_NOT_FOUND, None), w)
      else case dup ''Get=*'' w of (acl, w) \<Rightarrow> ((OMADM_SYNCML_ERROR_NONE, acl), w))"

definition prv_get ::
  "(string \<Rightarrow> 'w \<Rightarrow> string option \<times> 'w) \<Rightarrow> dmtree_node_t \<Rightarrow> mo_data \<Rightarrow> 'w \<Rightarrow>
     (int \<times> dmtree_node_t) \<times> 'w"
where
  "prv_get dup node d w =
     (if node_uri node \<noteq> Some ''.'' then ((OMADM_SYNCML_ERROR_NOT_FOUND, node), w)
      else case dup ''node'' w of
        (f, w) \<Rightarrow> ((OMADM_SYNCML_ERROR_NONE,
                   node\<lparr>node_format := f, data_size := 0, data_buffer := None\<rparr>), w))"

definition getDefaultRootPlugin ::
  "(string \<Rightarrow> 'w \<Rightarrow> string option \<times> 'w) \<Rightarrow> 'z heap_scheme \<Rightarrow>
     'w omadm_mo_interface_t option \<times> 'z heap_scheme"
where
  "getDefaultRootPlugin dup h =
     (case malloc () h of
        (None, h) \<Rightarrow> (None, h)
      | (Some _, h) \<Rightarrow>
          (case strdup ''.'' h of
             (b, h) \<Rightarrow>
               (Some (interface_zero\<lparr>base_uri := b, initFunc := Some prv_init, isNodeFunc := Some prv_isNode,
                  getACLFunc := Some (prv_getACL dup), getFunc := Some (prv_get dup)\<rparr>), h)))"

section \<open>Numbers in nodes\<close>

text \<open>
  \<open>num_loop\<close> is the loop of \<open>prv_get_number\<close>: \<open>mul\<close> is 0 before the first digit.  The
  arithmetic is on a 32-bit \<^verbatim>\<open>int\<close>, so a value above its maximum is undefined.
\<close>

definition INT_MAX :: int where
  "INT_MAX = 2 ^ 31 - 1"

definition is_digit :: "char \<Rightarrow> bool" where
  "is_digit c \<longleftrightarrow> in_range CHR ''0'' CHR ''9'' c"

definition digit :: "char \<Rightarrow> int" where
  "digit c = of_char c - 48"

fun num_loop :: "string \<Rightarrow> int \<Rightarrow> int \<Rightarrow> int outcome" where
  "num_loop [] mul result = Val result"
| "num_loop (c # cs) mul result =
     (if is_digit c then
        let r = (if mul = 0 then result else result * mul) + digit c
        in if r > INT_MAX then Ub else num_loop cs 10 r
      else Val (- 1))"

text \<open>The terminator after the buffer is no digit, so a size beyond it ends the loop there.\<close>

definition prv_get_number :: "string option \<Rightarrow> nat \<Rightarrow> int outcome" where
  "prv_get_number buf len =
     (if len = 0 then Val 0
      else case buf of None \<Rightarrow> Ub | Some b \<Rightarrow> num_loop (take len (b @ [CHR 0x00])) 0 0)"

text \<open>The code and, when \<open>getFunc\<close> succeeds, the number stored through \<^verbatim>\<open>resultP\<close>.\<close>

definition prv_get_short ::
  "'w dmtree_plugin_t \<Rightarrow> string \<Rightarrow> (('w, 'z) mo_env_scheme, int \<times> 16 word option) cmd" where
  "prv_get_short p iURI s =
     (case getFunc (interface p) of
        None \<Rightarrow> (Ub, s)
      | Some f \<Rightarrow>
          (case on_world (f (node_zero\<lparr>node_uri := Some iURI\<rparr>) (plugin_data p)) s of
             ((c, node), s) \<Rightarrow>
               if c \<noteq> OMADM_SYNCML_ERROR_NONE then (Val (c, None), s)
               else case prv_get_number (data_buffer node) (data_size node) of
                 Val number \<Rightarrow>
                   (Val (if number < 0 \<or> number > 0xFFFF then OMADM_SYNCML_ERROR_SESSION_INTERNAL
                         else OMADM_SYNCML_ERROR_NONE,
                         Some (word_of_int number)), s)
               | Err e \<Rightarrow> (Err e, s)
               | Ub \<Rightarrow> (Ub, s)))"

section \<open>Searching for a URN\<close>

definition own_urn ::
  "'w dmtree_plugin_t option \<Rightarrow> string \<Rightarrow> string list option \<Rightarrow>
     (('w, 'z) mo_env_scheme, string list option) cmd"
where
  "own_urn p iUrn list s =
     (case p of
        None \<Rightarrow> (Val list, s)
      | Some p \<Rightarrow>
          (case findURNFunc (interface p) of
             None \<Rightarrow> (Val list, s)
           | Some f \<Rightarrow>
               (case on_world (f iUrn (plugin_data p)) s of
                  ((c, result), s) \<Rightarrow>
                    if c = OMADM_SYNCML_ERROR_NONE then strArray_concat list result s
                    else (Val list, s))))"

fun prv_findUrn ::
  "'w mo_dir_t \<Rightarrow> string \<Rightarrow> string list option \<Rightarrow> (('w, 'z) mo_env_scheme, string list option) cmd"
and findUrn_children ::
  "'w mo_dir_t list \<Rightarrow> string \<Rightarrow> string list option \<Rightarrow> (('w, 'z) mo_env_scheme, string list option) cmd"
where
  "prv_findUrn (Mo_Dir name p cs) iUrn list =
     DMC_FAIL (own_urn p iUrn list) (\<lambda>list. findUrn_children cs iUrn list)"
| "findUrn_children [] iUrn list = ret list"
| "findUrn_children (child # next) iUrn list =
     DMC_FAIL (prv_findUrn child iUrn list) (\<lambda>list. findUrn_children next iUrn list)"

text \<open>A failed \<^verbatim>\<open>strdup\<close> of the base URI reaches \<open>getFunc\<close> as a node without a URI.\<close>

definition prv_getChildrenUrl ::
  "'w mo_dir_t \<Rightarrow> string \<Rightarrow> (('w, 'z) mo_env_scheme, string list option) cmd" where
  "prv_getChildrenUrl dirP baseUri s =
     (case plugin dirP of
        None \<Rightarrow> (Val None, s)
      | Some p \<Rightarrow>
          (case getFunc (interface p) of
             None \<Rightarrow> (Val None, s)
           | Some f \<Rightarrow>
               (case strdup baseUri s of
                  (u, s) \<Rightarrow>
                    (case on_world (f (node_zero\<lparr>node_uri := u\<rparr>) (plugin_data p)) s of
                       ((c, node), s) \<Rightarrow>
                         if c = OMADM_SYNCML_ERROR_NONE \<and> data_size node \<noteq> 0 then
                           (case data_buffer node of
                              None \<Rightarrow> (Ub, s)
                            | Some b \<Rightarrow> strArray_buildChildList baseUri b (data_size node) s)
                         else (Val None, s)))))"

section \<open>The life of a manager\<close>

text \<open>
  \<open>momgr_init\<close> does not check that the default root object could be allocated: the manager it
  then returns holds a null interface, which its first use dereferences.  The model ends there.
\<close>

definition momgr_init ::
  "(string \<Rightarrow> 'w \<Rightarrow> string option \<times> 'w) \<Rightarrow> ('z heap_scheme, 'w mo_mgr_t option) cmd" where
  "momgr_init dup h =
     (case malloc () h of
        (None, h) \<Rightarrow> (Val None, h)
      | (Some _, h) \<Rightarrow>
     (case malloc () h of
        (None, h) \<Rightarrow> (Val None, h)
      | (Some _, h) \<Rightarrow>
     (case strdup ''.'' h of
        (None, h) \<Rightarrow> (Val None, h)
      | (Some name, h) \<Rightarrow>
     (case malloc () h of
        (None, h) \<Rightarrow> (Val None, h)
      | (Some _, h) \<Rightarrow>
     (case getDefaultRootPlugin dup h of
        (None, h) \<Rightarrow> (Ub, h)
      | (Some i, h) \<Rightarrow>
          (Val (Some \<lparr>root = Mo_Dir name (Some \<lparr>interface = i, plugin_data = 0\<rparr>) [],
             max_depth = 0, max_total_len = 0, max_segment_len = 0,
             last_uri = None, last_plugin = None\<rparr>), h))))))"

definition momgr_free :: "('w, 'z) mo_env_scheme \<Rightarrow> ('w, 'z) mo_env_scheme" where
  "momgr_free s = s\<lparr>world := prv_freeMoDir (root (MOs s)) (world s)\<rparr>"

definition URN_MO_DMACC :: string where
  "URN_MO_DMACC = ''urn:oma:mo:oma-dm-dmacc:1.0''"

text \<open>One limit: the field is assigned whenever the node could be read.\<close>

definition read_limit ::
  "'w dmtree_plugin_t \<Rightarrow> string \<Rightarrow> (16 word \<Rightarrow> 'w mo_mgr_t \<Rightarrow> 'w mo_mgr_t) \<Rightarrow>
     (('w, 'z) mo_env_scheme, unit) cmd"
where
  "read_limit p uri upd =
     DMC_FAIL (prv_get_short p uri) (\<lambda>(c, n) s.
       (if c = OMADM_SYNCML_ERROR_NONE then Val () else Err c,
        (case n of None \<Rightarrow> s | Some n \<Rightarrow> s\<lparr>MOs := upd n (MOs s)\<rparr>)))"

definition momgr_check_mandatory_mo :: "(('w, 'z) mo_env_scheme, unit) cmd" where
  "momgr_check_mandatory_mo =
     (\<lambda>s. DMC_FAIL (prv_findUrn (root (MOs s)) URN_MO_DMACC None) (\<lambda>urlList.
     DMC_FAIL_ERR (urlList = None) OMADM_SYNCML_ERROR_COMMAND_FAILED (
     DMC_FAIL_NULL (prv_findPlugin ''./DevInfo'') OMADM_SYNCML_ERROR_COMMAND_FAILED (\<lambda>_.
     DMC_FAIL_NULL (prv_findPlugin ''./DevDetail'') OMADM_SYNCML_ERROR_COMMAND_FAILED (\<lambda>p.
     DMC_FAIL_ERR (getFunc (interface p) = None) OMADM_SYNCML_ERROR_SESSION_INTERNAL (
     DMC_FAIL (read_limit p ''./DevDetail/URI/MaxDepth'' (\<lambda>n. max_depth_update (\<lambda>_. n))) (\<lambda>_.
     DMC_FAIL (read_limit p ''./DevDetail/URI/MaxTotLen'' (\<lambda>n. max_total_len_update (\<lambda>_. n))) (\<lambda>_.
     read_limit p ''./DevDetail/URI/MaxSegLen'' (\<lambda>n. max_segment_len_update (\<lambda>_. n))))))))) s)"

section \<open>Node operations\<close>

definition momgr_exists :: "string \<Rightarrow> (('w, 'z) mo_env_scheme, omadmtree_node_kind_t) cmd" where
  "momgr_exists iURI =
     DMC_FAIL_NULL (prv_findPlugin iURI) OMADM_SYNCML_ERROR_NOT_FOUND (\<lambda>p.
     DMC_FAIL_NULL (pure (isNodeFunc (interface p))) OMADM_SYNCML_ERROR_NOT_ALLOWED (\<lambda>f s.
       case on_world (f iURI (plugin_data p)) s of
         ((c, k), s) \<Rightarrow>
           if (c = OMADM_SYNCML_ERROR_NONE \<and> k = OMADM_NODE_NOT_EXIST) \<or> c = OMADM_SYNCML_ERROR_NOT_FOUND
           then (case prv_findMoDir [] (root (MOs s)) (strip_dot iURI) True s of
                   (Some _, s) \<Rightarrow> (Val OMADM_NODE_IS_INTERIOR, s)
                 | (None, s) \<Rightarrow>
                     (if c = OMADM_SYNCML_ERROR_NONE then Val OMADM_NODE_NOT_EXIST else Err c, s))
           else (if c = OMADM_SYNCML_ERROR_NONE then Val k else Err c, s)))"

text \<open>The loop that appends the names of nested directories to the list of children.\<close>

fun append_names :: "string list \<Rightarrow> dmtree_node_t \<Rightarrow> ('z heap_scheme, dmtree_node_t) cmd" where
  "append_names [] node = ret node"
| "append_names (name # next) node =
     (case data_buffer node of
        None \<Rightarrow>
          DMC_FAIL_NULL (case node_format node of None \<Rightarrow> strdup ''node'' | Some f \<Rightarrow> pure (Some f))
            OMADM_SYNCML_ERROR_DEVICE_FULL (\<lambda>f.
          DMC_FAIL_NULL (strdup name) OMADM_SYNCML_ERROR_DEVICE_FULL (\<lambda>b.
          append_names next (node\<lparr>node_format := Some f, data_buffer := Some b\<rparr>)))
      | Some b \<Rightarrow>
          DMC_FAIL_NULL (str_cat_3 b ''/'' name) OMADM_SYNCML_ERROR_DEVICE_FULL (\<lambda>tmp_str.
          append_names next (node\<lparr>data_buffer := Some tmp_str\<rparr>)))"

text \<open>
  The block on nested objects after the call of \<open>getFunc\<close>, whose code is \<open>c\<close>.  The code
  becomes a success when the first name is put into an empty node, and the size is set when the
  directory has children.
\<close>

definition nested_names ::
  "int \<Rightarrow> dmtree_node_t \<Rightarrow> string list \<Rightarrow> ('z heap_scheme, dmtree_node_t) cmd" where
  "nested_names c node names =
     DMC_FAIL (append_names names node) (\<lambda>node'.
     DMC_FAIL_ERR (c \<noteq> OMADM_SYNCML_ERROR_NONE \<and> (names = [] \<or> data_buffer node \<noteq> None)) c (
     ret (if names = [] then node'
          else node'\<lparr>data_size := (case data_buffer node' of None \<Rightarrow> data_size node' | Some b \<Rightarrow> length b)\<rparr>)))"

definition momgr_get_value :: "dmtree_node_t option \<Rightarrow> (('w, 'z) mo_env_scheme, dmtree_node_t) cmd"
where
  "momgr_get_value nodeP =
     DMC_FAIL_NULL (pure nodeP) OMADM_SYNCML_ERROR_SESSION_INTERNAL (\<lambda>node.
     case node_uri node of None \<Rightarrow> lift Ub | Some uri \<Rightarrow>
     DMC_FAIL_NULL (prv_findPlugin uri) OMADM_SYNCML_ERROR_NOT_FOUND (\<lambda>p.
     DMC_FAIL_NULL (pure (getFunc (interface p))) OMADM_SYNCML_ERROR_NOT_ALLOWED (\<lambda>f s.
       case on_world (f node (plugin_data p)) s of
         ((c, node), s) \<Rightarrow>
           if c = OMADM_SYNCML_ERROR_NONE \<and> node_format node = None then (Ub, s)
           else if (c = OMADM_SYNCML_ERROR_NONE \<and> node_format node = Some ''node'')
             \<or> c = OMADM_SYNCML_ERROR_NOT_FOUND
           then (case node_uri node of
                   None \<Rightarrow> (Ub, s)
                 | Some uri \<Rightarrow>
                     (case prv_findMoDir [] (root (MOs s)) (strip_dot uri) False s of
                        (None, s) \<Rightarrow> (if c = OMADM_SYNCML_ERROR_NONE then Val node else Err c, s)
                      | (Some chain, s) \<Rightarrow>
                          nested_names c node (map dir_name (children (hd chain))) s))
           else (if c = OMADM_SYNCML_ERROR_NONE then Val node else Err c, s))))"

definition momgr_set_value :: "dmtree_node_t option \<Rightarrow> (('w, 'z) mo_env_scheme, unit) cmd" where
  "momgr_set_value nodeP =
     DMC_FAIL_NULL (pure nodeP) OMADM_SYNCML_ERROR_SESSION_INTERNAL (\<lambda>node.
     case node_uri node of None \<Rightarrow> lift Ub | Some uri \<Rightarrow>
     DMC_FAIL_NULL (prv_findPlugin uri) OMADM_SYNCML_ERROR_NOT_FOUND (\<lambda>p.
     DMC_FAIL_NULL (pure (setFunc (interface p))) OMADM_SYNCML_ERROR_NOT_ALLOWED (\<lambda>f.
     code_call (f node (plugin_data p)))))"

text \<open>
  \<open>momgr_get_ACL\<close> returns its code together with the string left in \<^verbatim>\<open>*oACL\<close>, which the
  caller has set to null.
\<close>

definition momgr_get_ACL ::
  "string option \<Rightarrow> ('w, 'z) mo_env_scheme \<Rightarrow> (int \<times> string option) \<times> ('w, 'z) mo_env_scheme"
where
  "momgr_get_ACL iURI s =
     (case iURI of
        None \<Rightarrow> ((OMADM_SYNCML_ERROR_SESSION_INTERNAL, None), s)
      | Some uri \<Rightarrow>
          (case prv_findPlugin uri s of
             (None, s) \<Rightarrow> ((OMADM_SYNCML_ERROR_NOT_FOUND, None), s)
           | (Some p, s) \<Rightarrow>
               (case getACLFunc (interface p) of
                  None \<Rightarrow> ((OMADM_SYNCML_ERROR_NOT_ALLOWED, None), s)
                | Some f \<Rightarrow> on_world (f uri (plugin_data p)) s)))"

definition momgr_set_ACL :: "string option \<Rightarrow> string option \<Rightarrow> (('w, 'z) mo_env_scheme, unit) cmd"
where
  "momgr_set_ACL iURI iACL =
     DMC_FAIL_NULL (pure iURI) OMADM_SYNCML_ERROR_SESSION_INTERNAL (\<lambda>uri.
     DMC_FAIL_NULL (pure iACL) OMADM_SYNCML_ERROR_SESSION_INTERNAL (\<lambda>acl.
     DMC_FAIL_NULL (prv_findPlugin uri) OMADM_SYNCML_ERROR_NOT_FOUND (\<lambda>p.
     DMC_FAIL_NULL (pure (setACLFunc (interface p))) OMADM_SYNCML_ERROR_NOT_ALLOWED (\<lambda>f.
     code_call (f uri acl (plugin_data p))))))"

text \<open>A failed copy of the new name is a null pointer that \<open>uri_validate_path\<close> dereferences.\<close>

definition momgr_rename_node ::
  "string option \<Rightarrow> string option \<Rightarrow> (('w, 'z) mo_env_scheme, unit) cmd"
where
  "momgr_rename_node iURI iNewName =
     DMC_FAIL_NULL (pure iURI) OMADM_SYNCML_ERROR_SESSION_INTERNAL (\<lambda>uri.
     DMC_FAIL_NULL (pure iNewName) OMADM_SYNCML_ERROR_SESSION_INTERNAL (\<lambda>newName.
     DMC_FAIL_NULL (prv_findPlugin uri) OMADM_SYNCML_ERROR_NOT_FOUND (\<lambda>p.
     DMC_FAIL_NULL (pure (renameFunc (interface p))) OMADM_SYNCML_ERROR_NOT_ALLOWED (\<lambda>f s.
       case strdup newName s of
         (None, s) \<Rightarrow> (Ub, s)
       | (Some nameCopy, s) \<Rightarrow>
           DMC_FAIL (lift (uri_validate_path nameCopy 1 (max_segment_len (MOs s)))) (\<lambda>_.
           code_call (f uri newName (plugin_data p))) s))))"

definition momgr_delete_node :: "string option \<Rightarrow> (('w, 'z) mo_env_scheme, unit) cmd" where
  "momgr_delete_node iURI =
     DMC_FAIL_NULL (pure iURI) OMADM_SYNCML_ERROR_SESSION_INTERNAL (\<lambda>uri.
     DMC_FAIL_NULL (prv_findPlugin uri) OMADM_SYNCML_ERROR_NOT_FOUND (\<lambda>p.
     DMC_FAIL_NULL (pure (deleteFunc (interface p))) OMADM_SYNCML_ERROR_NOT_ALLOWED (\<lambda>f.
     code_call (f uri (plugin_data p)))))"

definition momgr_exec_node ::
  "string option \<Rightarrow> string option \<Rightarrow> string option \<Rightarrow> (('w, 'z) mo_env_scheme, unit) cmd"
where
  "momgr_exec_node iURI iData iCorrelator =
     DMC_FAIL_NULL (pure iURI) OMADM_SYNCML_ERROR_SESSION_INTERNAL (\<lambda>uri.
     DMC_FAIL_NULL (prv_findPlugin uri) OMADM_SYNCML_ERROR_NOT_FOUND (\<lambda>p.
     DMC_FAIL_NULL (pure (execFunc (interface p))) OMADM_SYNCML_ERROR_NOT_ALLOWED (\<lambda>f.
     code_call (f uri iData iCorrelator (plugin_data p)))))"

text \<open>\<open>oPropId\<close> says whether the caller passes an out pointer for the property.\<close>

definition momgr_validate_uri ::
  "string option \<Rightarrow> bool \<Rightarrow> bool \<Rightarrow> (('w, 'z) mo_env_scheme, string \<times> string option) cmd"
where
  "momgr_validate_uri uri oNodeURI oPropId s =
     uri_validate (max_total_len (MOs s)) (max_depth (MOs s)) (max_segment_len (MOs s))
       uri oNodeURI oPropId s"

section \<open>Finding a subtree\<close>

fun criteria_loop ::
  "string list \<Rightarrow> string \<Rightarrow> string \<Rightarrow> (('w, 'z) mo_env_scheme, string) cmd"
where
  "criteria_loop [] name v = DMC_FAIL_FORCE OMADM_SYNCML_ERROR_NOT_FOUND"
| "criteria_loop (url # urls) name v =
     DMC_FAIL_NULL (str_cat_3 url ''/'' name) OMADM_SYNCML_ERROR_DEVICE_FULL (\<lambda>uri.
     DMC_FAIL (momgr_get_value (Some (node_zero\<lparr>node_uri := Some uri\<rparr>))) (\<lambda>node.
     if length v \<noteq> data_size node then criteria_loop urls name v
     else case data_buffer node of
       None \<Rightarrow> lift Ub
     | Some b \<Rightarrow>
         if take (data_size node) b = v
         then DMC_FAIL_NULL (strdup url) OMADM_SYNCML_ERROR_DEVICE_FULL ret
         else criteria_loop urls name v))"

definition subtree_dir ::
  "string option \<Rightarrow> ('w, 'z) mo_env_scheme \<Rightarrow> 'w mo_dir_t list option \<times> ('w, 'z) mo_env_scheme" where
  "subtree_dir iUri s =
     (case iUri of
        None \<Rightarrow> (Some [root (MOs s)], s)
      | Some u \<Rightarrow> prv_findMoDir [] (root (MOs s)) (strip_dot u) False s)"

definition momgr_find_subtree ::
  "string option \<Rightarrow> string option \<Rightarrow> string option \<Rightarrow> string option \<Rightarrow>
     (('w, 'z) mo_env_scheme, string) cmd"
where
  "momgr_find_subtree iUri iUrn iCriteriaName iCriteriaValue =
     DMC_FAIL_ERR (iUri = None \<and> iUrn = None) OMADM_SYNCML_ERROR_NOT_FOUND (
     DMC_FAIL_NULL (pure iCriteriaName) OMADM_SYNCML_ERROR_NOT_FOUND (\<lambda>name.
     DMC_FAIL_NULL (pure iCriteriaValue) OMADM_SYNCML_ERROR_NOT_FOUND (\<lambda>v.
     DMC_FAIL_NULL (subtree_dir iUri) OMADM_SYNCML_ERROR_NOT_FOUND (\<lambda>chain.
     DMC_FAIL (case iUrn of
                 Some urn \<Rightarrow> prv_findUrn (hd chain) urn None
               | None \<Rightarrow> prv_getChildrenUrl (hd chain) (case iUri of None \<Rightarrow> [] | Some u \<Rightarrow> u)) (\<lambda>urlList.
     DMC_FAIL_NULL (pure urlList) OMADM_SYNCML_ERROR_NOT_FOUND (\<lambda>urls.
     criteria_loop urls name v))))))"

text \<open>The array the caller left in \<^verbatim>\<open>*oUri\<close> is extended, not replaced.\<close>

definition momgr_list_uri ::
  "string option \<Rightarrow> string list option \<Rightarrow> (('w, 'z) mo_env_scheme, string list) cmd"
where
  "momgr_list_uri iUrn oUri =
     DMC_FAIL_NULL (pure iUrn) OMADM_SYNCML_ERROR_COMMAND_FAILED (\<lambda>urn s.
     DMC_FAIL (prv_findUrn (root (MOs s)) urn oUri) (\<lambda>list.
     DMC_FAIL_NULL (pure list) OMADM_SYNCML_ERROR_NOT_FOUND ret) s)"

section \<open>What every operation keeps\<close>

text \<open>The directory is \<open>d\<close> and the cache agrees with it.\<close>

definition dirs_are :: "'w mo_dir_t \<Rightarrow> ('w, 'z) mo_env_scheme \<Rightarrow> bool" where
  "dirs_are d s \<longleftrightarrow> root (MOs s) = d \<and> cache_ok (MOs s)"

lemma dirs_are_same: "MOs t = MOs s \<Longrightarrow> dirs_are d s \<Longrightarrow> dirs_are d t"
  by (simp add: dirs_are_def)

lemma keeps_malloc [keeps_rules]: "keeps (dirs_are d) (malloc a)"
  by (rule keepsI) (metis dirs_are_same malloc_env prod.collapse)

lemma keeps_str_cat_3 [keeps_rules]: "keeps (dirs_are d) (str_cat_3 a b c)"
  unfolding str_cat_3_def by (rule keeps_malloc)

lemma keeps_findPlugin [keeps_rules]: "keeps (dirs_are d) (prv_findPlugin u)"
proof (rule keepsI)
  fix s :: "('a, 'b) mo_env_scheme"
  assume "dirs_are d s"
  then show "dirs_are d (snd (prv_findPlugin u s))"
    using findPlugin_cache_ok [of s u _ "snd (prv_findPlugin u s)"]
      findPlugin_root [of u s _ "snd (prv_findPlugin u s)"]
    by (cases "prv_findPlugin u s") (simp add: dirs_are_def)
qed

lemma keeps_findMoDir [keeps_rules]: "keeps (dirs_are d) (prv_findMoDir up e u x)"
  by (rule keepsI) (metis dirs_are_same find_dir_env prod.collapse)

lemma keeps_on_world [keeps_rules]: "keeps (dirs_are d) (on_world f)"
  by (rule keepsI) (metis dirs_are_same on_worldD prod.collapse)

lemma keeps_code_call [keeps_rules]: "keeps (dirs_are d) (code_call f)"
  unfolding code_call_def by (intro keeps_rules)

lemma keeps_uri_validate_dirs [keeps_rules]: "keeps (dirs_are d) (uri_validate t m l u b c)"
  unfolding uri_validate_def cut_prop_def node_form_def check_path_def by (intro keeps_rules)

lemma keeps_find_root [keeps_rules]:
  "keeps (dirs_are d) (\<lambda>s. prv_findMoDir up (root (MOs s)) u x s)"
  by (rule keepsI) (rule keepsD [OF keeps_findMoDir _ prod.collapse [symmetric]])

lemma keeps_exists [keeps_rules]: "keeps (dirs_are d) (momgr_exists u)"
  unfolding momgr_exists_def by (intro keeps_rules)

lemma keeps_append_names [keeps_rules]: "keeps (dirs_are d) (append_names ns node)"
proof (induction ns arbitrary: node)
  case Nil
  show ?case unfolding append_names.simps by (intro keeps_rules)
next
  case (Cons n ns)
  show ?case unfolding append_names.simps by (intro keeps_rules Cons)
qed

lemma keeps_nested_names [keeps_rules]: "keeps (dirs_are d) (nested_names c node ns)"
  unfolding nested_names_def by (intro keeps_rules)

lemma keeps_get_value [keeps_rules]: "keeps (dirs_are d) (momgr_get_value n)"
  unfolding momgr_get_value_def by (intro keeps_rules)

lemma keeps_set_value [keeps_rules]: "keeps (dirs_are d) (momgr_set_value n)"
  unfolding momgr_set_value_def by (intro keeps_rules)

lemma keeps_get_ACL [keeps_rules]: "keeps (dirs_are d) (momgr_get_ACL u)"
  unfolding momgr_get_ACL_def by (intro keeps_rules)

lemma keeps_set_ACL [keeps_rules]: "keeps (dirs_are d) (momgr_set_ACL u a)"
  unfolding momgr_set_ACL_def by (intro keeps_rules)

lemma keeps_rename_node [keeps_rules]: "keeps (dirs_are d) (momgr_rename_node u n)"
  unfolding momgr_rename_node_def by (intro keeps_rules)

lemma keeps_delete_node [keeps_rules]: "keeps (dirs_are d) (momgr_delete_node u)"
  unfolding momgr_delete_node_def by (intro keeps_rules)

lemma keeps_exec_node [keeps_rules]: "keeps (dirs_are d) (momgr_exec_node u a b)"
  unfolding momgr_exec_node_def by (intro keeps_rules)

text \<open>
  C12. No operation on nodes changes the directory of objects, and every one keeps the lookup
  cache in agreement with it, whatever the callbacks do, whatever allocation fails, and whatever
  code is returned.
\<close>

theorem node_operations_keep_directory:
  "keeps (dirs_are d) (momgr_exists u) \<and> keeps (dirs_are d) (momgr_get_value n) \<and>
   keeps (dirs_are d) (momgr_set_value n) \<and> keeps (dirs_are d) (momgr_get_ACL v) \<and>
   keeps (dirs_are d) (momgr_set_ACL v a) \<and> keeps (dirs_are d) (momgr_rename_node v a) \<and>
   keeps (dirs_are d) (momgr_delete_node v) \<and> keeps (dirs_are d) (momgr_exec_node v a b)"
  by (intro conjI keeps_rules)

section \<open>Existence of a node\<close>

lemma on_world_eq: "f (world s) = (r, w) \<Longrightarrow> on_world f s = (r, s\<lparr>world := w\<rparr>)"
  by (simp add: on_world_def)

text \<open>A lookup of the responsible object followed by its callback, without a failed allocation.\<close>

lemma findPlugin_responsible:
  assumes "plenty s" and "cache_ok (MOs s)" and "responsible (MOs s) uri = Some p"
  obtains t where "prv_findPlugin uri s = (Some p, t)" and "plenty t" and "cache_ok (MOs t)"
    and "root (MOs t) = root (MOs s)" and "world t = world s"
  using findPlugin_longest_prefix [OF assms(1,2), of uri] assms(3) by (auto simp: responsible_def)

text \<open>
  \<open>momgr_exists\<close> decides as the interface documents: the answer of the responsible object
  counts, except that a node it does not know is an interior node when a directory of registered
  objects has exactly its path.
\<close>

theorem exists_decides:
  assumes "plenty s" and "cache_ok (MOs s)" and "responsible (MOs s) uri = Some p"
    and "isNodeFunc (interface p) = Some f" and "f uri (plugin_data p) (world s) = ((c, k), w)"
  shows "fst (momgr_exists uri s) =
    (if c = OMADM_SYNCML_ERROR_NONE \<and> k \<noteq> OMADM_NODE_NOT_EXIST then Val k
     else if c \<noteq> OMADM_SYNCML_ERROR_NONE \<and> c \<noteq> OMADM_SYNCML_ERROR_NOT_FOUND then Err c
     else if dir_at (root (MOs s)) (split_on CHR ''/'' (strip_dot uri)) \<noteq> None
     then Val OMADM_NODE_IS_INTERIOR
     else if c = OMADM_SYNCML_ERROR_NONE then Val OMADM_NODE_NOT_EXIST else Err c)"
proof -
  obtain t where t: "prv_findPlugin uri s = (Some p, t)" "plenty t" "root (MOs t) = root (MOs s)"
    "world t = world s"
    using findPlugin_responsible [OF assms(1-3)] by metis
  let ?t = "t\<lparr>world := w\<rparr>"
  have w: "on_world (f uri (plugin_data p)) t = ((c, k), ?t)"
    using assms(5) t(4) by (intro on_world_eq) simp
  obtain r t' where r: "prv_findMoDir [] (root (MOs s)) (strip_dot uri) True ?t = (r, t')"
    by (metis surj_pair)
  have "r \<noteq> None \<longleftrightarrow> dir_at (root (MOs s)) (split_on CHR ''/'' (strip_dot uri)) \<noteq> None"
    using find_dir_exact [of ?t "[]" "root (MOs s)" "strip_dot uri" r t'] r t(2) by simp
  then show ?thesis
    using t w r assms(4)
    by (auto simp: momgr_exists_def DMC_FAIL_NULL_def pure_def split: option.splits)
qed

text \<open>
  A manager fresh from \<open>momgr_init\<close> is a well-formed, empty directory whose default object
  answers for every URI; its tree has the root as its only node.
\<close>

theorem init_manager:
  assumes "plenty h"
  shows "\<exists>m. momgr_init dup h = (Val (Some m), h) \<and> wf_dir (root m) \<and> cache_ok m \<and>
    (\<forall>uri. responsible m uri = plugin (root m)) \<and>
    (\<forall>uri w. fst (momgr_exists uri \<lparr>mem = [], world = w, MOs = m\<rparr>) =
       Val (if uri = ''.'' then OMADM_NODE_IS_INTERIOR else OMADM_NODE_NOT_EXIST))"
proof -
  obtain i where i: "getDefaultRootPlugin dup h = (Some i, h)" "isNodeFunc i = Some prv_isNode"
    using assms by (simp add: getDefaultRootPlugin_def)
  let ?p = "\<lparr>interface = i, plugin_data = 0\<rparr>"
  let ?m = "\<lparr>root = Mo_Dir ''.'' (Some ?p) [], max_depth = 0, max_total_len = 0,
    max_segment_len = 0, last_uri = None, last_plugin = None\<rparr>"
  have init: "momgr_init dup h = (Val (Some ?m), h)" using assms i by (simp add: momgr_init_def)
  have c: "cache_ok ?m" by (simp add: cache_ok_def)
  have "longest (plugin_at (Mo_Dir ''.'' (Some ?p) [])) q = Some ?p" for q
    by (cases q) simp_all
  then have r: "responsible ?m uri = Some ?p" for uri by (simp add: responsible_def)
  have n: "dir_at (Mo_Dir a x []) (split_on c u) = None" for a x c u
    by (cases "split_on c u") simp_all
  have "fst (momgr_exists uri \<lparr>mem = [], world = w, MOs = ?m\<rparr>) =
      Val (if uri = ''.'' then OMADM_NODE_IS_INTERIOR else OMADM_NODE_NOT_EXIST)" for uri w
    using exists_decides [of "\<lparr>mem = [], world = w, MOs = ?m\<rparr>" uri ?p prv_isNode
        OMADM_SYNCML_ERROR_NONE "if uri = ''.'' then OMADM_NODE_IS_INTERIOR else OMADM_NODE_NOT_EXIST" w]
      c r i(2) by (simp add: prv_isNode_def n)
  then show ?thesis using init c r by (intro exI [of _ ?m]) simp
qed

section \<open>Numbers\<close>

definition decimal :: "string \<Rightarrow> int" where
  "decimal b = foldl (\<lambda>r c. 10 * r + digit c) 0 b"

lemma digit_range: "is_digit c \<Longrightarrow> 0 \<le> digit c"
proof -
  assume "is_digit c"
  then have "48 \<le> (of_char c :: nat)" by (simp add: is_digit_def in_range_def)
  then have "int 48 \<le> of_nat (of_char c)" by (simp only: of_nat_le_iff)
  then show ?thesis by (simp add: digit_def of_nat_of_char)
qed

lemma decimal_mono:
  "\<forall>c \<in> set b. is_digit c \<Longrightarrow> 0 \<le> r \<Longrightarrow> r \<le> foldl (\<lambda>r c. 10 * r + digit c) r b"
proof (induction b arbitrary: r)
  case (Cons c b)
  have "r \<le> 10 * r + digit c" using Cons.prems digit_range [of c] by simp
  also have "\<dots> \<le> foldl (\<lambda>r c. 10 * r + digit c) (10 * r + digit c) b"
    using Cons.prems digit_range [of c] by (intro Cons.IH) auto
  finally show ?case by simp
qed simp

lemma num_loop_digits:
  "\<forall>c \<in> set b. is_digit c \<Longrightarrow> 0 \<le> r \<Longrightarrow> r \<le> INT_MAX \<Longrightarrow> mul = 10 \<or> (mul = 0 \<and> r = 0) \<Longrightarrow>
     num_loop b mul r =
       (let v = foldl (\<lambda>r c. 10 * r + digit c) r b in if v \<le> INT_MAX then Val v else Ub)"
proof (induction b arbitrary: r mul)
  case (Cons c b)
  let ?r = "10 * r + digit c"
  have r: "(if mul = 0 then r else r * mul) + digit c = ?r" using Cons.prems(4) by auto
  have d: "0 \<le> ?r" using Cons.prems digit_range [of c] by simp
  have m: "?r \<le> foldl (\<lambda>r c. 10 * r + digit c) ?r b"
    using Cons.prems(1) d by (intro decimal_mono) simp
  show ?case
  proof (cases "?r \<le> INT_MAX")
    case True
    then show ?thesis using Cons.IH [of ?r 10] Cons.prems(1) d r by (simp add: Let_def)
  next
    case False
    then show ?thesis using m Cons.prems(1) r by (simp add: Let_def)
  qed
qed simp

lemma num_loop_not_digit: "\<exists>c \<in> set b. \<not> is_digit c \<Longrightarrow> num_loop b mul r \<in> {Val (- 1), Ub}"
  by (induction b arbitrary: r mul) (auto simp: Let_def)

text \<open>
  \<open>prv_get_number\<close> reads a buffer of digits as its decimal value as long as that fits an
  \<^verbatim>\<open>int\<close>; a larger value overflows the signed arithmetic before any range check, and a buffer
  with another character never yields a number.
\<close>

theorem get_number_spec:
  assumes "b \<noteq> []"
  shows "if \<forall>c \<in> set b. is_digit c
    then prv_get_number (Some b) (length b) = (if decimal b \<le> INT_MAX then Val (decimal b) else Ub)
    else prv_get_number (Some b) (length b) \<in> {Val (- 1), Ub}"
  using assms num_loop_digits [of b 0 0] num_loop_not_digit [of b 0 0]
  by (simp add: prv_get_number_def decimal_def Let_def INT_MAX_def)

theorem get_number_spec_witness:
  "prv_get_number (Some ''255'') 3 = Val 255 \<and> prv_get_number (Some ''99999999999'') 11 = Ub"
  using get_number_spec [of "''255''"] get_number_spec [of "''99999999999''"]
  by (simp add: is_digit_def in_range_def decimal_def digit_def INT_MAX_def eval_nat_numeral)

theorem exists_decides_witness:
  "fst (momgr_exists ''./DevInfo/Ext''
     (sample_env [] None\<lparr>MOs := (MOs (sample_env [] None))\<lparr>root :=
        set_plugin sample_dirs [''DevInfo''] (Some \<lparr>interface = interface_zero\<lparr>isNodeFunc :=
          Some (\<lambda>u d w. ((404, OMADM_NODE_NOT_EXIST), w))\<rparr>, plugin_data = 1\<rparr>)\<rparr>\<rparr>)) = Err 405 \<and>
   fst (momgr_exists ''./Other'' (sample_env [] None\<lparr>MOs := (MOs (sample_env [] None))\<lparr>root :=
        set_plugin sample_dirs [] (Some \<lparr>interface = interface_zero\<lparr>isNodeFunc := Some prv_isNode\<rparr>,
          plugin_data = 1\<rparr>)\<rparr>\<rparr>)) = Val OMADM_NODE_NOT_EXIST"
  (is "?A \<and> fst (momgr_exists ''./Other'' ?s) = _")
proof
  show ?A by code_simp
  have "responsible (MOs ?s) ''./Other'' =
      Some \<lparr>interface = interface_zero\<lparr>isNodeFunc := Some prv_isNode\<rparr>, plugin_data = 1\<rparr>"
    by (simp add: responsible_def sample_env_def sample_dirs_def path_of_def strip_dot_def)
  then show "fst (momgr_exists ''./Other'' ?s) = Val OMADM_NODE_NOT_EXIST"
    using exists_decides [of ?s "''./Other''" _ prv_isNode 0 OMADM_NODE_NOT_EXIST 3]
    by (simp add: sample_env_def sample_dirs_def cache_ok_def prv_isNode_def strip_dot_def)
qed

theorem init_manager_witness:
  "\<exists>m. momgr_init (\<lambda>x w. (Some x, w)) \<lparr>mem = []\<rparr> = (Val (Some m), \<lparr>mem = []\<rparr>) \<and>
     fst (momgr_exists ''./DevInfo'' \<lparr>mem = [], world = (0::nat), MOs = m\<rparr>) = Val OMADM_NODE_NOT_EXIST"
  using init_manager [of "\<lparr>mem = []\<rparr>" "\<lambda>x w. (Some x, w)"] by auto

section \<open>Mandatory objects\<close>

text \<open>
  The check for mandatory objects does not check \<^verbatim>\<open>./DevInfo\<close>: since the default object at
  the root answers for every URI, the lookups of \<^verbatim>\<open>./DevInfo\<close> and \<^verbatim>\<open>./DevDetail\<close> cannot return
  null, whatever objects are registered.
\<close>

theorem mandatory_lookup_never_null:
  assumes "plenty s" and "cache_ok (MOs s)" and "plugin (root (MOs s)) \<noteq> None"
  shows "fst (prv_findPlugin uri s) \<noteq> None"
proof -
  have "longest (plugin_at (root (MOs s))) (path_of uri) \<noteq> None"
    using assms(3) unfolding longest_None by (auto intro!: exI [of _ "[]"])
  then show ?thesis using findPlugin_longest_prefix [OF assms(1,2), of uri] by auto
qed

text \<open>
  An account object for the witness: it lists itself under the account URN and answers every
  request for a value with the number 20.  With it alone, at the root of the device, the check
  passes although no \<^verbatim>\<open>./DevInfo\<close> is registered.
\<close>

definition lone_mo :: "nat omadm_mo_interface_t" where
  "lone_mo = interface_zero\<lparr>findURNFunc := Some (\<lambda>u d w. ((0, Some [''./DMAcc'']), w)),
     getFunc := Some (\<lambda>n d w. ((0, n\<lparr>node_format := Some ''int'', data_size := 2,
       data_buffer := Some ''20''\<rparr>), w))\<rparr>"

definition lone_env :: "nat mo_env" where
  "lone_env = \<lparr>mem = [], world = 0,
     MOs = \<lparr>root = Mo_Dir ''.'' (Some \<lparr>interface = lone_mo, plugin_data = 0\<rparr>) [], max_depth = 0,
            max_total_len = 0, max_segment_len = 0, last_uri = None, last_plugin = None\<rparr>\<rparr>"

theorem mandatory_lookup_never_null_witness:
  "fst (prv_findPlugin ''./DevInfo'' lone_env) \<noteq> None \<and>
   fst (momgr_check_mandatory_mo lone_env) = Val () \<and>
   max_depth (MOs (snd (momgr_check_mandatory_mo lone_env))) = 20"
proof (intro conjI)
  show "fst (prv_findPlugin ''./DevInfo'' lone_env) \<noteq> None"
    by (rule mandatory_lookup_never_null) (simp_all add: lone_env_def cache_ok_def)
  show "fst (momgr_check_mandatory_mo lone_env) = Val ()" by code_simp
  show "max_depth (MOs (snd (momgr_check_mandatory_mo lone_env))) = 20" by code_simp
qed

section \<open>Values of interior nodes\<close>

lemma join_on_snoc: "ns \<noteq> [] \<Longrightarrow> join_on c (ns @ [n]) = join_on c ns @ c # n"
  by (induction c ns rule: join_on.induct) auto

lemma append_names_buffer:
  "plenty h \<Longrightarrow> data_buffer node = Some (join_on CHR ''/'' bs) \<Longrightarrow> bs \<noteq> [] \<Longrightarrow>
     append_names ns node h =
       (Val (node\<lparr>data_buffer := Some (join_on CHR ''/'' (bs @ ns))\<rparr>), h)"
proof (induction ns arbitrary: node bs)
  case (Cons n ns)
  have "join_on CHR ''/'' (bs @ [n]) = join_on CHR ''/'' bs @ ''/'' @ n"
    by (simp add: join_on_snoc [OF Cons.prems(3)])
  then show ?case
    using Cons.prems Cons.IH [of "node\<lparr>data_buffer := Some (join_on CHR ''/'' (bs @ [n]))\<rparr>" "bs @ [n]"]
    by (simp add: DMC_FAIL_NULL_def)
qed (simp add: ret_def)

text \<open>
  The value of a node with nested objects is the list of the names its own object gives,
  followed by the names of the nested directories, separated by slashes, with the matching size;
  and a node its own object does not know becomes readable that way.
\<close>

theorem nested_names_listing:
  assumes "plenty h" and "names \<noteq> []"
    and "c = OMADM_SYNCML_ERROR_NONE \<or> data_buffer node = None"
    and "\<forall>b. data_buffer node = Some b \<longrightarrow> b = join_on CHR ''/'' own \<and> own \<noteq> []"
    and "data_buffer node = None \<longrightarrow> own = []"
  shows "nested_names c node names h =
    (Val (node\<lparr>node_format := (if data_buffer node = None \<and> node_format node = None
                               then Some ''node'' else node_format node),
               data_size := length (join_on CHR ''/'' (own @ names)),
               data_buffer := Some (join_on CHR ''/'' (own @ names))\<rparr>), h)"
proof (cases "data_buffer node")
  case (Some b)
  have "append_names names node h =
      (Val (node\<lparr>data_buffer := Some (join_on CHR ''/'' (own @ names))\<rparr>), h)"
    using assms(1,4) Some by (intro append_names_buffer) auto
  then show ?thesis using Some assms(2,3) by (simp add: nested_names_def cmd_defs)
next
  case None
  obtain n ns where n: "names = n # ns" using assms(2) by (cases names) auto
  let ?f = "case node_format node of None \<Rightarrow> ''node'' | Some f \<Rightarrow> f"
  let ?node = "node\<lparr>node_format := Some ?f, data_buffer := Some n\<rparr>"
  have "append_names ns ?node h = (Val (?node\<lparr>data_buffer := Some (join_on CHR ''/'' ([n] @ ns))\<rparr>), h)"
    using assms(1) by (intro append_names_buffer) auto
  then have "append_names names node h =
      (Val (?node\<lparr>data_buffer := Some (join_on CHR ''/'' names)\<rparr>), h)"
    using assms(1) None n by (simp add: DMC_FAIL_NULL_def pure_def split: option.splits)
  then show ?thesis
    using None assms(2,3,5) by (simp add: nested_names_def cmd_defs split: option.splits)
qed

theorem nested_names_listing_witness:
  "nested_names 404 (node_zero\<lparr>node_uri := Some ''./DevInfo''\<rparr>) [''Ext'', ''Bat''] \<lparr>mem = []\<rparr> =
     (Val \<lparr>node_uri = Some ''./DevInfo'', node_format = Some ''node'', node_type = None,
           data_size = 7, data_buffer = Some ''Ext/Bat''\<rparr>, \<lparr>mem = []\<rparr>)"
  using nested_names_listing [of "\<lparr>mem = []\<rparr>" "[''Ext'', ''Bat'']" 404
      "node_zero\<lparr>node_uri := Some ''./DevInfo''\<rparr>" "[]"]
  by (simp add: node_zero_def)

fun deepest :: "'w mo_dir_t \<Rightarrow> string list \<Rightarrow> 'w mo_dir_t" where
  "deepest d [] = d"
| "deepest d (n # ns) = (case find_child n (children d) of None \<Rightarrow> d | Some c \<Rightarrow> deepest c ns)"

lemma find_dir_deepest:
  "plenty h \<Longrightarrow>
     \<exists>ch. prv_findMoDir up d u False h = (Some ch, h) \<and> hd ch = deepest d (split_on CHR ''/'' u)"
proof (induction up d u "False" h rule: prv_findMoDir.induct)
  case (1 up d u h)
  show ?case
  proof (cases "strchr u CHR ''/''")
    case None
    then show ?thesis
      by (simp add: prv_findMoDir.simps [of up d u] split_on_strchr [of _ u] split: option.splits)
  next
    case (Some r)
    have b: "before u r = takeWhile (\<lambda>x. x \<noteq> CHR ''/'') u" by (rule before_strchr [OF Some])
    show ?thesis
      using 1 Some b
      by (auto simp: prv_findMoDir.simps [of up d u] split_on_strchr [of _ u] split: option.splits)
  qed
qed

text \<open>
  The names come from the deepest directory on the way, not from the node's own: reading a
  node that neither an object nor the directory knows succeeds with the children of a registered
  ancestor.
\<close>

theorem get_value_of_unknown_node:
  assumes "plenty s" and "cache_ok (MOs s)" and "responsible (MOs s) uri = Some p"
    and "getFunc (interface p) = Some f"
    and "f (node_zero\<lparr>node_uri := Some uri\<rparr>) (plugin_data p) (world s) =
      ((OMADM_SYNCML_ERROR_NOT_FOUND, node_zero\<lparr>node_uri := Some uri\<rparr>), w)"
    and "children (deepest (root (MOs s)) (split_on CHR ''/'' (strip_dot uri))) \<noteq> []"
  shows "\<exists>node. fst (momgr_get_value (Some (node_zero\<lparr>node_uri := Some uri\<rparr>)) s) = Val node \<and>
    data_buffer node = Some (join_on CHR ''/''
      (map dir_name (children (deepest (root (MOs s)) (split_on CHR ''/'' (strip_dot uri))))))"
proof -
  let ?n = "node_zero\<lparr>node_uri := Some uri\<rparr>"
  let ?d = "deepest (root (MOs s)) (split_on CHR ''/'' (strip_dot uri))"
  obtain t where t: "prv_findPlugin uri s = (Some p, t)" "plenty t" "root (MOs t) = root (MOs s)"
    "world t = world s"
    using findPlugin_responsible [OF assms(1-3)] by metis
  let ?t = "t\<lparr>world := w\<rparr>"
  have w: "on_world (f ?n (plugin_data p)) t = ((OMADM_SYNCML_ERROR_NOT_FOUND, ?n), ?t)"
    using assms(5) t(4) by (intro on_world_eq) simp
  obtain ch where ch: "prv_findMoDir [] (root (MOs s)) (strip_dot uri) False ?t = (Some ch, ?t)"
    "hd ch = ?d"
    using find_dir_deepest [of ?t "[]" "root (MOs s)" "strip_dot uri"] t(2) by auto
  have z: "node_format ?n = None" "data_buffer ?n = None" "node_uri ?n = Some uri"
    by (simp_all add: node_zero_def)
  have "momgr_get_value (Some ?n) s =
      nested_names OMADM_SYNCML_ERROR_NOT_FOUND ?n (map dir_name (children ?d)) ?t"
    using t w ch assms(4) z by (simp add: momgr_get_value_def DMC_FAIL_NULL_def pure_def)
  moreover have "\<exists>node. fst (nested_names OMADM_SYNCML_ERROR_NOT_FOUND ?n (map dir_name (children ?d)) ?t) =
      Val node \<and> data_buffer node = Some (join_on CHR ''/'' (map dir_name (children ?d)))"
    using nested_names_listing [of ?t "map dir_name (children ?d)" 404 ?n "[]"] assms(6) t(2) z
    by simp
  ultimately show ?thesis by simp
qed

theorem get_value_of_unknown_node_witness:
  "\<exists>node. fst (momgr_get_value (Some (node_zero\<lparr>node_uri := Some ''./DevInfo/Nothing''\<rparr>))
     (sample_env [] None\<lparr>MOs := (MOs (sample_env [] None))\<lparr>root :=
        set_plugin sample_dirs [''DevInfo''] (Some \<lparr>interface = interface_zero\<lparr>getFunc :=
          Some (\<lambda>n d w. ((404, n), w))\<rparr>, plugin_data = 1\<rparr>)\<rparr>\<rparr>)) = Val node \<and>
   data_buffer node = Some ''Ext''"
  (is "\<exists>node. fst (momgr_get_value _ ?s) = _ \<and> _")
proof -
  have "responsible (MOs ?s) ''./DevInfo/Nothing'' =
      Some \<lparr>interface = interface_zero\<lparr>getFunc := Some (\<lambda>n d w. ((404, n), w))\<rparr>, plugin_data = 1\<rparr>"
    by (simp add: responsible_def sample_env_def sample_dirs_def path_of_def strip_dot_def)
  moreover have "deepest (root (MOs ?s)) (split_on CHR ''/'' (strip_dot ''./DevInfo/Nothing'')) =
      Mo_Dir ''DevInfo'' (Some \<lparr>interface = interface_zero\<lparr>getFunc :=
          Some (\<lambda>n d w. ((404, n), w))\<rparr>, plugin_data = 1\<rparr>)
        [Mo_Dir ''Ext'' (Some \<lparr>interface = sample_mo ''./DevInfo/Ext'', plugin_data = 2\<rparr>) []]"
    by (simp add: sample_env_def sample_dirs_def strip_dot_def)
  ultimately show ?thesis
    using get_value_of_unknown_node [of ?s "''./DevInfo/Nothing''" _ "\<lambda>n d w. ((404, n), w)" 3]
    by (simp add: sample_env_def cache_ok_def)
qed

section \<open>The result of a search\<close>

lemma criteria_loop_sound:
  fixes s :: "('w, 'z) mo_env_scheme"
  shows "criteria_loop urls name v s = (Val url, t) \<Longrightarrow>
     url \<in> set urls \<and> (\<exists>(s1 :: ('w, 'z) mo_env_scheme) node s2.
       momgr_get_value (Some (node_zero\<lparr>node_uri := Some (url @ ''/'' @ name)\<rparr>)) s1 = (Val node, s2) \<and>
       data_size node = length v \<and> (\<exists>b. data_buffer node = Some b \<and> take (length v) b = v))"
proof (induction urls arbitrary: s)
  case Nil
  then show ?case by (simp add: cmd_val)
next
  case (Cons u us)
  from Cons.prems obtain uri s1 where u: "str_cat_3 u ''/'' name s = (Some uri, s1)"
    and rest: "DMC_FAIL (momgr_get_value (Some (node_zero\<lparr>node_uri := Some uri\<rparr>))) (\<lambda>node.
     if length v \<noteq> data_size node then criteria_loop us name v
     else case data_buffer node of
       None \<Rightarrow> lift Ub
     | Some b \<Rightarrow>
         if take (data_size node) b = v
         then DMC_FAIL_NULL (strdup u) OMADM_SYNCML_ERROR_DEVICE_FULL ret
         else criteria_loop us name v) s1 = (Val url, t)"
    unfolding criteria_loop.simps DMC_FAIL_NULL_val by blast
  have uri: "uri = u @ ''/'' @ name" using str_cat_SomeD(2) [OF u] .
  from rest obtain node s2 where g: "momgr_get_value (Some (node_zero\<lparr>node_uri := Some uri\<rparr>)) s1 = (Val node, s2)"
    and k: "(if length v \<noteq> data_size node then criteria_loop us name v
     else case data_buffer node of
       None \<Rightarrow> lift Ub
     | Some b \<Rightarrow>
         if take (data_size node) b = v
         then DMC_FAIL_NULL (strdup u) OMADM_SYNCML_ERROR_DEVICE_FULL ret
         else criteria_loop us name v) s2 = (Val url, t)"
    unfolding DMC_FAIL_val by blast
  show ?case
  proof (cases "\<exists>b. length v = data_size node \<and> data_buffer node = Some b \<and> take (data_size node) b = v")
    case True
    then obtain b where b: "data_size node = length v" "data_buffer node = Some b" "take (length v) b = v"
      by auto
    have url: "url = u" using k b by (auto simp: cmd_val dest: malloc_SomeD)
    have "\<exists>(s1 :: ('w, 'z) mo_env_scheme) node s2. momgr_get_value (Some (node_zero\<lparr>node_uri := Some (u @ ''/'' @ name)\<rparr>)) s1 =
        (Val node, s2) \<and> data_size node = length v \<and>
        (\<exists>b. data_buffer node = Some b \<and> take (length v) b = v)"
      using g [unfolded uri] b by blast
    then show ?thesis unfolding url by simp
  next
    case False
    then have "criteria_loop us name v s2 = (Val url, t)"
      using k by (auto simp: cmd_val split: if_splits option.splits)
    then show ?thesis using Cons.IH by auto
  qed
qed

text \<open>
  A URI that \<open>momgr_find_subtree\<close> returns is one whose criterion node, read during the
  search, had exactly the requested value; and the arguments named a place to search.
\<close>

theorem find_subtree_sound:
  fixes s :: "('w, 'z) mo_env_scheme"
  assumes "momgr_find_subtree iUri iUrn iCriteriaName iCriteriaValue s = (Val url, t)"
  shows "\<exists>name v (s1 :: ('w, 'z) mo_env_scheme) node s2 b. iCriteriaName = Some name \<and> iCriteriaValue = Some v \<and>
    momgr_get_value (Some (node_zero\<lparr>node_uri := Some (url @ ''/'' @ name)\<rparr>)) s1 = (Val node, s2) \<and>
    data_size node = length v \<and> data_buffer node = Some b \<and> take (length v) b = v \<and>
    (iUri \<noteq> None \<or> iUrn \<noteq> None)"
proof -
  have "\<exists>name v urls (s0 :: ('w, 'z) mo_env_scheme). iCriteriaName = Some name \<and> iCriteriaValue = Some v \<and>
    (iUri \<noteq> None \<or> iUrn \<noteq> None) \<and> criteria_loop urls name v s0 = (Val url, t)"
    using assms
    unfolding momgr_find_subtree_def DMC_FAIL_NULL_val DMC_FAIL_val DMC_FAIL_ERR_val pure_val
    by (elim exE conjE) metis
  then obtain name v urls s0 where n: "iCriteriaName = Some name" "iCriteriaValue = Some v"
    "iUri \<noteq> None \<or> iUrn \<noteq> None" and c: "criteria_loop urls name v s0 = (Val url, t)"
    by (elim exE conjE) 
  from criteria_loop_sound [OF c] n show ?thesis by blast
qed

definition account_mo :: "nat omadm_mo_interface_t" where
  "account_mo = interface_zero\<lparr>findURNFunc := Some (\<lambda>u d w. ((0, Some [''./A/1'', ''./A/2'']), w)),
     getFunc := Some (\<lambda>n d w. ((0, n\<lparr>node_format := Some ''chr'', data_size := 3,
       data_buffer := Some (if node_uri n = Some ''./A/2/ServerID'' then ''srv'' else ''abc'')\<rparr>), w))\<rparr>"

definition account_env :: "nat mo_env" where
  "account_env = \<lparr>mem = [], world = 0,
     MOs = \<lparr>root = Mo_Dir ''.'' (Some \<lparr>interface = account_mo, plugin_data = 0\<rparr>) [], max_depth = 0,
            max_total_len = 0, max_segment_len = 0, last_uri = None, last_plugin = None\<rparr>\<rparr>"

theorem find_subtree_sound_witness:
  "fst (momgr_find_subtree None (Some URN_MO_DMACC) (Some ''ServerID'') (Some ''srv'') account_env) =
     Val ''./A/2'' \<and>
   (\<exists>(s1 :: nat mo_env) node s2. momgr_get_value (Some (node_zero\<lparr>node_uri := Some ''./A/2/ServerID''\<rparr>)) s1 =
      (Val node, s2) \<and> data_size node = 3)"
proof
  show e: "fst (momgr_find_subtree None (Some URN_MO_DMACC) (Some ''ServerID'') (Some ''srv'') account_env) =
     Val ''./A/2''"
    by code_simp
  then have "momgr_find_subtree None (Some URN_MO_DMACC) (Some ''ServerID'') (Some ''srv'') account_env =
      (Val ''./A/2'', snd (momgr_find_subtree None (Some URN_MO_DMACC) (Some ''ServerID'') (Some ''srv'') account_env))"
    by (metis prod.collapse)
  from find_subtree_sound [OF this]
  show "\<exists>(s1 :: nat mo_env) node s2. momgr_get_value (Some (node_zero\<lparr>node_uri := Some ''./A/2/ServerID''\<rparr>)) s1 =
      (Val node, s2) \<and> data_size node = 3"
    by fastforce
qed

end
