(* ===== verification/Acl.thy ===== *)
theory Acl
  imports Uri_Check
begin

text \<open>
  Access control lists: their syntax and the check of a server's right to a command
  (the \<^verbatim>\<open>prv_check_*\<close> functions of \<^verbatim>\<open>dmcore/src/dmtree.c\<close>).

  An ACL is a list of entries \<^verbatim>\<open>Command=server+server\<close> separated by ampersands, where
  \<^verbatim>\<open>*\<close> in the place of the servers stands for every server.
\<close>

section \<open>Syntax\<close>

definition prv_check_acl_command :: "string \<Rightarrow> int" where
  "prv_check_acl_command command =
     (if command \<noteq> ''Get'' \<and> command \<noteq> ''Add'' \<and> command \<noteq> ''Replace'' \<and> command \<noteq> ''Delete'' \<and>
         command \<noteq> ''Exec''
      then OMADM_SYNCML_ERROR_COMMAND_FAILED else OMADM_SYNCML_ERROR_NONE)"

text \<open>
  \<open>server_char\<close> is what the tests of the loop let pass in the C locale: a printing ASCII
  character that is no space and none of the four separators.
\<close>

definition server_char :: "char \<Rightarrow> bool" where
  "server_char c \<longleftrightarrow>
     in_range CHR ''!'' CHR ''~'' c \<and> c \<noteq> CHR ''='' \<and> c \<noteq> CHR ''&'' \<and> c \<noteq> CHR ''*'' \<and> c \<noteq> CHR ''+''"

definition prv_check_server_id :: "string option \<Rightarrow> int" where
  "prv_check_server_id server =
     (case server of
        None \<Rightarrow> OMADM_SYNCML_ERROR_COMMAND_FAILED
      | Some sv \<Rightarrow>
          if sv = [] then OMADM_SYNCML_ERROR_COMMAND_FAILED
          else if \<forall>c \<in> set sv. server_char c then OMADM_SYNCML_ERROR_NONE
          else OMADM_SYNCML_ERROR_COMMAND_FAILED)"

text \<open>The inner and the outer loop of \<open>prv_check_acl_syntax\<close>.\<close>

function server_loop :: "string \<Rightarrow> unit outcome" where
  "server_loop cur_server =
     (let c = prv_check_server_id (Some (takeWhile (\<lambda>x. x \<noteq> CHR ''+'') cur_server)) in
      if c \<noteq> OMADM_SYNCML_ERROR_NONE then Err c
      else case strchr cur_server CHR ''+'' of
        None \<Rightarrow> Val ()
      | Some svr_sep \<Rightarrow> server_loop (tl svr_sep))"
  by pat_completeness auto
termination by (relation "measure length") (auto dest: strchr_shorter)

definition check_entry :: "string \<Rightarrow> unit outcome" where
  "check_entry cur_entry =
     (case strchr cur_entry CHR ''='' of
        None \<Rightarrow> Err OMADM_SYNCML_ERROR_COMMAND_FAILED
      | Some cmd_sep \<Rightarrow>
          let c = prv_check_acl_command (before cur_entry cmd_sep); cur_server = tl cmd_sep in
          if c \<noteq> OMADM_SYNCML_ERROR_NONE then Err c
          else if cur_server = [] then Err OMADM_SYNCML_ERROR_COMMAND_FAILED
          else if cur_server \<noteq> ''*'' then server_loop cur_server
          else Val ())"

function entry_loop :: "string \<Rightarrow> unit outcome" where
  "entry_loop cur_entry =
     (if cur_entry = [] then Val ()
      else case check_entry (takeWhile (\<lambda>x. x \<noteq> CHR ''&'') cur_entry) of
        Val _ \<Rightarrow>
          (case strchr cur_entry CHR ''&'' of
             None \<Rightarrow> Val ()
           | Some entry_sep \<Rightarrow> entry_loop (tl entry_sep))
      | Err e \<Rightarrow> Err e
      | Ub \<Rightarrow> Ub)"
  by pat_completeness auto
termination by (relation "measure length") (auto dest: strchr_shorter)

declare server_loop.simps [simp del] entry_loop.simps [simp del]

definition prv_check_acl_syntax :: "string \<Rightarrow> ('z heap_scheme, unit) cmd" where
  "prv_check_acl_syntax acl =
     DMC_FAIL_NULL (strdup acl) OMADM_SYNCML_ERROR_DEVICE_FULL (\<lambda>acl_copy. lift (entry_loop acl_copy))"

text \<open>What the loops accept, on the parts between the separators.\<close>

definition server_ok :: "string \<Rightarrow> bool" where
  "server_ok sv \<longleftrightarrow> sv \<noteq> [] \<and> (\<forall>c \<in> set sv. server_char c)"

definition entry_ok :: "string \<Rightarrow> bool" where
  "entry_ok e \<longleftrightarrow>
     (case strchr e CHR ''='' of
        None \<Rightarrow> False
      | Some r \<Rightarrow>
          before e r \<in> {''Get'', ''Add'', ''Replace'', ''Delete'', ''Exec''} \<and>
          (tl r = ''*'' \<or> (\<forall>sv \<in> set (split_on CHR ''+'' (tl r)). server_ok sv)))"

lemma prv_check_server_id_ok: "prv_check_server_id (Some sv) = OMADM_SYNCML_ERROR_NONE \<longleftrightarrow> server_ok sv"
  by (simp add: prv_check_server_id_def server_ok_def)

lemma prv_check_server_id_bad:
  "prv_check_server_id (Some sv) =
     (if server_ok sv then OMADM_SYNCML_ERROR_NONE else OMADM_SYNCML_ERROR_COMMAND_FAILED)"
  by (simp add: prv_check_server_id_def server_ok_def)

lemma server_loop_spec:
  "server_loop u = (if \<forall>sv \<in> set (split_on CHR ''+'' u). server_ok sv then Val ()
     else Err OMADM_SYNCML_ERROR_COMMAND_FAILED)"
proof (induction u rule: server_loop.induct)
  case (1 u)
  show ?case
  proof (cases "strchr u CHR ''+''")
    case None
    then have p: "CHR ''+'' \<notin> set u" by (simp add: strchr_None)
    then have T: "takeWhile (\<lambda>x. x \<noteq> CHR ''+'') u = u" by (subst takeWhile_eq_all_conv) auto
    show ?thesis
      unfolding server_loop.simps [of u] T Let_def
      using None p by (simp add: prv_check_server_id_bad)
  next
    case (Some r)
    show ?thesis
      using 1 [OF refl _ Some] Some
      by (simp add: server_loop.simps [of u] Let_def prv_check_server_id_bad split_on_strchr [of _ u])
  qed
qed

lemma check_entry_spec:
  "check_entry e = (if entry_ok e then Val () else Err OMADM_SYNCML_ERROR_COMMAND_FAILED)"
proof (cases "strchr e CHR ''=''")
  case (Some r)
  have star: "\<not> server_ok []" by (simp add: server_ok_def)
  show ?thesis
    using Some star
    by (auto simp: check_entry_def entry_ok_def Let_def prv_check_acl_command_def server_loop_spec)
qed (simp add: check_entry_def entry_ok_def)

lemma entry_loop_spec:
  "entry_loop u = (if \<forall>e \<in> set (pieces CHR ''&'' u). entry_ok e then Val ()
     else Err OMADM_SYNCML_ERROR_COMMAND_FAILED)"
proof (induction u rule: entry_loop.induct)
  case (1 u)
  show ?case
  proof (cases "u = []")
    case ne: False
    show ?thesis
    proof (cases "strchr u CHR ''&''")
      case None
      then show ?thesis
        using ne by (simp add: entry_loop.simps [of u] check_entry_spec pieces_rec [of _ u])
    next
      case (Some r)
      show ?thesis
        using 1 [OF ne _ Some] Some ne
        by (auto simp: entry_loop.simps [of u] check_entry_spec pieces_rec [of _ u])
    qed
  qed (simp add: entry_loop.simps)
qed

text \<open>
  C8. \<open>prv_check_acl_syntax\<close> accepts a string exactly when every entry (an empty one
  after a last ampersand apart) is a known command with a star or a list of valid server identifiers; it refuses every other
  string with COMMAND_FAILED and never leaves the string.
\<close>

theorem acl_syntax_decides:
  assumes "plenty h"
  shows "prv_check_acl_syntax acl h =
    (if \<forall>e \<in> set (pieces CHR ''&'' acl). entry_ok e then Val ()
     else Err OMADM_SYNCML_ERROR_COMMAND_FAILED, h)"
  using assms by (simp add: prv_check_acl_syntax_def DMC_FAIL_NULL_def lift_def entry_loop_spec)

theorem acl_syntax_decides_witness:
  "prv_check_acl_syntax ''Get=*&Add=ab+c'' \<lparr>mem = []\<rparr> = (Val (), \<lparr>mem = []\<rparr>) \<and>
   prv_check_acl_syntax ''Get=*&&Add=c'' \<lparr>mem = []\<rparr> = (Err 500, \<lparr>mem = []\<rparr>)"
  using acl_syntax_decides [of "\<lparr>mem = []\<rparr>" "''Get=*&Add=ab+c''"]
    acl_syntax_decides [of "\<lparr>mem = []\<rparr>" "''Get=*&&Add=c''"]
  by (simp add: pieces_def entry_ok_def strchr_def before_def server_ok_def server_char_def in_range_def)

section \<open>The check of a right\<close>

text \<open>
  The check cuts the caller's string at the end of the entry it found; the second component is
  the string it leaves.  A handle without a server identifier is a null pointer that the search
  dereferences.
\<close>

definition server_listed :: "string \<Rightarrow> string \<Rightarrow> bool" where
  "server_listed servers server_id =
     (case strstr servers server_id of
        None \<Rightarrow> False
      | Some server \<Rightarrow>
          \<not> ((before servers server \<noteq> [] \<and> last (before servers server) \<noteq> CHR ''+'') \<or>
             (drop (length server_id) server \<noteq> [] \<and> hd (drop (length server_id) server) \<noteq> CHR ''+'')))"

definition prv_check_access_rights ::
  "string option \<Rightarrow> string \<Rightarrow> string \<Rightarrow> unit outcome \<times> string" where
  "prv_check_access_rights server_id acl cmd_name =
     (case strstr acl cmd_name of
        None \<Rightarrow> (Err OMADM_SYNCML_ERROR_PERMISSION_DENIED, acl)
      | Some at \<Rightarrow>
          let rest = drop (length cmd_name) at;
              (cmd_begin, left) = (case strstr rest ''&'' of
                 None \<Rightarrow> (rest, acl)
               | Some cmd_end \<Rightarrow> (before rest cmd_end, before acl cmd_end))
          in (if cmd_begin = ''*'' then Val ()
              else case server_id of
                None \<Rightarrow> Ub
              | Some i \<Rightarrow>
                  if server_listed cmd_begin i then Val ()
                  else Err OMADM_SYNCML_ERROR_PERMISSION_DENIED, left))"

text \<open>
  The meaning of a right: the servers listed after the first occurrence of the command, up to the
  next ampersand.
\<close>

definition servers_of :: "string \<Rightarrow> string \<Rightarrow> string option" where
  "servers_of acl cmd_name =
     (case strstr acl cmd_name of
        None \<Rightarrow> None
      | Some at \<Rightarrow> Some (takeWhile (\<lambda>c. c \<noteq> CHR ''&'') (drop (length cmd_name) at)))"

definition granted :: "string \<Rightarrow> string \<Rightarrow> string \<Rightarrow> bool" where
  "granted acl cmd_name i \<longleftrightarrow>
     (case servers_of acl cmd_name of
        None \<Rightarrow> False
      | Some l \<Rightarrow> l = ''*'' \<or> i \<in> set (split_on CHR ''+'' l))"

lemma strstr_single: "strstr s [c] = strchr s c"
  by (induction s) (auto simp: strchr_def)

lemma cut_at_amp:
  "(case strstr rest ''&'' of None \<Rightarrow> (rest, a) | Some e \<Rightarrow> (before rest e, f e)) =
     (takeWhile (\<lambda>c. c \<noteq> CHR ''&'') rest, case strstr rest ''&'' of None \<Rightarrow> a | Some e \<Rightarrow> f e)"
proof (cases "strchr rest CHR ''&''")
  case None
  then have "CHR ''&'' \<notin> set rest" by (simp add: strchr_None)
  then have T: "takeWhile (\<lambda>c. c \<noteq> CHR ''&'') rest = rest" by (subst takeWhile_eq_all_conv) auto
  show ?thesis unfolding T using None by (simp add: strstr_single)
next
  case (Some r)
  then have "before rest r = takeWhile (\<lambda>c. c \<noteq> CHR ''&'') rest"
    using strchr_SomeD(1) [OF Some] by (metis before_append)
  then show ?thesis using Some by (simp add: strstr_single)
qed

lemma access_rights_eq:
  "fst (prv_check_access_rights server_id acl cmd_name) =
     (case servers_of acl cmd_name of
        None \<Rightarrow> Err OMADM_SYNCML_ERROR_PERMISSION_DENIED
      | Some l \<Rightarrow>
          if l = ''*'' then Val ()
          else case server_id of
            None \<Rightarrow> Ub
          | Some i \<Rightarrow> if server_listed l i then Val () else Err OMADM_SYNCML_ERROR_PERMISSION_DENIED)"
  by (simp add: prv_check_access_rights_def servers_of_def cut_at_amp Let_def split: option.splits)

lemma server_listed_sound:
  assumes "server_listed l i" and "CHR ''+'' \<notin> set i"
  shows "i \<in> set (split_on CHR ''+'' l)"
proof -
  obtain r where r: "strstr l i = Some r" using assms(1) by (auto simp: server_listed_def split: option.splits)
  obtain d where d: "r = i @ d" using strstr_SomeD [OF r] by (auto simp: prefix_def)
  have "l = before l r @ i @ d" using strstr_SomeD [OF r] d by simp
  moreover have "before l r = [] \<or> last (before l r) = CHR ''+''" "d = [] \<or> hd d = CHR ''+''"
    using assms(1) r d by (auto simp: server_listed_def)
  ultimately show ?thesis using piece_in_split [OF assms(2)] by metis
qed

lemma access_sound:
  "CHR ''+'' \<notin> set i \<Longrightarrow> fst (prv_check_access_rights (Some i) acl cmd_name) = Val () \<Longrightarrow>
     granted acl cmd_name i"
  using server_listed_sound
  by (auto simp: access_rights_eq granted_def split: option.splits if_splits)

lemma access_denied:
  "CHR ''+'' \<notin> set i \<Longrightarrow> \<not> granted acl cmd_name i \<Longrightarrow>
     fst (prv_check_access_rights (Some i) acl cmd_name) = Err OMADM_SYNCML_ERROR_PERMISSION_DENIED"
  using server_listed_sound
  by (auto simp: access_rights_eq granted_def split: option.splits)

text \<open>The cut that a check leaves behind takes entries away and adds none.\<close>

lemma strstr_extend: "strstr l c = Some q \<Longrightarrow> strstr (l @ r) c = Some (q @ r)"
proof (induction l)
  case (Cons x l)
  show ?case
  proof (cases "prefix c (x # l)")
    case True
    then have "prefix c ((x # l) @ r)" by (metis prefix_prefix)
    moreover have "q = x # l" using Cons.prems True by simp
    ultimately show ?thesis by simp
  next
    case False
    have q: "strstr l c = Some q" using Cons.prems False by simp
    have "\<not> prefix c (x # l @ r)"
    proof
      assume "prefix c (x # l @ r)"
      moreover have "length c \<le> length l" using strstr_SomeD [OF q] strstr_shorter [OF q] prefix_length_le by force
      ultimately have "prefix c (x # l)"
        using prefix_length_prefix [of c "(x # l) @ r" "x # l"] by simp
      then show False using False by simp
    qed
    then show ?thesis using Cons.IH [OF q] by simp
  qed
next
  case Nil
  then show ?case by (cases r) (auto split: if_splits)
qed

lemma servers_of_cut: "servers_of l c = Some x \<Longrightarrow> servers_of (l @ CHR ''&'' # r) c = Some x"
proof -
  assume a: "servers_of l c = Some x"
  then obtain q where q: "strstr l c = Some q" and x: "x = takeWhile (\<lambda>y. y \<noteq> CHR ''&'') (drop (length c) q)"
    by (auto simp: servers_of_def split: option.splits)
  have len: "length c \<le> length q" using strstr_SomeD [OF q] prefix_length_le by blast
  show ?thesis
    using strstr_extend [OF q, of "CHR ''&'' # r"] len x
    by (auto simp: servers_of_def takeWhile_append takeWhile_eq_all_conv [THEN iffD2])
qed

lemma granted_after_cut:
  assumes "granted (snd (prv_check_access_rights sv acl c0)) c i"
  shows "granted acl c i"
proof (cases "snd (prv_check_access_rights sv acl c0) = acl")
  case False
  then obtain q e where q: "strstr acl c0 = Some q" and e: "strstr (drop (length c0) q) ''&'' = Some e"
    and l: "snd (prv_check_access_rights sv acl c0) = before acl e"
    by (auto simp: prv_check_access_rights_def Let_def split: option.splits)
  have "drop (length c0) q = before (drop (length c0) q) e @ e" and "prefix ''&'' e"
    using strstr_SomeD [OF e] by blast+
  then obtain r where r: "e = CHR ''&'' # r" and d: "q = take (length c0) q @ before (drop (length c0) q) e @ e"
    by (metis Cons_prefix_Cons append_take_drop_id neq_Nil_conv prefix_Nil prefix_code(2) prefix_order.eq_refl)
  have "acl = (before acl q @ take (length c0) q @ before (drop (length c0) q) e) @ e"
    using strstr_SomeD [OF q] d by (metis append.assoc)
  then have "acl = before acl e @ CHR ''&'' # r" using r by (metis before_append)
  then have "servers_of acl c = Some x" if "servers_of (before acl e) c = Some x" for x
    using servers_of_cut [OF that] by metis
  then show ?thesis using assms l by (auto simp: granted_def split: option.splits)
qed (use assms in simp)

text \<open>
  C13. A right is granted only to a server the ACL lists for the command, or to all when it says
  so; and without the command in the ACL, or without the server in its list, the code is
  PERMISSION_DENIED.
\<close>

theorem access_rights_sound:
  assumes "CHR ''+'' \<notin> set i" and "prv_check_access_rights (Some i) acl cmd_name = (r, acl')"
  shows "(r = Val () \<longrightarrow> granted acl cmd_name i) \<and>
    (\<not> granted acl cmd_name i \<longrightarrow> r = Err OMADM_SYNCML_ERROR_PERMISSION_DENIED)"
proof -
  have "r = fst (prv_check_access_rights (Some i) acl cmd_name)" using assms(2) by simp
  then show ?thesis
    using server_listed_sound [OF _ assms(1)]
    by (auto simp: access_rights_eq granted_def split: option.splits)
qed

theorem access_rights_sound_witness:
  "fst (prv_check_access_rights (Some ''srv'') ''Get=*&Delete=adm+srv'' ''Delete='') = Val () \<and>
   granted ''Get=*&Delete=adm+srv'' ''Delete='' ''srv'' \<and>
   fst (prv_check_access_rights (Some ''srv'') ''Get=*&Delete=adm'' ''Delete='') = Err 425"
proof -
  have a: "fst (prv_check_access_rights (Some ''srv'') ''Get=*&Delete=adm+srv'' ''Delete='') = Val ()"
    by code_simp
  have b: "\<not> granted ''Get=*&Delete=adm'' ''Delete='' ''srv''" by code_simp
  show ?thesis
    using a b access_rights_sound [of "''srv''" "''Get=*&Delete=adm+srv''" "''Delete=''", OF _ prod.collapse [symmetric]]
      access_rights_sound [of "''srv''" "''Get=*&Delete=adm''" "''Delete=''", OF _ prod.collapse [symmetric]]
    by simp
qed

lemma last_piece:
  obtains a x where "s = a @ x" and "c \<notin> set x" and "a = [] \<or> last a = c"
proof (cases "c \<in> set s")
  case True
  then obtain y z where "s = y @ c # z" "c \<notin> set z" by (meson split_list_last)
  then show ?thesis using that [of "y @ [c]" z] by simp
qed (use that [of "[]" s] in simp)

lemma first_piece:
  obtains x a where "s = x @ a" and "c \<notin> set x" and "a = [] \<or> hd a = c"
proof (cases "c \<in> set s")
  case True
  then obtain y z where "s = y @ c # z" "c \<notin> set y" by (meson split_list_first)
  then show ?thesis using that [of y "c # z"] by simp
qed (use that [of s "[]"] in simp)

lemma split_on_part:
  "p \<in> set (split_on c s) \<Longrightarrow> \<exists>a b. s = a @ p @ b"
proof (induction s)
  case (Cons x s)
  show ?case
  proof (cases "p \<in> set (tl (split_on c s)) \<or> x = c \<and> p \<in> set (split_on c s)")
    case True
    then have "p \<in> set (split_on c s)" by (metis list.set_sel(2) split_on_not_Nil)
    then obtain a b where "s = a @ p @ b" using Cons.IH by blast
    then show ?thesis by (metis append_Cons)
  next
    case False
    then have "p = [] \<or> p = x # hd (split_on c s)" using Cons.prems by (auto split: if_splits)
    moreover have "\<exists>b. s = hd (split_on c s) @ b"
      using split_on_strchr [of c s] strchr_SomeD(1) [of s c]
      by (auto split: option.splits)
    ultimately show ?thesis by (metis append_Cons append_Nil)
  qed
qed simp

lemma server_listed_complete:
  assumes "i \<in> set (split_on CHR ''+'' l)" and "CHR ''+'' \<notin> set i"
    and "\<forall>sv \<in> set (split_on CHR ''+'' l). strstr sv i \<noteq> None \<longrightarrow> sv = i"
  shows "server_listed l i"
proof -
  have "strstr l i \<noteq> None" using split_on_part [OF assms(1)] by (auto simp: strstr_None)
  then obtain r where r: "strstr l i = Some r" by blast
  then obtain d where d: "r = i @ d" using strstr_SomeD [OF r] by (auto simp: prefix_def)
  have l: "l = before l r @ i @ d" using strstr_SomeD [OF r] d by simp
  obtain a x where a: "before l r = a @ x" "CHR ''+'' \<notin> set x" "a = [] \<or> last a = CHR ''+''"
    by (rule last_piece)
  obtain y b where b: "d = y @ b" "CHR ''+'' \<notin> set y" "b = [] \<or> hd b = CHR ''+''"
    by (rule first_piece)
  have "x @ i @ y \<in> set (split_on CHR ''+'' (a @ (x @ i @ y) @ b))"
    by (rule piece_in_split) (use a b assms(2) in auto)
  moreover have "a @ (x @ i @ y) @ b = l" using l a(1) b(1) by simp
  ultimately have "x @ i @ y \<in> set (split_on CHR ''+'' l)" by simp
  moreover have "strstr (x @ i @ y) i \<noteq> None" by (auto simp: strstr_None)
  ultimately have "x @ i @ y = i" using assms(3) by blast
  then have "length (x @ i @ y) = length i" by (rule arg_cong)
  then have "x = []" "y = []" by simp_all
  then show ?thesis using r d a b by (auto simp: server_listed_def)
qed

text \<open>
  C7. For a server whose identifier has no plus sign and is not a proper part of an identifier the
  entry lists, the check of a right succeeds exactly when the ACL lists the server for the command,
  or lets everybody; in every other case the code is PERMISSION_DENIED.
\<close>

theorem access_rights_complete:
  assumes "CHR ''+'' \<notin> set i"
    and "\<forall>l. servers_of acl cmd_name = Some l \<longrightarrow>
      (\<forall>sv \<in> set (split_on CHR ''+'' l). strstr sv i \<noteq> None \<longrightarrow> sv = i)"
  shows "fst (prv_check_access_rights (Some i) acl cmd_name) =
    (if granted acl cmd_name i then Val () else Err OMADM_SYNCML_ERROR_PERMISSION_DENIED)"
proof (cases "granted acl cmd_name i")
  case True
  then show ?thesis
    using assms(2) server_listed_complete [OF _ assms(1)]
    by (auto simp: access_rights_eq granted_def split: option.splits)
qed (simp add: access_denied [OF assms(1)])

theorem access_rights_complete_witness:
  "fst (prv_check_access_rights (Some ''srv'') ''Get=*&Delete=adm+srv'' ''Delete='') = Val () \<and>
   fst (prv_check_access_rights (Some ''srv'') ''Get=*&Delete=adm+srv'' ''Exec='') = Err 425"
proof -
  let ?acl = "''Get=*&Delete=adm+srv''"
  have "granted ?acl ''Delete='' ''srv''" "\<not> granted ?acl ''Exec='' ''srv''" by code_simp+
  moreover have "servers_of ?acl ''Delete='' = Some ''adm+srv''" "servers_of ?acl ''Exec='' = None"
    by code_simp+
  ultimately show ?thesis
    using access_rights_complete [of "''srv''" ?acl "''Delete=''"]
      access_rights_complete [of "''srv''" ?acl "''Exec=''"] by simp
qed

text \<open>
  Only the first occurrence of the identifier is looked at: a server that is listed after one
  whose identifier ends in its own is refused.
\<close>

theorem access_rights_suffix_refused:
  assumes "x \<noteq> []" and "CHR ''+'' \<notin> set x" and "CHR ''+'' \<notin> set i" and "CHR ''&'' \<notin> set (x @ i)"
    and "i \<noteq> []" and "hd i \<notin> set x"
  shows "granted (''Delete='' @ x @ i @ ''+'' @ i) ''Delete='' i \<and>
    fst (prv_check_access_rights (Some i) (''Delete='' @ x @ i @ ''+'' @ i) ''Delete='') =
      Err OMADM_SYNCML_ERROR_PERMISSION_DENIED"
proof -
  let ?l = "x @ i @ ''+'' @ i"
  have T: "takeWhile (\<lambda>c. c \<noteq> CHR ''&'') ?l = ?l"
    using assms(4) by (subst takeWhile_eq_all_conv) auto
  have s: "servers_of (''Delete='' @ ?l) ''Delete='' = Some ?l"
    using T by (simp add: servers_of_def)
  have "i \<in> set (split_on CHR ''+'' ((x @ i) @ CHR ''+'' # i))"
    using assms(2,3) by (subst split_on_append) simp_all
  then have g: "granted (''Delete='' @ ?l) ''Delete='' i" using s by (simp add: granted_def)
  have f: "strstr ?l i = Some (i @ ''+'' @ i)"
    using strstr_absent [OF assms(5,6), of "i @ ''+'' @ i"] assms(5)
    by (cases i) simp_all
  have "last x \<noteq> CHR ''+''" using assms(1,2) last_in_set by fastforce
  then have "\<not> server_listed ?l i" using f assms(1) by (simp add: server_listed_def before_def)
  moreover have "?l \<noteq> ''*''" using assms(1,5) by (cases x; cases i) auto
  ultimately show ?thesis using g s by (simp add: access_rights_eq)
qed

theorem access_rights_suffix_refused_witness:
  "granted ''Delete=my-srv+srv'' ''Delete='' ''srv'' \<and>
   fst (prv_check_access_rights (Some ''srv'') ''Delete=my-srv+srv'' ''Delete='') = Err 425"
  using access_rights_suffix_refused [of "''my-''" "''srv''"] by simp

text \<open>
  The check of one command cuts the ACL it is given, so a later check on the same string of a
  command listed after it is refused, although the ACL grants it to everybody: these are the two
  checks \<open>dmtree_add\<close> makes on the parent's ACL.
\<close>

theorem access_rights_cuts_acl:
  assumes "CHR ''&'' \<notin> set l" and "CHR ''R'' \<notin> set l"
  shows "granted (''Add='' @ l @ ''&Replace=*'') ''Replace='' i \<and>
    fst (prv_check_access_rights (Some i)
      (snd (prv_check_access_rights (Some i) (''Add='' @ l @ ''&Replace=*'') ''Add='')) ''Replace='') =
      Err OMADM_SYNCML_ERROR_PERMISSION_DENIED"
proof -
  let ?acl = "''Add='' @ l @ ''&Replace=*''"
  have "strstr ((''Add='' @ l @ ''&'') @ ''Replace=*'') ''Replace='' = strstr ''Replace=*'' ''Replace=''"
    by (rule strstr_absent) (use assms(2) in simp_all)
  then have g: "granted ?acl ''Replace='' i" by (simp add: granted_def servers_of_def)
  have "strstr (l @ ''&Replace=*'') ''&'' = Some ''&Replace=*''"
    using strchr_append [OF assms(1), of "''Replace=*''"] by (simp add: strstr_single)
  moreover have "before ((''Add='' @ l) @ ''&Replace=*'') ''&Replace=*'' = ''Add='' @ l"
    by (rule before_append)
  ultimately have c: "snd (prv_check_access_rights (Some i) ?acl ''Add='') = ''Add='' @ l"
    by (simp add: prv_check_access_rights_def)
  have "strstr (''Add='' @ l) ''Replace='' = None"
    by (rule strstr_absent_None) (use assms(2) in simp_all)
  then show ?thesis using g c by (simp add: prv_check_access_rights_def)
qed

theorem access_rights_cuts_acl_witness:
  "granted ''Add=srv&Replace=*'' ''Replace='' ''srv'' \<and>
   fst (prv_check_access_rights (Some ''srv'')
     (snd (prv_check_access_rights (Some ''srv'') ''Add=srv&Replace=*'' ''Add='')) ''Replace='') = Err 425"
  using access_rights_cuts_acl [of "''srv''" "''srv''"] by simp

end
