(* ===== verification/Dm_Tree.thy ===== *)
theory Dm_Tree
  imports Mo_Mgr Acl
begin

text \<open>
  The operations on the device management tree (\<^verbatim>\<open>dmcore/src/dmtree.c\<close>): inherited access
  control and the commands of a server.  The handle \<^verbatim>\<open>dmtree_t\<close> is the state: the manager's
  environment with the identifier of the server.
\<close>

section \<open>The handle\<close>

record 'w dmtree_t = "'w mo_env" +
  server_id :: "string option"

text \<open>
  A handle that cannot get its manager is closed with a null manager, which \<open>momgr_free\<close>
  dereferences.
\<close>

definition dmtree_open ::
  "(string \<Rightarrow> 'w \<Rightarrow> string option \<times> 'w) \<Rightarrow> ('z heap_scheme, 'w mo_mgr_t \<times> string option) cmd" where
  "dmtree_open dup h =
     (case malloc () h of
        (None, h) \<Rightarrow> (Err OMADM_SYNCML_ERROR_DEVICE_FULL, h)
      | (Some _, h) \<Rightarrow>
          (case momgr_init dup h of
             (Val (Some m), h) \<Rightarrow> (Val (m, None), h)
           | (Val None, h) \<Rightarrow> (Ub, h)
           | (Err e, h) \<Rightarrow> (Err e, h)
           | (Ub, h) \<Rightarrow> (Ub, h)))"

definition dmtree_setServer :: "string option \<Rightarrow> (('w, 'z) dmtree_t_scheme, unit) cmd" where
  "dmtree_setServer sv =
     DMC_FAIL_ERR (prv_check_server_id sv \<noteq> OMADM_SYNCML_ERROR_NONE) OMADM_SYNCML_ERROR_SESSION_INTERNAL (
     DMC_FAIL_NULL (pure sv) OMADM_SYNCML_ERROR_SESSION_INTERNAL (\<lambda>sv s.
       case strdup sv s of
         (c, s) \<Rightarrow>
           (case c of None \<Rightarrow> Err OMADM_SYNCML_ERROR_DEVICE_FULL | Some _ \<Rightarrow> Val (), s\<lparr>server_id := c\<rparr>)))"

definition dmtree_close :: "('w, 'z) dmtree_t_scheme \<Rightarrow> ('w, 'z) dmtree_t_scheme" where
  "dmtree_close s = momgr_free s\<lparr>server_id := None\<rparr>"

section \<open>Inherited access control\<close>

text \<open>The loop that cuts the last segment of the copied URI, up to and with its slash.\<close>

definition cut_segment :: "string \<Rightarrow> string" where
  "cut_segment uri = (case strrchr uri CHR ''/'' of None \<Rightarrow> [] | Some (a, b) \<Rightarrow> a)"

lemma cut_segment_shorter: "uri \<noteq> [] \<Longrightarrow> length (cut_segment uri) < length uri"
proof (cases "strrchr uri CHR ''/''")
  case (Some p)
  obtain a b where p: "p = (a, b)" by (cases p)
  with Some strrchr_SomeD [of uri "CHR ''/''" a b] show ?thesis
    by (auto simp: cut_segment_def)
qed (simp add: cut_segment_def)

lemma cut_segment_Cons: "length (cut_segment (c # cs)) < Suc (length cs)"
  using cut_segment_shorter [of "c # cs"] by simp

text \<open>
  The outer loop of \<open>prv_get_inherited_acl\<close>: \<open>err\<close> is the code of the round before, which is
  the result when the whole URI is cut away.
\<close>

function (sequential) acl_loop ::
  "string \<Rightarrow> int \<Rightarrow> (('w, 'z) mo_env_scheme, string option) cmd" where
  "acl_loop [] err s = (if err = OMADM_SYNCML_ERROR_NONE then Val None else Err err, s)"
| "acl_loop uri err s =
     (case momgr_get_ACL (Some uri) s of
        ((c, oACL), s) \<Rightarrow>
          if c \<noteq> OMADM_SYNCML_ERROR_NONE \<and> c \<noteq> OMADM_SYNCML_ERROR_NOT_FOUND then (Err c, s)
          else if oACL \<noteq> None then (if c = OMADM_SYNCML_ERROR_NONE then Val oACL else Err c, s)
          else acl_loop (cut_segment uri) c s)"
  by pat_completeness auto
termination
  by (relation "measure (\<lambda>(u, e, s). length u)") (auto simp: cut_segment_Cons)

definition prv_get_inherited_acl :: "string \<Rightarrow> (('w, 'z) mo_env_scheme, string option) cmd" where
  "prv_get_inherited_acl target =
     DMC_FAIL_NULL (strdup target) OMADM_SYNCML_ERROR_DEVICE_FULL (\<lambda>uri.
     acl_loop uri OMADM_SYNCML_ERROR_NONE)"

definition prv_check_node_acl_rights ::
  "string \<Rightarrow> string \<Rightarrow> (('w, 'z) dmtree_t_scheme, unit) cmd" where
  "prv_check_node_acl_rights target cmd_name =
     DMC_FAIL (prv_get_inherited_acl target) (\<lambda>acl.
     DMC_FAIL_NULL (pure acl) OMADM_SYNCML_ERROR_COMMAND_FAILED (\<lambda>acl s.
       (fst (prv_check_access_rights (server_id s) acl cmd_name), s)))"

section \<open>Commands\<close>

text \<open>A name, an ACL, or a format or type as the value of a property of a node.\<close>

definition text_node :: "nat \<Rightarrow> string option \<Rightarrow> dmtree_node_t \<Rightarrow> 'z heap_scheme \<Rightarrow>
    dmtree_node_t outcome \<times> 'z heap_scheme" where
  "text_node extra data node s =
     (case strdup ''chr'' s of
        (f, s) \<Rightarrow>
     (case strdup ''text/plain'' s of
        (t, s) \<Rightarrow>
          (Val (node\<lparr>node_format := f, node_type := t,
             data_size := (case data of None \<Rightarrow> 0 | Some d \<Rightarrow> length d + extra), data_buffer := data\<rparr>), s)))"

text \<open>The last segment of a URI.\<close>

definition node_name :: "string \<Rightarrow> string" where
  "node_name uri = (case strrchr uri CHR ''/'' of None \<Rightarrow> uri | Some (a, b) \<Rightarrow> tl b)"

text \<open>\<open>momgr_get_value\<close> on the node with its URI replaced by the target's during the call.\<close>

definition get_at ::
  "string \<Rightarrow> dmtree_node_t \<Rightarrow> (('w, 'z) mo_env_scheme, dmtree_node_t) cmd" where
  "get_at target_uri node =
     DMC_FAIL (momgr_get_value (Some (node\<lparr>node_uri := Some target_uri\<rparr>))) (\<lambda>n.
     ret (n\<lparr>node_uri := node_uri node\<rparr>))"

definition get_property ::
  "string \<Rightarrow> string \<Rightarrow> dmtree_node_t \<Rightarrow> (('w, 'z) mo_env_scheme, dmtree_node_t) cmd"
where
  "get_property target_uri prop_id node =
     (if prop_id = ''Name'' then
        DMC_FAIL_NULL (strdup (node_name target_uri)) OMADM_SYNCML_ERROR_DEVICE_FULL (\<lambda>n.
        text_node 0 (Some n) node)
      else if prop_id = ''ACL'' then
        (\<lambda>s. case momgr_get_ACL (Some target_uri) s of
               ((c, acl), s) \<Rightarrow>
                 if c \<noteq> OMADM_SYNCML_ERROR_NONE then (Err c, s) else text_node 0 acl node s)
      else if prop_id = ''Title'' then DMC_FAIL_FORCE OMADM_SYNCML_ERROR_OPTIONAL_FEATURE_NOT_SUPPORTED
      else if prop_id = ''Format'' \<or> prop_id = ''Type'' then
        DMC_FAIL (get_at target_uri node) (\<lambda>n.
        text_node 1 (if prop_id = ''Format'' then node_format n else node_type n) n)
      else DMC_FAIL_FORCE OMADM_SYNCML_ERROR_OPTIONAL_FEATURE_NOT_SUPPORTED)"

definition dmtree_get ::
  "dmtree_node_t option \<Rightarrow> (('w, 'z) dmtree_t_scheme, dmtree_node_t) cmd" where
  "dmtree_get nodeP =
     DMC_FAIL_NULL (pure nodeP) OMADM_SYNCML_ERROR_COMMAND_FAILED (\<lambda>node.
     DMC_FAIL_NULL (pure (node_uri node)) OMADM_SYNCML_ERROR_COMMAND_FAILED (\<lambda>uri.
     DMC_FAIL (momgr_validate_uri (Some uri) True True) (\<lambda>(target_uri, prop_id).
     DMC_FAIL (momgr_exists target_uri) (\<lambda>node_exists.
     DMC_FAIL_ERR (node_exists = OMADM_NODE_NOT_EXIST) OMADM_SYNCML_ERROR_NOT_FOUND (
     DMC_FAIL (prv_check_node_acl_rights target_uri ''Get='') (\<lambda>_.
     case prop_id of
       Some p \<Rightarrow> get_property target_uri p (node_zero\<lparr>node_uri := Some uri\<rparr>)
     | None \<Rightarrow> get_at target_uri (node_zero\<lparr>node_uri := Some uri\<rparr>)))))))"

definition dmtree_delete :: "string option \<Rightarrow> (('w, 'z) dmtree_t_scheme, unit) cmd" where
  "dmtree_delete uriP =
     DMC_FAIL_NULL (pure uriP) OMADM_SYNCML_ERROR_COMMAND_FAILED (\<lambda>uri.
     DMC_FAIL (momgr_validate_uri (Some uri) True False) (\<lambda>(target_uri, _).
     DMC_FAIL (momgr_exists target_uri) (\<lambda>node_exists.
     DMC_FAIL_ERR (node_exists = OMADM_NODE_NOT_EXIST) OMADM_SYNCML_ERROR_NOT_FOUND (
     DMC_FAIL (prv_check_node_acl_rights target_uri ''Delete='') (\<lambda>_.
     momgr_delete_node (Some target_uri))))))"

definition dmtree_exec ::
  "string option \<Rightarrow> string option \<Rightarrow> string option \<Rightarrow> (('w, 'z) dmtree_t_scheme, unit) cmd" where
  "dmtree_exec uriP data correlator =
     DMC_FAIL_NULL (pure uriP) OMADM_SYNCML_ERROR_COMMAND_FAILED (\<lambda>uri.
     DMC_FAIL (momgr_validate_uri (Some uri) True False) (\<lambda>(target_uri, _).
     DMC_FAIL (momgr_exists target_uri) (\<lambda>node_exists.
     DMC_FAIL_ERR (node_exists = OMADM_NODE_NOT_EXIST) OMADM_SYNCML_ERROR_NOT_FOUND (
     DMC_FAIL (prv_check_node_acl_rights target_uri ''Exec='') (\<lambda>_.
     momgr_exec_node (Some target_uri) data correlator)))))"

text \<open>
  The tail of \<open>dmtree_add\<close>: the rights of the creating server on a node whose parent does not
  let it replace.
\<close>

definition give_rights ::
  "string \<Rightarrow> string \<Rightarrow> (('w, 'z) dmtree_t_scheme, unit) cmd" where
  "give_rights target_uri parent_acl s =
     (case fst (prv_check_access_rights (server_id s) parent_acl ''Replace='') of
        Val _ \<Rightarrow> (Val (), s)
      | Ub \<Rightarrow> (Ub, s)
      | Err e \<Rightarrow>
          if e \<noteq> OMADM_SYNCML_ERROR_PERMISSION_DENIED then (Err e, s)
          else case server_id s of
            None \<Rightarrow> (Ub, s)
          | Some i \<Rightarrow>
              (DMC_FAIL_NULL (str_cat_3 ''Get=*&'' ''Add='' i) OMADM_SYNCML_ERROR_DEVICE_FULL (\<lambda>new_acl.
               DMC_FAIL_NULL (str_cat_3 new_acl ''&'' ''Delete='') OMADM_SYNCML_ERROR_DEVICE_FULL (\<lambda>tmp_str.
               DMC_FAIL_NULL (str_cat_5 tmp_str i ''&'' ''Replace='' i) OMADM_SYNCML_ERROR_DEVICE_FULL
                 (\<lambda>new_acl. momgr_set_ACL (Some target_uri) (Some new_acl))))) s)"

text \<open>\<open>dmtree_add\<close> from the check of the parent's ACL on.\<close>

definition add_checked ::
  "string \<Rightarrow> dmtree_node_t \<Rightarrow> string \<Rightarrow> (('w, 'z) dmtree_t_scheme, unit) cmd" where
  "add_checked target_uri node parent_acl s =
     (case prv_check_access_rights (server_id s) parent_acl ''Add='' of
        (r, parent_acl) \<Rightarrow>
          DMC_FAIL (lift r) (\<lambda>_.
          DMC_FAIL (momgr_set_value (Some (node\<lparr>node_uri := Some target_uri\<rparr>))) (\<lambda>_.
          give_rights target_uri parent_acl)) s)"

definition subtree_format :: "dmtree_node_t \<Rightarrow> bool" where
  "subtree_format node \<longleftrightarrow>
     node_format node = Some ''xml'' \<and>
     (node_type node = Some ''application/vnd.syncml.dmtnds+xml'' \<or>
      node_type node = Some ''application/vnd.syncml.dmtnds+wbxml'')"

definition dmtree_add :: "dmtree_node_t option \<Rightarrow> (('w, 'z) dmtree_t_scheme, unit) cmd" where
  "dmtree_add nodeP =
     DMC_FAIL_NULL (pure nodeP) OMADM_SYNCML_ERROR_COMMAND_FAILED (\<lambda>node.
     DMC_FAIL_NULL (pure (node_uri node)) OMADM_SYNCML_ERROR_COMMAND_FAILED (\<lambda>uri.
     DMC_FAIL (momgr_validate_uri (Some uri) True False) (\<lambda>(target_uri, _).
     DMC_FAIL_ERR (subtree_format node) OMADM_SYNCML_ERROR_OPTIONAL_FEATURE_NOT_SUPPORTED (
     DMC_FAIL (momgr_exists target_uri) (\<lambda>node_exists.
     DMC_FAIL_ERR (node_exists \<noteq> OMADM_NODE_NOT_EXIST) OMADM_SYNCML_ERROR_ALREADY_EXISTS (
     DMC_FAIL_NULL (strdup target_uri) OMADM_SYNCML_ERROR_DEVICE_FULL (\<lambda>parent.
     DMC_FAIL_NULL (pure (strrchr parent CHR ''/'')) OMADM_SYNCML_ERROR_COMMAND_FAILED (\<lambda>(parent_uri, _).
     DMC_FAIL (momgr_exists parent_uri) (\<lambda>node_exists.
     DMC_FAIL_ERR (node_exists = OMADM_NODE_IS_LEAF) OMADM_SYNCML_ERROR_NOT_ALLOWED (
     DMC_FAIL (prv_get_inherited_acl parent_uri) (\<lambda>acl.
     DMC_FAIL_NULL (pure acl) OMADM_SYNCML_ERROR_COMMAND_FAILED (\<lambda>parent_acl.
     add_checked target_uri node parent_acl))))))))))))"

definition replace_property ::
  "string \<Rightarrow> omadmtree_node_kind_t \<Rightarrow> string \<Rightarrow> string \<Rightarrow> (('w, 'z) dmtree_t_scheme, unit) cmd"
where
  "replace_property target_uri node_exists prop_id data =
     (if prop_id = ''Name'' then
        DMC_FAIL (prv_check_node_acl_rights target_uri ''Replace='') (\<lambda>_.
        DMC_FAIL_ERR (strstr data ''/'' \<noteq> None) OMADM_SYNCML_ERROR_COMMAND_FAILED (
        momgr_rename_node (Some target_uri) (Some data)))
      else if prop_id = ''ACL'' then
        DMC_FAIL
          (if node_exists = OMADM_NODE_IS_INTERIOR then prv_check_node_acl_rights target_uri ''Replace=''
           else
             DMC_FAIL_NULL (strdup target_uri) OMADM_SYNCML_ERROR_DEVICE_FULL (\<lambda>parent.
             DMC_FAIL_NULL (pure (strrchr parent CHR ''/'')) OMADM_SYNCML_ERROR_COMMAND_FAILED
               (\<lambda>(parent_uri, _). prv_check_node_acl_rights parent_uri ''Replace=''))) (\<lambda>_.
        DMC_FAIL (prv_check_acl_syntax data) (\<lambda>_.
        momgr_set_ACL (Some target_uri) (Some data)))
      else if prop_id = ''Title'' then DMC_FAIL_FORCE OMADM_SYNCML_ERROR_OPTIONAL_FEATURE_NOT_SUPPORTED
      else DMC_FAIL_FORCE OMADM_SYNCML_ERROR_NOT_ALLOWED)"

definition dmtree_replace :: "dmtree_node_t option \<Rightarrow> (('w, 'z) dmtree_t_scheme, unit) cmd" where
  "dmtree_replace nodeP =
     DMC_FAIL_NULL (pure nodeP) OMADM_SYNCML_ERROR_COMMAND_FAILED (\<lambda>node.
     DMC_FAIL_NULL (pure (node_uri node)) OMADM_SYNCML_ERROR_COMMAND_FAILED (\<lambda>uri.
     DMC_FAIL_NULL (pure (data_buffer node)) OMADM_SYNCML_ERROR_COMMAND_FAILED (\<lambda>data.
     DMC_FAIL (momgr_validate_uri (Some uri) True True) (\<lambda>(target_uri, prop_id).
     DMC_FAIL (momgr_exists target_uri) (\<lambda>node_exists.
     DMC_FAIL_ERR (node_exists = OMADM_NODE_NOT_EXIST) OMADM_SYNCML_ERROR_NOT_FOUND (
     case prop_id of
       Some p \<Rightarrow> replace_property target_uri node_exists p data
     | None \<Rightarrow>
         DMC_FAIL_ERR (node_exists = OMADM_NODE_IS_INTERIOR) OMADM_SYNCML_ERROR_NOT_ALLOWED (
         DMC_FAIL (prv_check_node_acl_rights target_uri ''Replace='') (\<lambda>_.
         momgr_set_value (Some (node\<lparr>node_uri := Some target_uri\<rparr>))))))))))"

definition dmtree_copy :: "string \<Rightarrow> string \<Rightarrow> (('w, 'z) dmtree_t_scheme, unit) cmd" where
  "dmtree_copy source_uri target_uri = DMC_FAIL_FORCE OMADM_SYNCML_ERROR_COMMAND_NOT_IMPLEMENTED"

section \<open>Objects whose queries change nothing\<close>

text \<open>
  The interface documents \<open>isNodeFunc\<close>, \<open>getFunc\<close> and \<open>getACLFunc\<close> as queries.
\<close>

definition pure_queries :: "'w dmtree_plugin_t \<Rightarrow> bool" where
  "pure_queries p \<longleftrightarrow>
     (\<forall>f u w. isNodeFunc (interface p) = Some f \<longrightarrow> snd (f u (plugin_data p) w) = w) \<and>
     (\<forall>f n w. getFunc (interface p) = Some f \<longrightarrow> snd (f n (plugin_data p) w) = w) \<and>
     (\<forall>f u w. getACLFunc (interface p) = Some f \<longrightarrow> snd (f u (plugin_data p) w) = w)"

text \<open>
  \<open>still d w i\<close>: the directory is \<open>d\<close>, with a right cache, the world is \<open>w\<close>, the server
  is \<open>i\<close>, and no allocation fails.
\<close>

definition still ::
  "'w mo_dir_t \<Rightarrow> 'w \<Rightarrow> string option \<Rightarrow> ('w, 'z) dmtree_t_scheme \<Rightarrow> bool" where
  "still d w i s \<longleftrightarrow> dirs_are d s \<and> world s = w \<and> server_id s = i \<and> mem s = []"

lemma server_id_more: "mo_env.more t = mo_env.more s \<Longrightarrow> server_id t = server_id s"
  by (cases s; cases t) simp

lemma keeps_still_malloc [keeps_rules]: "keeps (still d w i) (malloc a)"
  by (rule keepsI) (simp add: still_def)

lemma keeps_still_str_cat_3 [keeps_rules]: "keeps (still d w i) (str_cat_3 a b c)"
  unfolding str_cat_3_def by (rule keeps_still_malloc)

lemma find_dir_plenty_any: "plenty h \<Longrightarrow> snd (prv_findMoDir up d u e h) = h"
proof (induction up d u e h rule: prv_findMoDir.induct)
  case (1 up d u e h)
  then show ?case by (subst prv_findMoDir.simps) (auto split: option.splits)
qed

lemma keeps_still_find_root [keeps_rules]:
  "keeps (still d w i) (\<lambda>s. prv_findMoDir up (root (MOs s)) u x s)"
  by (rule keepsI) (simp add: still_def find_dir_plenty_any)

lemma keeps_still_uri_validate [keeps_rules]: "keeps (still d w i) (uri_validate t m l u b c)"
  unfolding uri_validate_def cut_prop_def node_form_def check_path_def by (intro keeps_rules)

lemma keeps_still_validate [keeps_rules]: "keeps (still d w i) (momgr_validate_uri u b c)"
  unfolding momgr_validate_uri_def
  by (rule keepsI) (rule keepsD [OF keeps_still_uri_validate _ prod.collapse [symmetric]])

lemma findPlugin_still:
  assumes s: "still d w i s" and f: "prv_findPlugin u s = (r, t)"
  shows "still d w i t" and "r = longest (plugin_at d) (path_of u)"
proof -
  have c: "cache_ok (MOs s)" "plenty s" using s by (simp_all add: still_def dirs_are_def)
  show "still d w i t"
    using findPlugin_longest_prefix [OF c(2,1), of u] f s server_id_more [OF findPlugin_more [OF f]]
    by (auto simp: still_def dirs_are_def)
  show "r = longest (plugin_at d) (path_of u)"
    using findPlugin_longest_prefix [OF c(2,1), of u] f s by (auto simp: still_def dirs_are_def)
qed

lemma keeps_still_pure_call [keeps_rules]:
  "(\<And>w. snd (f w) = w) \<Longrightarrow> keeps (still d w i) (on_world f)"
  by (rule keepsI) (simp add: on_world_def still_def dirs_are_def split: prod.splits; metis snd_conv)

text \<open>What the objects of a directory answer for the ACL of a node, and the ACL it inherits.\<close>

definition acl_answer :: "'w mo_dir_t \<Rightarrow> 'w \<Rightarrow> string \<Rightarrow> int \<times> string option" where
  "acl_answer d w uri =
     (case longest (plugin_at d) (path_of uri) of
        None \<Rightarrow> (OMADM_SYNCML_ERROR_NOT_FOUND, None)
      | Some p \<Rightarrow>
          (case getACLFunc (interface p) of
             None \<Rightarrow> (OMADM_SYNCML_ERROR_NOT_ALLOWED, None)
           | Some f \<Rightarrow> fst (f uri (plugin_data p) w)))"

function effective_acl :: "'w mo_dir_t \<Rightarrow> 'w \<Rightarrow> string \<Rightarrow> string option" where
  "effective_acl d w uri =
     (if uri = [] then None
      else case acl_answer d w uri of
        (c, acl) \<Rightarrow>
          if acl \<noteq> None then (if c = OMADM_SYNCML_ERROR_NONE then acl else None)
          else if c = OMADM_SYNCML_ERROR_NONE \<or> c = OMADM_SYNCML_ERROR_NOT_FOUND
          then effective_acl d w (cut_segment uri)
          else None)"
  by pat_completeness auto
termination by (relation "measure (\<lambda>(d, w, u). length u)") (auto intro: cut_segment_shorter)

declare effective_acl.simps [simp del]

definition may :: "'w mo_dir_t \<Rightarrow> 'w \<Rightarrow> string \<Rightarrow> string \<Rightarrow> string \<Rightarrow> bool" where
  "may d w i cmd_name uri \<longleftrightarrow>
     (case effective_acl d w uri of None \<Rightarrow> False | Some acl \<Rightarrow> granted acl cmd_name i)"

lemma validated_target:
  "momgr_validate_uri (Some u) a b s = (Val (n, p), t) \<Longrightarrow> n = normal (uri_node u)"
  unfolding momgr_validate_uri_def by (drule uri_validate_val) simp

lemma needs_validated:
  "(\<And>p. needs (still d w i) A (k (normal (uri_node u), p))) \<Longrightarrow>
     needs (still d w i) A (DMC_FAIL (momgr_validate_uri (Some u) a b) k)"
  by (rule needs_FAIL [OF keeps_still_validate]) (auto dest: validated_target)

lemma needs_then: "keeps I m \<Longrightarrow> (\<And>a. needs I A (k a)) \<Longrightarrow> needs I A (DMC_FAIL m k)"
  by (rule needs_FAIL) blast+

lemma needs_mono: "needs I A m \<Longrightarrow> (A \<Longrightarrow> B) \<Longrightarrow> needs I B m"
  by (auto simp: needs_def)

section \<open>The contract of the objects' queries\<close>

locale query_objects =
  fixes d :: "'w mo_dir_t"
  assumes pure: "plugin_at d q = Some p \<Longrightarrow> pure_queries p"
begin

lemma found_pure: "longest (plugin_at d) q = Some p \<Longrightarrow> pure_queries p"
  by (drule longest_SomeD) (auto intro: pure)

lemma keeps_still_findPlugin:
  fixes k :: "'w dmtree_plugin_t \<Rightarrow> (('w, 'z) dmtree_t_scheme, 'c) cmd"
  assumes "\<And>p. pure_queries p \<Longrightarrow> keeps (still d w i) (k p)"
  shows "keeps (still d w i) (DMC_FAIL_NULL (prv_findPlugin u) e k)"
proof (rule keepsI)
  fix s :: "('w, 'z) dmtree_t_scheme"
  assume s: "still d w i s"
  obtain r t where f: "prv_findPlugin u s = (r, t)" by (metis surj_pair)
  note t = findPlugin_still [OF s f]
  show "still d w i (snd (DMC_FAIL_NULL (prv_findPlugin u) e k s))"
  proof (cases r)
    case None
    then show ?thesis using f t(1) by (simp add: DMC_FAIL_NULL_def)
  next
    case (Some p)
    then have "keeps (still d w i) (k p)" using assms found_pure [of "path_of u" p] t(2) by simp
    then show ?thesis using f t(1) Some by (simp add: DMC_FAIL_NULL_def keeps_def)
  qed
qed

lemma keeps_still_exists: "keeps (still d w i) (momgr_exists u)"
  unfolding momgr_exists_def
  by (intro keeps_still_findPlugin keeps_present keeps_rules) (simp add: pure_queries_def)

lemma get_ACL_still:
  assumes s: "still d w i s"
  shows "\<exists>t. momgr_get_ACL (Some u) s = (acl_answer d w u, t) \<and> still d w i t"
proof -
  obtain r t where f: "prv_findPlugin u s = (r, t)" by (metis surj_pair)
  note t = findPlugin_still [OF s f]
  show ?thesis
  proof (cases "\<exists>p g. r = Some p \<and> getACLFunc (interface p) = Some g")
    case True
    then obtain p g where p: "r = Some p" "getACLFunc (interface p) = Some g" by blast
    have "snd (g u (plugin_data p) v) = v" for v
      using found_pure [of "path_of u" p] t(2) p by (auto simp: pure_queries_def)
    then have "g u (plugin_data p) w = (fst (g u (plugin_data p) w), w)" by (metis prod.collapse)
    then have "on_world (g u (plugin_data p)) t = (fst (g u (plugin_data p) w), t\<lparr>world := w\<rparr>)"
      using t(1) by (intro on_world_eq) (simp add: still_def)
    moreover have "t\<lparr>world := w\<rparr> = t" using t(1) by (cases t) (simp add: still_def)
    ultimately have "on_world (g u (plugin_data p)) t = (fst (g u (plugin_data p) w), t)" by simp
    then show ?thesis using f p t by (auto simp: momgr_get_ACL_def acl_answer_def)
  next
    case False
    then show ?thesis
      using f t by (auto simp: momgr_get_ACL_def acl_answer_def split: option.splits)
  qed
qed

lemma acl_loop_still:
  "still d w i s \<Longrightarrow> acl_loop u c s = (r, t) \<Longrightarrow>
     still d w i t \<and> (\<forall>acl. r = Val (Some acl) \<longrightarrow> effective_acl d w u = Some acl)"
proof (induction u c s arbitrary: r t rule: acl_loop.induct)
  case (1 c s)
  then show ?case by (auto split: if_splits)
next
  case (2 x xs c s)
  let ?u = "x # xs"
  obtain s' where a: "momgr_get_ACL (Some ?u) s = (acl_answer d w ?u, s')" "still d w i s'"
    using get_ACL_still [OF 2(2)] by blast
  obtain c' acl where ca: "acl_answer d w ?u = (c', acl)" by (metis surj_pair)
  show ?case
  proof (cases "(c' \<noteq> OMADM_SYNCML_ERROR_NONE \<and> c' \<noteq> OMADM_SYNCML_ERROR_NOT_FOUND) \<or> acl \<noteq> None")
    case True
    then show ?thesis using 2(3) a ca by (auto simp: effective_acl.simps [of d w ?u] split: if_splits)
  next
    case False
    then have "acl_loop (cut_segment ?u) c' s' = (r, t)" using 2(3) a ca by auto
    moreover have "effective_acl d w ?u = effective_acl d w (cut_segment ?u)"
      using False ca by (simp add: effective_acl.simps [of d w ?u])
    ultimately show ?thesis
      using 2(1) [of "(c', acl)" s' c' acl r t] False a ca by simp
  qed
qed

lemma inherited_still:
  "still d w i s \<Longrightarrow> prv_get_inherited_acl u s = (r, t) \<Longrightarrow>
     still d w i t \<and> (\<forall>acl. r = Val (Some acl) \<longrightarrow> effective_acl d w u = Some acl)"
  using acl_loop_still [of w i s u OMADM_SYNCML_ERROR_NONE r t]
  by (simp add: prv_get_inherited_acl_def DMC_FAIL_NULL_def still_def)

lemma keeps_inherited: "keeps (still d w i) (prv_get_inherited_acl u)"
  by (rule keepsI) (metis inherited_still prod.collapse)

lemma rights_still:
  assumes "still d w (Some i) s" and "prv_check_node_acl_rights u cmd_name s = (r, t)"
    and "CHR ''+'' \<notin> set i"
  shows "still d w (Some i) t \<and> (r = Val () \<longrightarrow> may d w i cmd_name u)"
proof -
  obtain ra t' where a: "prv_get_inherited_acl u s = (ra, t')" by (metis surj_pair)
  note t = inherited_still [OF assms(1) a]
  show ?thesis
  proof (cases "\<exists>acl. ra = Val (Some acl)")
    case True
    then obtain acl where ra: "ra = Val (Some acl)" by blast
    have "server_id t' = Some i" using t by (simp add: still_def)
    then have r: "t = t'" "r = fst (prv_check_access_rights (Some i) acl cmd_name)"
      using assms(2) a ra by (auto simp: prv_check_node_acl_rights_def cmd_defs)
    have "r = Val () \<Longrightarrow> granted acl cmd_name i"
      using access_sound [OF assms(3), of acl cmd_name] r(2) by simp
    then show ?thesis using t r ra by (auto simp: may_def)
  next
    case False
    then show ?thesis
      using assms(2) a t by (auto simp: prv_check_node_acl_rights_def cmd_defs split: outcome.splits option.splits)
  qed
qed

lemma keeps_rights: "CHR ''+'' \<notin> set i \<Longrightarrow> keeps (still d w (Some i)) (prv_check_node_acl_rights u c)"
  by (rule keepsI) (metis rights_still prod.collapse)

lemma keeps_still_append_names [keeps_rules]: "keeps (still d w i) (append_names ns node)"
proof (induction ns arbitrary: node)
  case Nil
  show ?case unfolding append_names.simps by (intro keeps_rules)
next
  case (Cons n ns)
  show ?case unfolding append_names.simps by (intro keeps_rules Cons)
qed

lemma keeps_still_get_value: "keeps (still d w i) (momgr_get_value n)"
  unfolding momgr_get_value_def nested_names_def
  by (intro keeps_still_findPlugin keeps_present keeps_rules) (simp add: pure_queries_def)

lemma keeps_still_get_ACL: "keeps (still d w i) (momgr_get_ACL (Some u))"
  by (rule keepsI) (metis get_ACL_still snd_conv)

lemma keeps_get_property: "keeps (still d w i) (get_property u p n)"
  unfolding get_property_def get_at_def text_node_def
  by (intro keeps_rules keeps_still_get_value keeps_still_get_ACL)

lemma get_value_right:
  assumes s: "still d w (Some i) s" and i: "CHR ''+'' \<notin> set i" and u: "node_uri node = Some uri"
    and g: "dmtree_get (Some node) s = (Val n, t)"
  shows "may d w i ''Get='' (normal (uri_node uri))"
proof -
  from g u obtain target p s1 k s2 s3 where v: "momgr_validate_uri (Some uri) True True s = (Val (target, p), s1)"
    and e: "momgr_exists target s1 = (Val k, s2)"
    and r: "prv_check_node_acl_rights target ''Get='' s2 = (Val (), s3)"
    unfolding dmtree_get_def by (auto simp: cmd_val)
  have "still d w (Some i) s2" using keepsD [OF keeps_still_exists keepsD [OF keeps_still_validate s v] e] .
  then have "may d w i ''Get='' target" using rights_still [OF _ r i] by simp
  then show ?thesis using validated_target [OF v] by simp
qed

lemma get_keeps: "CHR ''+'' \<notin> set i \<Longrightarrow> keeps (still d w (Some i)) (dmtree_get node)"
  unfolding dmtree_get_def get_at_def
  by (intro keeps_rules keeps_still_exists keeps_rights keeps_get_property keeps_still_get_value)

lemma needs_rights:
  "CHR ''+'' \<notin> set i \<Longrightarrow> needs (still d w (Some i)) (may d w i c u) (DMC_FAIL (prv_check_node_acl_rights u c) k)"
  by (rule needs_FAIL [OF keeps_rights]) (use rights_still in fastforce)+

lemma delete_needs_right:
  assumes i: "CHR ''+'' \<notin> set i"
  shows "needs (still d w (Some i)) (may d w i ''Delete='' (normal (uri_node u))) (dmtree_delete (Some u))"
  unfolding dmtree_delete_def
  by (rule needs_present, drule sym, simp only: option.inject,
      rule needs_validated, simp only: prod.case,
      rule needs_then [OF keeps_still_exists], rule needs_FAIL_ERR, rule needs_rights [OF i])

lemma exec_needs_right:
  assumes i: "CHR ''+'' \<notin> set i"
  shows "needs (still d w (Some i)) (may d w i ''Exec='' (normal (uri_node u))) (dmtree_exec (Some u) a b)"
  unfolding dmtree_exec_def
  by (rule needs_present, drule sym, simp only: option.inject,
      rule needs_validated, simp only: prod.case,
      rule needs_then [OF keeps_still_exists], rule needs_FAIL_ERR, rule needs_rights [OF i])

lemma add_checked_needs_right:
  assumes i: "CHR ''+'' \<notin> set i" and e: "effective_acl d w p = Some acl"
  shows "needs (still d w (Some i)) (may d w i ''Add='' p) (add_checked u node acl)"
  unfolding needs_def
proof (intro allI impI)
  fix s :: "('w, 'a) dmtree_t_scheme"
  assume s: "still d w (Some i) s"
  obtain r acl' where r: "prv_check_access_rights (Some i) acl ''Add='' = (r, acl')" by (metis surj_pair)
  have sv: "server_id s = Some i" using s by (simp add: still_def)
  show "may d w i ''Add='' p \<or> still d w (Some i) (snd (add_checked u node acl s))"
  proof (cases "r = Val ()")
    case True
    then have "granted acl ''Add='' i" using access_sound [OF i, of acl "''Add=''"] r by simp
    then show ?thesis using e by (simp add: may_def)
  next
    case False
    then show ?thesis using r sv s by (cases r) (simp_all add: add_checked_def cmd_defs)
  qed
qed

lemma add_needs_right:
  assumes i: "CHR ''+'' \<notin> set i" and u: "node_uri node = Some u"
  shows "needs (still d w (Some i)) (may d w i ''Add='' (cut_segment (normal (uri_node u))))
    (dmtree_add (Some node))"
proof -
  let ?t = "normal (uri_node u)"
  let ?I = "still d w (Some i) :: ('w, 'a) dmtree_t_scheme \<Rightarrow> bool"
  let ?A = "may d w i ''Add='' (cut_segment ?t)"
  have parent: "needs ?I ?A
      (DMC_FAIL_NULL (strdup ?t) OMADM_SYNCML_ERROR_DEVICE_FULL (\<lambda>parent.
       DMC_FAIL_NULL (pure (strrchr parent CHR ''/'')) OMADM_SYNCML_ERROR_COMMAND_FAILED (\<lambda>(parent_uri, _).
       DMC_FAIL (momgr_exists parent_uri) (\<lambda>node_exists.
       DMC_FAIL_ERR (node_exists = OMADM_NODE_IS_LEAF) OMADM_SYNCML_ERROR_NOT_ALLOWED (
       DMC_FAIL (prv_get_inherited_acl parent_uri) (\<lambda>acl.
       DMC_FAIL_NULL (pure acl) OMADM_SYNCML_ERROR_COMMAND_FAILED (\<lambda>parent_acl.
       add_checked ?t node parent_acl)))))))"
  proof (rule needs_FAIL_NULL [OF keeps_still_malloc], rule disjI2, drule malloc_SomeD, hypsubst,
      rule needs_present, simp only: split_paired_all prod.case,
      rule needs_then [OF keeps_still_exists], rule needs_FAIL_ERR,
      rule needs_FAIL [OF keeps_inherited], rule disjI2, rule needs_present)
    fix pu x k s acl t parent_acl
    assume p: "strrchr ?t CHR ''/'' = Some (pu, x)" and s: "?I s"
      and a: "prv_get_inherited_acl pu s = (Val acl, t)" and acl: "acl = Some parent_acl"
    have c: "cut_segment ?t = pu" using p by (simp add: cut_segment_def)
    have "effective_acl d w pu = Some parent_acl" using inherited_still [OF s a] acl by simp
    then show "needs ?I ?A (add_checked ?t node parent_acl)"
      unfolding c by (rule add_checked_needs_right [OF i])
  qed
  show ?thesis
    unfolding dmtree_add_def
    by (rule needs_present, drule sym, simp only: option.inject, simp only: u,
        rule needs_present, drule sym, simp only: option.inject,
        rule needs_validated, simp only: prod.case, rule needs_FAIL_ERR,
        rule needs_then [OF keeps_still_exists], rule needs_FAIL_ERR, rule parent)
qed

lemma replace_needs_right:
  assumes i: "CHR ''+'' \<notin> set i" and u: "node_uri node = Some u"
  shows "needs (still d w (Some i))
    (may d w i ''Replace='' (normal (uri_node u)) \<or> may d w i ''Replace='' (cut_segment (normal (uri_node u))))
    (dmtree_replace (Some node))"
proof -
  let ?t = "normal (uri_node u)"
  let ?I = "still d w (Some i) :: ('w, 'a) dmtree_t_scheme \<Rightarrow> bool"
  let ?A = "may d w i ''Replace='' ?t \<or> may d w i ''Replace='' (cut_segment ?t)"
  have here: "needs ?I ?A (DMC_FAIL (prv_check_node_acl_rights ?t ''Replace='') k)" for k :: "unit \<Rightarrow> (('w, 'a) dmtree_t_scheme, unit) cmd"
    by (rule needs_mono [OF needs_rights [OF i]]) simp
  have kp: "keeps ?I (DMC_FAIL_NULL (strdup ?t) OMADM_SYNCML_ERROR_DEVICE_FULL (\<lambda>parent.
      DMC_FAIL_NULL (pure (strrchr parent CHR ''/'')) OMADM_SYNCML_ERROR_COMMAND_FAILED
        (\<lambda>(parent_uri, _). prv_check_node_acl_rights parent_uri ''Replace='')))"
    by (intro keeps_rules keeps_rights [OF i])
  have parent: "needs ?I ?A (DMC_FAIL
      (DMC_FAIL_NULL (strdup ?t) OMADM_SYNCML_ERROR_DEVICE_FULL (\<lambda>parent.
      DMC_FAIL_NULL (pure (strrchr parent CHR ''/'')) OMADM_SYNCML_ERROR_COMMAND_FAILED
        (\<lambda>(parent_uri, _). prv_check_node_acl_rights parent_uri ''Replace=''))) k)"
    for k :: "unit \<Rightarrow> (('w, 'a) dmtree_t_scheme, unit) cmd"
  proof (rule needs_FAIL [OF kp], rule disjI1)
    fix s a t
    assume s: "?I s" and r: "DMC_FAIL_NULL (strdup ?t) OMADM_SYNCML_ERROR_DEVICE_FULL (\<lambda>parent.
      DMC_FAIL_NULL (pure (strrchr parent CHR ''/'')) OMADM_SYNCML_ERROR_COMMAND_FAILED
        (\<lambda>(parent_uri, _). prv_check_node_acl_rights parent_uri ''Replace='')) s = (Val a, t)"
    have "plenty s" using s by (simp add: still_def)
    with r obtain pu x where p: "strrchr ?t CHR ''/'' = Some (pu, x)"
      and c: "prv_check_node_acl_rights pu ''Replace='' s = (Val a, t)"
      by (auto simp: DMC_FAIL_NULL_def pure_def split: option.splits)
    then have "may d w i ''Replace='' pu" using rights_still [OF s c i] by simp
    then show ?A using p by (simp add: cut_segment_def)
  qed
  have pr: "needs ?I ?A (replace_property ?t k p dat)" for k p dat
    unfolding replace_property_def
    by (auto intro: here parent needs_keeps keeps_FORCE)
  show ?thesis
    unfolding dmtree_replace_def
    by (rule needs_present, drule sym, simp only: option.inject, simp only: u,
        rule needs_present, drule sym, simp only: option.inject,
        rule needs_present,
        rule needs_validated, simp only: prod.case,
        rule needs_then [OF keeps_still_exists], rule needs_FAIL_ERR)
      (auto intro: pr needs_FAIL_ERR here split: option.splits)
qed

lemma acl_loop_complete:
  "still d w i s \<Longrightarrow> effective_acl d w u = Some acl \<Longrightarrow>
     \<exists>t. acl_loop u c s = (Val (Some acl), t) \<and> still d w i t"
proof (induction u c s rule: acl_loop.induct)
  case (1 c s)
  then show ?case by (simp add: effective_acl.simps)
next
  case (2 x xs c s)
  let ?u = "x # xs"
  obtain s' where a: "momgr_get_ACL (Some ?u) s = (acl_answer d w ?u, s')" "still d w i s'"
    using get_ACL_still [OF 2(2)] by blast
  obtain c' a' where ca: "acl_answer d w ?u = (c', a')" by (metis surj_pair)
  show ?case
  proof (cases "a' = None")
    case True
    then have "c' = OMADM_SYNCML_ERROR_NONE \<or> c' = OMADM_SYNCML_ERROR_NOT_FOUND"
      and e: "effective_acl d w (cut_segment ?u) = Some acl"
      using 2(3) ca by (auto simp: effective_acl.simps [of d w ?u] split: if_splits)
    then show ?thesis
      using 2(1) [of "(c', a')" s' c' a'] a ca True by auto
  next
    case False
    then show ?thesis
      using 2(3) a ca by (auto simp: effective_acl.simps [of d w ?u] split: if_splits)
  qed
qed

lemma rights_denied:
  assumes "still d w (Some i) s" and "effective_acl d w u = Some acl" and "\<not> granted acl c i"
    and "CHR ''+'' \<notin> set i"
  shows "fst (prv_check_node_acl_rights u c s) = Err OMADM_SYNCML_ERROR_PERMISSION_DENIED"
proof -
  have "strdup u s = (Some u, s)" using assms(1) by (simp add: still_def)
  then obtain t where a: "prv_get_inherited_acl u s = (Val (Some acl), t)" "still d w (Some i) t"
    using acl_loop_complete [OF assms(1,2), of OMADM_SYNCML_ERROR_NONE]
    by (auto simp: prv_get_inherited_acl_def DMC_FAIL_NULL_def)
  have "server_id t = Some i" using a(2) by (simp add: still_def)
  then show ?thesis
    using a(1) access_denied [OF assms(4,3)] by (simp add: prv_check_node_acl_rights_def cmd_defs)
qed

end

section \<open>Commands and rights\<close>

lemma query_objectsI: "\<forall>q p. plugin_at d q = Some p \<longrightarrow> pure_queries p \<Longrightarrow> query_objects d"
  by unfold_locales blast

text \<open>
  C1. While no allocation fails, and when the queries of the objects are free of effects and the
  identifier of the server has no plus sign, no server changes the device without the right to: a
  command that changes the world was issued by a server to which the effective ACL of the node
  grants that command, the ACL of its parent for an addition, the ACL of the node or of its parent
  for a replacement.  (\<open>failed_lookup_grants_right\<close> below is a node deleted without the right, after
  an allocation that failed.)
\<close>

theorem changes_need_rights:
  fixes s :: "('w, 'z) dmtree_t_scheme"
  assumes "\<forall>q p. plugin_at d q = Some p \<longrightarrow> pure_queries p" and "dirs_are d s" and "plenty s"
    and "server_id s = Some i" and "CHR ''+'' \<notin> set i" and "node_uri node = Some uri"
  shows "(world (snd (dmtree_delete (Some uri) s)) \<noteq> world s \<longrightarrow>
       may d (world s) i ''Delete='' (normal (uri_node uri))) \<and>
    (world (snd (dmtree_exec (Some uri) a b s)) \<noteq> world s \<longrightarrow>
       may d (world s) i ''Exec='' (normal (uri_node uri))) \<and>
    (world (snd (dmtree_add (Some node) s)) \<noteq> world s \<longrightarrow>
       may d (world s) i ''Add='' (cut_segment (normal (uri_node uri)))) \<and>
    (world (snd (dmtree_replace (Some node) s)) \<noteq> world s \<longrightarrow>
       may d (world s) i ''Replace='' (normal (uri_node uri)) \<or>
       may d (world s) i ''Replace='' (cut_segment (normal (uri_node uri))))"
proof -
  have q: "query_objects d" by (rule query_objectsI [OF assms(1)])
  have st: "still d (world s) (Some i) s" using assms(2-4) by (simp add: still_def)
  have w: "world (snd (m s)) \<noteq> world s \<Longrightarrow> A" if "needs (still d (world s) (Some i)) A m"
    for A and m :: "('w, 'z) dmtree_t_scheme \<Rightarrow> unit outcome \<times> ('w, 'z) dmtree_t_scheme"
    using that st by (auto simp: needs_def still_def)
  show ?thesis
    using w [OF query_objects.delete_needs_right [OF q assms(5)]]
      w [OF query_objects.exec_needs_right [OF q assms(5)]]
      w [OF query_objects.add_needs_right [OF q assms(5,6)]]
      w [OF query_objects.replace_needs_right [OF q assms(5,6)]]
    by blast
qed

text \<open>
  C6. While no allocation fails, and when the queries of the objects are free of effects and the
  identifier of the server has no plus sign, a value is returned only to a server to which the
  effective ACL of the node grants the right to get it, and getting changes nothing.
\<close>

theorem get_needs_right:
  assumes "\<forall>q p. plugin_at d q = Some p \<longrightarrow> pure_queries p" and "dirs_are d s" and "plenty s"
    and "server_id s = Some i" and "CHR ''+'' \<notin> set i" and "node_uri node = Some uri"
    and "dmtree_get (Some node) s = (r, t)"
  shows "world t = world s \<and>
    (\<forall>n. r = Val n \<longrightarrow> may d (world s) i ''Get='' (normal (uri_node uri)))"
proof -
  have q: "query_objects d" by (rule query_objectsI [OF assms(1)])
  have st: "still d (world s) (Some i) s" using assms(2-4) by (simp add: still_def)
  have "still d (world s) (Some i) t"
    by (rule keepsD [OF query_objects.get_keeps [OF q assms(5)] st assms(7)])
  then show ?thesis
    using query_objects.get_value_right [OF q st assms(5,6)] assms(7) by (auto simp: still_def)
qed

text \<open>
  A server that asks to delete or to run an existing node, on which the effective ACL does not
  grant it the command, is answered PERMISSION_DENIED, and the device is unchanged.
\<close>

theorem command_denied:
  fixes s :: "('w, 'z) dmtree_t_scheme"
  assumes "\<forall>q p. plugin_at d q = Some p \<longrightarrow> pure_queries p"
    and "still d w (Some i) s" and "CHR ''+'' \<notin> set i"
    and "momgr_validate_uri (Some uri) True False s = (Val (target, p), s1)"
    and "momgr_exists target s1 = (Val k, s2)" and "k \<noteq> OMADM_NODE_NOT_EXIST"
    and "effective_acl d w target = Some acl"
  shows "(\<not> granted acl ''Delete='' i \<longrightarrow>
      fst (dmtree_delete (Some uri) s) = Err OMADM_SYNCML_ERROR_PERMISSION_DENIED \<and>
      world (snd (dmtree_delete (Some uri) s)) = w) \<and>
    (\<not> granted acl ''Exec='' i \<longrightarrow>
      fst (dmtree_exec (Some uri) a b s) = Err OMADM_SYNCML_ERROR_PERMISSION_DENIED \<and>
      world (snd (dmtree_exec (Some uri) a b s)) = w)"
proof -
  have q: "query_objects d" by (rule query_objectsI [OF assms(1)])
  have s2: "still d w (Some i) s2"
    by (rule keepsD [OF query_objects.keeps_still_exists [OF q] keepsD [OF keeps_still_validate assms(2,4)] assms(5)])
  have r: "\<exists>t. prv_check_node_acl_rights target c s2 = (Err OMADM_SYNCML_ERROR_PERMISSION_DENIED, t) \<and>
      still d w (Some i) t" if "\<not> granted acl c i" for c
    using query_objects.rights_denied [OF q s2 assms(7) that assms(3)]
      query_objects.keeps_rights [OF q assms(3), of w target c] s2
    by (cases "prv_check_node_acl_rights target c s2") (auto simp: keeps_def)
  have d: "dmtree_delete (Some uri) s =
      DMC_FAIL (prv_check_node_acl_rights target ''Delete='') (\<lambda>_. momgr_delete_node (Some target)) s2"
    using assms(4-6) by (simp add: dmtree_delete_def DMC_FAIL_NULL_def DMC_FAIL_ERR_def pure_def
        DMC_FAIL_def [of "momgr_validate_uri _ _ _"] DMC_FAIL_def [of "momgr_exists _"])
  have e: "dmtree_exec (Some uri) a b s =
      DMC_FAIL (prv_check_node_acl_rights target ''Exec='') (\<lambda>_. momgr_exec_node (Some target) a b) s2"
    using assms(4-6) by (simp add: dmtree_exec_def DMC_FAIL_NULL_def DMC_FAIL_ERR_def pure_def
        DMC_FAIL_def [of "momgr_validate_uri _ _ _"] DMC_FAIL_def [of "momgr_exists _"])
  show ?thesis
    using r [of "''Delete=''"] r [of "''Exec=''"] by (auto simp: d e DMC_FAIL_def still_def)
qed

section \<open>The rights of a creating server\<close>

definition creator_acl :: "string \<Rightarrow> string" where
  "creator_acl i = ''Get=*&Add='' @ i @ ''&Delete='' @ i @ ''&Replace='' @ i"

lemma strstr_skip:
  "t \<noteq> [] \<Longrightarrow> c \<notin> set t \<Longrightarrow> last t \<notin> set x \<Longrightarrow> strstr (x @ c # r) t = strstr (c # r) t"
proof (induction x)
  case (Cons y x)
  have "\<not> prefix t (y # x @ c # r)"
  proof
    assume "prefix t (y # x @ c # r)"
    then have "prefix t ((y # x) @ c # r)" by simp
    then consider "prefix t (y # x)" | u where "t = (y # x) @ u" "prefix u (c # r)"
      by (auto simp only: prefix_append)
    then show False
    proof cases
      case 1
      then show False using Cons.prems(1,3) by (metis last_in_set set_mono_prefix subsetD)
    next
      case 2
      then show False
        using Cons.prems last_in_set [of t] by (cases u) (auto simp: prefix_Cons simp del: last_ConsR)
    qed
  qed
  then show ?case using Cons by simp
qed simp

lemma creator_servers:
  assumes "CHR ''='' \<notin> set i" and "CHR ''&'' \<notin> set i"
  shows "servers_of (creator_acl i) ''Add='' = Some i" "servers_of (creator_acl i) ''Delete='' = Some i"
    "servers_of (creator_acl i) ''Replace='' = Some i"
proof -
  have all: "\<forall>c \<in> set i. c \<noteq> CHR ''&''" using assms(2) by blast
  have T1: "takeWhile (\<lambda>c. c \<noteq> CHR ''&'') (i @ CHR ''&'' # r) = i" for r
    by (subst takeWhile_append2) (use all in auto)
  have T2: "takeWhile (\<lambda>c. c \<noteq> CHR ''&'') i = i"
    by (subst takeWhile_eq_all_conv) (use all in auto)
  have skip: "strstr (i @ CHR ''&'' # r) t = strstr (CHR ''&'' # r) t"
    if "t \<in> {''Add='', ''Delete='', ''Replace=''}" for r t
    by (rule strstr_skip) (use that assms(1) in auto)
  show "servers_of (creator_acl i) ''Add='' = Some i" "servers_of (creator_acl i) ''Delete='' = Some i"
    "servers_of (creator_acl i) ''Replace='' = Some i"
    by (simp_all add: servers_of_def creator_acl_def skip T1 T2 del: takeWhile_eq_all_conv)
qed

lemma creator_acl_valid:
  assumes "server_ok i" and "plenty s"
  shows "prv_check_acl_syntax (creator_acl i) s = (Val (), s)"
    and "\<forall>c \<in> {''Add='', ''Delete='', ''Replace=''}. \<forall>j. granted (creator_acl i) c j \<longleftrightarrow> j = i"
proof -
  have sc: "server_char c" if "c \<in> set i" for c using assms(1) that by (simp add: server_ok_def)
  have i: "CHR ''='' \<notin> set i" "CHR ''&'' \<notin> set i" "CHR ''+'' \<notin> set i" "CHR ''*'' \<notin> set i"
    using sc by (auto simp: server_char_def)
  have one: "split_on CHR ''+'' i = [i]" using i(3) by simp
  have star: "i \<noteq> ''*''" using i(4) by auto
  show "\<forall>c \<in> {''Add='', ''Delete='', ''Replace=''}. \<forall>j. granted (creator_acl i) c j \<longleftrightarrow> j = i"
    using creator_servers [OF i(1,2)] one star by (simp add: granted_def)
  have e: "entry_ok (n @ CHR ''='' # i)" if "n \<in> {''Add'', ''Delete'', ''Replace''}" for n
  proof -
    have "strchr (n @ CHR ''='' # i) CHR ''='' = Some (CHR ''='' # i)"
      by (rule strchr_append) (use that in auto)
    then show ?thesis using that one assms(1) by (auto simp: entry_ok_def)
  qed
  have "creator_acl i = join_on CHR ''&'' [''Get=*'', ''Add='' @ i, ''Delete='' @ i, ''Replace='' @ i]"
    by (simp add: creator_acl_def)
  then have "split_on CHR ''&'' (creator_acl i) = [''Get=*'', ''Add='' @ i, ''Delete='' @ i, ''Replace='' @ i]"
    using i(2) by (simp only:) (rule split_join, auto)
  then have "pieces CHR ''&'' (creator_acl i) = [''Get=*'', ''Add='' @ i, ''Delete='' @ i, ''Replace='' @ i]"
    by (simp add: pieces_def)
  moreover have "entry_ok ''Get=*''" by code_simp
  ultimately show "prv_check_acl_syntax (creator_acl i) s = (Val (), s)"
    using e [of "''Add''"] e [of "''Delete''"] e [of "''Replace''"] assms(2)
    by (simp add: prv_check_acl_syntax_def DMC_FAIL_NULL_def lift_def entry_loop_spec)
qed

lemma code_call_val:
  "code_call f s = (Val (), t) \<longleftrightarrow> f (world s) = (OMADM_SYNCML_ERROR_NONE, world t) \<and> t = s\<lparr>world := world t\<rparr>"
  by (cases "f (world s)") (auto simp: code_call_def on_world_def split: if_splits)

lemma still_world: "still d w i s \<Longrightarrow> still d v i (s\<lparr>world := v\<rparr>)"
  by (simp add: still_def dirs_are_def)

lemma set_value_val:
  assumes "still d w i s" and "node_uri n = Some u" and "momgr_set_value (Some n) s = (Val (), t)"
  shows "\<exists>p f. longest (plugin_at d) (path_of u) = Some p \<and> setFunc (interface p) = Some f \<and>
    f n (plugin_data p) w = (OMADM_SYNCML_ERROR_NONE, world t) \<and> still d (world t) i t"
proof -
  obtain p f s1 where f: "prv_findPlugin u s = (Some p, s1)" "setFunc (interface p) = Some f"
    and c: "code_call (f n (plugin_data p)) s1 = (Val (), t)"
    using assms(2,3) by (auto simp: momgr_set_value_def cmd_val dest!: sym [of "Some x" for x])
  note st = findPlugin_still [OF assms(1) f(1)]
  have "world s1 = w" using st(1) by (simp add: still_def)
  then show ?thesis using c f(2) st(2) [symmetric] still_world [OF st(1), of "world t"] by (auto simp: code_call_val)
qed

lemma set_ACL_val:
  assumes "still d w i s" and "momgr_set_ACL (Some u) (Some a) s = (Val (), t)"
  shows "\<exists>p f. longest (plugin_at d) (path_of u) = Some p \<and> setACLFunc (interface p) = Some f \<and>
    f u a (plugin_data p) w = (OMADM_SYNCML_ERROR_NONE, world t)"
proof -
  obtain p f s1 where f: "prv_findPlugin u s = (Some p, s1)" "setACLFunc (interface p) = Some f"
    and c: "code_call (f u a (plugin_data p)) s1 = (Val (), t)"
    using assms(2) by (auto simp: momgr_set_ACL_def cmd_val dest!: sym [of "Some x" for x])
  note st = findPlugin_still [OF assms(1) f(1)]
  have "world s1 = w" using st(1) by (simp add: still_def)
  then show ?thesis using c f(2) st(2) [symmetric] by (auto simp: code_call_val)
qed

lemma give_rights_denied:
  assumes "server_id s = Some i" and "plenty s"
    and "fst (prv_check_access_rights (Some i) acl ''Replace='') = Err OMADM_SYNCML_ERROR_PERMISSION_DENIED"
  shows "give_rights target acl s = momgr_set_ACL (Some target) (Some (creator_acl i)) s"
  using assms by (simp add: give_rights_def DMC_FAIL_NULL_def creator_acl_def)

lemma add_checked_val:
  fixes s :: "('w, 'z) dmtree_t_scheme"
  assumes s: "still d w (Some i) s" and i: "CHR ''+'' \<notin> set i" and d: "\<not> granted acl ''Replace='' i"
    and v: "add_checked target node acl s = (Val (), t)"
  shows "\<exists>p f g w'. longest (plugin_at d) (path_of target) = Some p \<and>
    setFunc (interface p) = Some f \<and> setACLFunc (interface p) = Some g \<and>
    f (node\<lparr>node_uri := Some target\<rparr>) (plugin_data p) w = (OMADM_SYNCML_ERROR_NONE, w') \<and>
    g target (creator_acl i) (plugin_data p) w' = (OMADM_SYNCML_ERROR_NONE, world t)"
proof -
  let ?n = "node\<lparr>node_uri := Some target\<rparr>"
  have sv: "server_id s = Some i" using s by (simp add: still_def)
  obtain r left where r: "prv_check_access_rights (Some i) acl ''Add='' = (r, left)" by (metis surj_pair)
  have "\<not> granted left ''Replace='' i" using granted_after_cut [of "Some i" acl "''Add=''"] d r by auto
  then have den: "fst (prv_check_access_rights (Some i) left ''Replace='') = Err OMADM_SYNCML_ERROR_PERMISSION_DENIED"
    by (rule access_denied [OF i])
  obtain s1 where s1: "momgr_set_value (Some ?n) s = (Val (), s1)" and g: "give_rights target left s1 = (Val (), t)"
    using v r sv by (auto simp: add_checked_def cmd_val)
  obtain p f where p: "longest (plugin_at d) (path_of target) = Some p" "setFunc (interface p) = Some f"
      "f ?n (plugin_data p) w = (OMADM_SYNCML_ERROR_NONE, world s1)" and st1: "still d (world s1) (Some i) s1"
    using set_value_val [OF s _ s1, of target] by auto
  have "momgr_set_ACL (Some target) (Some (creator_acl i)) s1 = (Val (), t)"
    using g give_rights_denied [OF _ _ den, of s1 target] st1 by (simp add: still_def)
  then show ?thesis using set_ACL_val [OF st1] p by fastforce
qed

text \<open>
  C14. While no allocation fails and the queries of the objects are free of effects: when an addition
  succeeds for a server to which the effective ACL of the parent does not grant Replace, the object
  responsible for the new node has first set the value and then been given, for that node, the ACL
  \<^verbatim>\<open>Get=*&Add=S&Delete=S&Replace=S\<close>, and both calls succeeded; that ACL grants additions,
  deletions and replacements to that server and to no other.
\<close>

theorem creator_gets_rights:
  fixes s :: "('w, 'z) dmtree_t_scheme"
  assumes "\<forall>q p. plugin_at d q = Some p \<longrightarrow> pure_queries p" and "dirs_are d s" and "plenty s"
    and "server_id s = Some i" and "server_ok i" and "node_uri node = Some uri"
    and "\<not> may d (world s) i ''Replace='' (cut_segment (normal (uri_node uri)))"
    and "dmtree_add (Some node) s = (Val (), t)"
  shows "(\<exists>p f g w'. longest (plugin_at d) (path_of (normal (uri_node uri))) = Some p \<and>
      setFunc (interface p) = Some f \<and> setACLFunc (interface p) = Some g \<and>
      f (node\<lparr>node_uri := Some (normal (uri_node uri))\<rparr>) (plugin_data p) (world s) =
        (OMADM_SYNCML_ERROR_NONE, w') \<and>
      g (normal (uri_node uri)) (creator_acl i) (plugin_data p) w' = (OMADM_SYNCML_ERROR_NONE, world t)) \<and>
    (\<forall>c \<in> {''Add='', ''Delete='', ''Replace=''}. \<forall>j. granted (creator_acl i) c j \<longleftrightarrow> j = i)"
proof -
  let ?t = "normal (uri_node uri)"
  have q: "query_objects d" by (rule query_objectsI [OF assms(1)])
  have i: "CHR ''+'' \<notin> set i" using assms(5) by (auto simp: server_ok_def server_char_def)
  have st: "still d (world s) (Some i) s" using assms(2-4) by (simp add: still_def)
  obtain target p s1 k s2 c s3 pu x k' s4 acl s5 where
      v: "momgr_validate_uri (Some uri) True False s = (Val (target, p), s1)"
    and e: "momgr_exists target s1 = (Val k, s2)" and c: "strdup target s2 = (Some c, s3)"
    and pu: "strrchr c CHR ''/'' = Some (pu, x)" and e': "momgr_exists pu s3 = (Val k', s4)"
    and a: "prv_get_inherited_acl pu s4 = (Val (Some acl), s5)"
    and ac: "add_checked target node acl s5 = (Val (), t)"
    using assms(6,8) unfolding dmtree_add_def
    by (auto simp: cmd_val dest!: sym [of "Some x" for x])
  have target: "target = ?t" by (rule validated_target [OF v])
  note ex = query_objects.keeps_still_exists [OF q]
  have s2: "still d (world s) (Some i) s2" by (rule keepsD [OF ex keepsD [OF keeps_still_validate st v] e])
  have s3: "still d (world s) (Some i) s3" by (rule keepsD [OF keeps_still_malloc s2 c])
  have s4: "still d (world s) (Some i) s4" by (rule keepsD [OF ex s3 e'])
  have "cut_segment ?t = pu" using pu malloc_SomeD [OF c] target by (simp add: cut_segment_def)
  then have "\<not> granted acl ''Replace='' i" and s5: "still d (world s) (Some i) s5"
    using assms(7) query_objects.inherited_still [OF q s4 a] by (auto simp: may_def)
  then show ?thesis
    using add_checked_val [OF s5 i _ ac [unfolded target]] creator_acl_valid(2) [OF assms(5,3)] by blast
qed

section \<open>A fresh tree\<close>

text \<open>The directory of a handle just opened, with the default object at its root.\<close>

definition default_dir :: "'w mo_dir_t" where
  "default_dir = Mo_Dir ''.'' (Some \<lparr>interface = interface_zero\<lparr>base_uri := Some ''.'',
     initFunc := Some prv_init, isNodeFunc := Some prv_isNode,
     getACLFunc := Some (prv_getACL (\<lambda>x w. (Some x, w))), getFunc := Some (prv_get (\<lambda>x w. (Some x, w)))\<rparr>,
     plugin_data = 0\<rparr>) []"

lemma default_plugin: "plugin_at default_dir q = (if q = [] then plugin default_dir else None)"
  by (cases q) (simp_all add: default_dir_def)

lemma open_default_dir:
  "plenty h \<Longrightarrow> \<exists>m. dmtree_open (\<lambda>x w. (Some x, w)) h = (Val (m, None), h) \<and> root m = default_dir"
  by (simp add: dmtree_open_def momgr_init_def getDefaultRootPlugin_def default_dir_def)

lemma default_pure: "plugin_at default_dir q = Some p \<Longrightarrow> pure_queries p"
  by (simp only: default_plugin split: if_splits)
    (auto simp: default_dir_def pure_queries_def interface_zero_def prv_isNode_def prv_getACL_def prv_get_def)

interpretation fresh: query_objects default_dir
  by unfold_locales (rule default_pure)

lemma longest_default: "longest (plugin_at default_dir) q = plugin default_dir"
  by (cases q) (simp_all add: default_dir_def)

lemma fresh_acl: "effective_acl default_dir w u \<in> {None, Some ''Get=*''}"
proof (induction "length u" arbitrary: u rule: less_induct)
  case less
  have a: "acl_answer default_dir w u =
      (if u \<noteq> ''.'' then (OMADM_SYNCML_ERROR_NOT_FOUND, None) else (OMADM_SYNCML_ERROR_NONE, Some ''Get=*''))"
    by (simp add: acl_answer_def longest_default) (simp add: default_dir_def prv_getACL_def)
  show ?case
    using less [of "cut_segment u"] cut_segment_shorter [of u]
    by (auto simp: effective_acl.simps [of _ _ u] a)
qed

text \<open>
  On a tree without registered objects every server may only get: no command of any server
  changes the world.
\<close>

theorem fresh_tree_is_read_only:
  assumes "still default_dir w (Some i) s" and "CHR ''+'' \<notin> set i" and "node_uri node = Some uri"
  shows "world (snd (dmtree_delete (Some uri) s)) = w \<and> world (snd (dmtree_exec (Some uri) a b s)) = w \<and>
    world (snd (dmtree_add (Some node) s)) = w \<and> world (snd (dmtree_replace (Some node) s)) = w"
proof -
  have no: "\<not> may default_dir w i c u" if "c \<in> {''Delete='', ''Exec='', ''Add='', ''Replace=''}" for c u
    using fresh_acl [of w u] that by (auto simp: may_def granted_def servers_of_def)
  have w: "world (snd (m s)) = w" if "needs (still default_dir w (Some i)) A m" "\<not> A" for A and m
    using that assms(1) by (auto simp: needs_def still_def)
  show ?thesis
    using w [OF fresh.delete_needs_right [OF assms(2)]] w [OF fresh.exec_needs_right [OF assms(2)]]
      w [OF fresh.add_needs_right [OF assms(2,3)]] w [OF fresh.replace_needs_right [OF assms(2,3)]] no
    by simp
qed

section \<open>Witnesses\<close>

text \<open>A device with one object at the root, whose ACL lets everyone get and one server delete.\<close>

definition guard_mo :: "string \<Rightarrow> nat omadm_mo_interface_t" where
  "guard_mo acl = interface_zero\<lparr>isNodeFunc := Some (\<lambda>u d w. ((0, OMADM_NODE_IS_LEAF), w)),
     getFunc := Some (\<lambda>n d w. ((0, n\<lparr>node_format := Some ''chr'', data_size := 1, data_buffer := Some ''1''\<rparr>), w)),
     getACLFunc := Some (\<lambda>u d w. ((0, Some acl), w)),
     deleteFunc := Some (\<lambda>u d w. (0, w + 1)), execFunc := Some (\<lambda>u a b d w. (0, w + 1))\<rparr>"

definition guard_env :: "bool list \<Rightarrow> nat mo_dir_t \<Rightarrow> nat dmtree_t" where
  "guard_env m d = \<lparr>mem = m, world = 0, MOs = \<lparr>root = d, max_depth = 0, max_total_len = 0,
     max_segment_len = 0, last_uri = None, last_plugin = None\<rparr>, server_id = Some ''srv''\<rparr>"

definition guard_dir :: "nat mo_dir_t" where
  "guard_dir = Mo_Dir ''.'' (Some \<lparr>interface = guard_mo ''Get=*&Delete=srv&Exec=adm'', plugin_data = 0\<rparr>) []"

lemma guard_pure: "\<forall>q p. plugin_at guard_dir q = Some p \<longrightarrow> pure_queries p"
proof (intro allI impI)
  fix q p assume "plugin_at guard_dir q = Some p"
  then show "pure_queries p"
    by (cases q) (auto simp: guard_dir_def guard_mo_def pure_queries_def interface_zero_def)
qed

lemma guard_fits: "dirs_are d (guard_env [] d)" "plenty (guard_env [] d)"
    "server_id (guard_env [] d) = Some ''srv''" "world (guard_env m d) = 0"
  by (simp_all add: dirs_are_def cache_ok_def guard_env_def)

lemma guard_still: "still d 0 (Some ''srv'') (guard_env [] d)"
  by (simp add: still_def dirs_are_def cache_ok_def guard_env_def)

theorem changes_need_rights_witness:
  "world (snd (dmtree_delete (Some ''./A'') (guard_env [] guard_dir))) = 1 \<and>
   may guard_dir 0 ''srv'' ''Delete='' ''./A''"
proof -
  have a: "world (snd (dmtree_delete (Some ''./A'') (guard_env [] guard_dir))) = 1" by code_simp
  have n: "normal (uri_node ''./A'') = ''./A''" by code_simp
  show ?thesis
    using a changes_need_rights [OF guard_pure guard_fits(1-3), of "node_zero\<lparr>node_uri := Some ''./A''\<rparr>" "''./A''"]
    by (simp add: n guard_fits)
qed

theorem get_needs_right_witness:
  "may guard_dir 0 ''srv'' ''Get='' ''./A''"
proof -
  let ?n = "node_zero\<lparr>node_uri := Some ''./A''\<rparr>"
  have "(case fst (dmtree_get (Some ?n) (guard_env [] guard_dir)) of Val n \<Rightarrow> data_buffer n | _ \<Rightarrow> None) = Some ''1''"
    by code_simp
  then obtain n where v: "fst (dmtree_get (Some ?n) (guard_env [] guard_dir)) = Val n"
    by (cases "fst (dmtree_get (Some ?n) (guard_env [] guard_dir))") auto
  have n: "normal (uri_node ''./A'') = ''./A''" by code_simp
  show ?thesis
    using get_needs_right [OF guard_pure guard_fits(1-3), of ?n "''./A''", OF _ _ prod.collapse [symmetric]] v
    by (simp add: n guard_fits)
qed

theorem command_denied_witness:
  "fst (dmtree_exec (Some ''./A'') None None (guard_env [] guard_dir)) = Err 425 \<and>
   world (snd (dmtree_exec (Some ''./A'') None None (guard_env [] guard_dir))) = 0"
proof -
  let ?s = "guard_env [] guard_dir"
  let ?v = "momgr_validate_uri (Some ''./A'') True False ?s"
  have v: "?v = (Val (''./A'', None), snd ?v)"
    by (rule prod_eqI) (simp_all, code_simp)
  let ?e = "momgr_exists ''./A'' (snd ?v)"
  have e: "?e = (Val OMADM_NODE_IS_LEAF, snd ?e)"
    by (rule prod_eqI) (simp_all, code_simp)
  have a: "effective_acl guard_dir 0 ''./A'' = Some ''Get=*&Delete=srv&Exec=adm''" by code_simp
  have g: "\<not> granted ''Get=*&Delete=srv&Exec=adm'' ''Exec='' ''srv''" by code_simp
  show ?thesis
    using command_denied [OF guard_pure guard_still _ v e _ a] g by simp
qed

text \<open>An object that takes new nodes and remembers the ACL it is given.\<close>

definition store_mo :: "(string \<times> string) omadm_mo_interface_t" where
  "store_mo = interface_zero\<lparr>
     isNodeFunc := Some (\<lambda>u d w. ((0, if u = ''.'' then OMADM_NODE_IS_INTERIOR else OMADM_NODE_NOT_EXIST), w)),
     getACLFunc := Some (\<lambda>u d w. ((0, Some ''Add=srv''), w)),
     setFunc := Some (\<lambda>n d w. (0, (the (node_uri n), ''''))),
     setACLFunc := Some (\<lambda>u a d w. (0, (fst w, a)))\<rparr>"

definition store_dir :: "(string \<times> string) mo_dir_t" where
  "store_dir = Mo_Dir ''.'' (Some \<lparr>interface = store_mo, plugin_data = 0\<rparr>) []"

definition store_env :: "(string \<times> string) dmtree_t" where
  "store_env = \<lparr>mem = [], world = ('''', ''''), MOs = \<lparr>root = store_dir, max_depth = 0, max_total_len = 0,
     max_segment_len = 0, last_uri = None, last_plugin = None\<rparr>, server_id = Some ''srv''\<rparr>"

lemma store_pure: "\<forall>q p. plugin_at store_dir q = Some p \<longrightarrow> pure_queries p"
proof (intro allI impI)
  fix q p assume "plugin_at store_dir q = Some p"
  then show "pure_queries p"
    by (cases q) (auto simp: store_dir_def store_mo_def pure_queries_def interface_zero_def)
qed

theorem creator_gets_rights_witness:
  "world (snd (dmtree_add (Some (node_zero\<lparr>node_uri := Some ''./A''\<rparr>)) store_env)) =
     (''./A'', ''Get=*&Add=srv&Delete=srv&Replace=srv'') \<and>
   granted (creator_acl ''srv'') ''Replace='' ''srv'' \<and> \<not> granted (creator_acl ''srv'') ''Replace='' ''adm''"
proof -
  let ?n = "node_zero\<lparr>node_uri := Some ''./A''\<rparr>"
  have v: "fst (dmtree_add (Some ?n) store_env) = Val ()" by code_simp
  have n: "normal (uri_node ''./A'') = ''./A''" by code_simp
  have l: "longest (plugin_at store_dir) (path_of ''./A'') = Some \<lparr>interface = store_mo, plugin_data = 0\<rparr>"
    by (cases "path_of ''./A''") (simp_all add: store_dir_def)
  have f: "dirs_are store_dir store_env" "plenty store_env" "server_id store_env = Some ''srv''"
    "world store_env = ('''', '''')" by (simp_all add: dirs_are_def cache_ok_def store_env_def)
  have ok: "server_ok ''srv''" by code_simp
  have m: "\<not> may store_dir ('''', '''') ''srv'' ''Replace='' (cut_segment ''./A'')" by code_simp
  show ?thesis
    using creator_gets_rights [OF store_pure f(1-3) ok, of ?n "''./A''", OF _ _ by_fst [OF v]] m
    by (auto simp: n l f(4) store_mo_def creator_acl_def interface_zero_def)
qed

theorem fresh_tree_is_read_only_witness:
  "world (snd (dmtree_delete (Some ''./A'') (guard_env [] default_dir))) = 0"
  using fresh_tree_is_read_only [OF guard_still, of "node_zero\<lparr>node_uri := Some ''./A''\<rparr>" "''./A''"]
  by simp

definition split_dir :: "nat mo_dir_t" where
  "split_dir = Mo_Dir ''.'' (Some \<lparr>interface = guard_mo ''Delete=*'', plugin_data = 0\<rparr>)
     [Mo_Dir ''A'' (Some \<lparr>interface = guard_mo ''Delete=adm'', plugin_data = 0\<rparr>) []]"

text \<open>
  A failed allocation while the ACL of a node is looked up is taken for a node without an ACL:
  the parent's ACL decides, here in favour of a server that the node's own ACL excludes, and the
  node is deleted.
\<close>

theorem failed_lookup_grants_right:
  "\<not> may split_dir 0 ''srv'' ''Delete='' ''./A'' \<and>
   fst (dmtree_delete (Some ''./A'') (guard_env [] split_dir)) = Err OMADM_SYNCML_ERROR_PERMISSION_DENIED \<and>
   fst (dmtree_delete (Some ''./A'') (guard_env [True, True, False, True, False] split_dir)) = Val () \<and>
   world (snd (dmtree_delete (Some ''./A'') (guard_env [True, True, False, True, False] split_dir))) = 1"
  by (intro conjI; code_simp)

end
