(* ===== verification/Pcdata.thy ===== *)
theory Pcdata
  imports Codec Mo_Mgr
begin

text \<open>
  The values the toolkit exchanges with the library (\<^verbatim>\<open>SmlPcdata_t\<close> and the meta information it
  can hold, from \<^verbatim>\<open>smldtd.h\<close> and \<^verbatim>\<open>smlmetinfdtd.h\<close>), the toolkit functions on strings the
  library calls (\<^verbatim>\<open>mgrutil.c\<close>), and the conversions of \<^verbatim>\<open>dmcore/src/utils.c\<close> and
  \<^verbatim>\<open>credentials.c\<close> between them, strings, numbers and authentication types.
\<close>

section \<open>Values\<close>

text \<open>
  A value is a string with its length, whose content is null after a failed copy, or an extension
  that holds the type, the format and the next nonce of a meta information, or any other content.
\<close>

datatype pcdata =
  Pc_String (pc_length: nat) (pc_content: "string option")
| Pc_Metinf (mi_type: "pcdata option") (mi_format: "pcdata option") (mi_nextnonce: "pcdata option")
| Pc_Other (pc_length: nat) (pc_content: "string option")

text \<open>
  \<open>smlString2Pcdata\<close> does not check the copy of the string; \<open>smlPcdata2String\<close> copies
  \<open>pc_length\<close> bytes, which a null content does not have.  The length of an extension is 0.
\<close>

definition smlString2Pcdata :: "string option \<Rightarrow> 'z heap_scheme \<Rightarrow> pcdata option \<times> 'z heap_scheme" where
  "smlString2Pcdata str h =
     (case str of
        None \<Rightarrow> (None, h)
      | Some t \<Rightarrow>
          (case malloc () h of
             (None, h) \<Rightarrow> (None, h)
           | (Some _, h) \<Rightarrow> (case strdup t h of (c, h) \<Rightarrow> (Some (Pc_String (length t) c), h))))"

definition copy_bytes :: "nat \<Rightarrow> string option \<Rightarrow> string outcome" where
  "copy_bytes n c =
     (if n = 0 then Val []
      else case c of
        None \<Rightarrow> Ub
      | Some b \<Rightarrow> if n > length b + 1 then Ub else Val (takeWhile (\<lambda>x. x \<noteq> CHR 0x00) (take n b)))"

definition smlPcdata2String :: "pcdata option \<Rightarrow> ('z heap_scheme, string option) cmd" where
  "smlPcdata2String p h =
     (case p of
        None \<Rightarrow> (Val None, h)
      | Some p \<Rightarrow>
          (case malloc () h of
             (None, h) \<Rightarrow> (Val None, h)
           | (Some _, h) \<Rightarrow>
               (case (case p of
                        Pc_Metinf _ _ _ \<Rightarrow> Val []
                      | Pc_String n c \<Rightarrow> copy_bytes n c
                      | Pc_Other n c \<Rightarrow> copy_bytes n c) of
                  Val t \<Rightarrow> (Val (Some t), h)
                | Err e \<Rightarrow> (Err e, h)
                | Ub \<Rightarrow> (Ub, h))))"

section \<open>Meta information\<close>

definition convert_to_meta ::
  "string option \<Rightarrow> string option \<Rightarrow> 'z heap_scheme \<Rightarrow> pcdata option \<times> 'z heap_scheme" where
  "convert_to_meta format type h =
     (if format = None \<and> type = None then (None, h)
      else case malloc () h of
        (None, h) \<Rightarrow> (None, h)
      | (Some _, h) \<Rightarrow>
          (case smlString2Pcdata type h of
             (t, h) \<Rightarrow>
          (case smlString2Pcdata format h of
             (f, h) \<Rightarrow> malloc (Pc_Metinf t f None) h)))"

definition extract_from_meta ::
  "pcdata option \<Rightarrow> bool \<Rightarrow> bool \<Rightarrow> ('z heap_scheme, string option \<times> string option) cmd" where
  "extract_from_meta metaP formatP typeP =
     (case metaP of
        Some (Pc_Metinf t f n) \<Rightarrow>
          DMC_FAIL (if formatP then smlPcdata2String f else ret None) (\<lambda>fs.
          DMC_FAIL (if typeP then smlPcdata2String t else ret None) (\<lambda>ts.
          ret (fs, ts)))
      | _ \<Rightarrow> ret (None, None))"

section \<open>Authentication types\<close>

datatype dmclt_authType_t =
  DMCLT_AUTH_TYPE_UNKNOWN | DMCLT_AUTH_TYPE_HTTP_BASIC | DMCLT_AUTH_TYPE_HTTP_DIGEST
| DMCLT_AUTH_TYPE_BASIC | DMCLT_AUTH_TYPE_DIGEST | DMCLT_AUTH_TYPE_HMAC | DMCLT_AUTH_TYPE_X509
| DMCLT_AUTH_TYPE_SECURID | DMCLT_AUTH_TYPE_SAFEWORD | DMCLT_AUTH_TYPE_DIGIPASS
| DMCLT_AUTH_TYPE_TRANSPORT

definition auth_string_as_type :: "string \<Rightarrow> dmclt_authType_t" where
  "auth_string_as_type s =
     (if s = ''syncml:auth-basic'' then DMCLT_AUTH_TYPE_BASIC
      else if s = ''syncml:auth-md5'' then DMCLT_AUTH_TYPE_DIGEST
      else if s = ''syncml:auth-MAC'' then DMCLT_AUTH_TYPE_HMAC
      else if s = ''syncml:auth-X509'' then DMCLT_AUTH_TYPE_X509
      else if s = ''syncml:auth-securid'' then DMCLT_AUTH_TYPE_SECURID
      else if s = ''syncml:auth-safeword'' then DMCLT_AUTH_TYPE_SAFEWORD
      else if s = ''syncml:auth-digipass'' then DMCLT_AUTH_TYPE_DIGIPASS
      else DMCLT_AUTH_TYPE_UNKNOWN)"

fun auth_type_as_string :: "dmclt_authType_t \<Rightarrow> string" where
  "auth_type_as_string DMCLT_AUTH_TYPE_HTTP_BASIC = ''''"
| "auth_type_as_string DMCLT_AUTH_TYPE_HTTP_DIGEST = ''''"
| "auth_type_as_string DMCLT_AUTH_TYPE_BASIC = ''syncml:auth-basic''"
| "auth_type_as_string DMCLT_AUTH_TYPE_DIGEST = ''syncml:auth-md5''"
| "auth_type_as_string DMCLT_AUTH_TYPE_HMAC = ''syncml:auth-MAC''"
| "auth_type_as_string DMCLT_AUTH_TYPE_X509 = ''syncml:auth-X509''"
| "auth_type_as_string DMCLT_AUTH_TYPE_SECURID = ''syncml:auth-securid''"
| "auth_type_as_string DMCLT_AUTH_TYPE_SAFEWORD = ''syncml:auth-safeword''"
| "auth_type_as_string DMCLT_AUTH_TYPE_DIGIPASS = ''syncml:auth-digipass''"
| "auth_type_as_string DMCLT_AUTH_TYPE_TRANSPORT = ''''"
| "auth_type_as_string DMCLT_AUTH_TYPE_UNKNOWN = ''''"

text \<open>The value of an \<^verbatim>\<open>AAuthType\<close> node, which need not be terminated.\<close>

definition auth_value_as_type :: "string option \<Rightarrow> nat \<Rightarrow> dmclt_authType_t outcome" where
  "auth_value_as_type str n =
     (case str of
        None \<Rightarrow> if n \<in> {4, 5, 6, 7, 8} then Ub else Val DMCLT_AUTH_TYPE_UNKNOWN
      | Some b \<Rightarrow>
          Val (if n = 5 \<and> take n b = ''BASIC'' then DMCLT_AUTH_TYPE_BASIC
               else if n = 6 \<and> take n b = ''DIGEST'' then DMCLT_AUTH_TYPE_DIGEST
               else if n = 4 \<and> take n b = ''HMAC'' then DMCLT_AUTH_TYPE_HMAC
               else if n = 4 \<and> take n b = ''X509'' then DMCLT_AUTH_TYPE_X509
               else if n = 7 \<and> take n b = ''SECURID'' then DMCLT_AUTH_TYPE_SECURID
               else if n = 8 \<and> take n b = ''SAFEWORD'' then DMCLT_AUTH_TYPE_SAFEWORD
               else if n = 8 \<and> take n b = ''DIGIPASS'' then DMCLT_AUTH_TYPE_DIGIPASS
               else DMCLT_AUTH_TYPE_UNKNOWN))"

section \<open>Challenges\<close>

text \<open>
  \<open>with_nonce\<close> says whether the caller passes an out pointer for the nonce.  The meta pointer
  is dereferenced without a test.
\<close>

definition empty_buffer :: buffer_t where
  "empty_buffer = \<lparr>buffer = None, len = 0\<rparr>"

definition get_from_chal_meta ::
  "pcdata option \<Rightarrow> bool \<Rightarrow> ('z heap_scheme, dmclt_authType_t \<times> buffer_t) cmd" where
  "get_from_chal_meta metaP with_nonce =
     (case metaP of
        None \<Rightarrow> lift Ub
      | Some (Pc_Metinf t f n) \<Rightarrow>
          DMC_FAIL (smlPcdata2String t) (\<lambda>item.
          let type = (case item of None \<Rightarrow> DMCLT_AUTH_TYPE_UNKNOWN | Some i \<Rightarrow> auth_string_as_type i) in
          if \<not> with_nonce then ret (type, empty_buffer)
          else
            DMC_FAIL (smlPcdata2String n) (\<lambda>item.
            case item of
              None \<Rightarrow> ret (type, empty_buffer)
            | Some i \<Rightarrow> DMC_FAIL (decode_b64 i) (\<lambda>b. ret (type, b))))
      | Some _ \<Rightarrow> ret (DMCLT_AUTH_TYPE_UNKNOWN, empty_buffer))"

text \<open>A failed encoding of the nonce leaves a null nonce value.\<close>

definition create_chal_meta ::
  "dmclt_authType_t \<Rightarrow> byte list option \<Rightarrow> 'z heap_scheme \<Rightarrow> pcdata option \<times> 'z heap_scheme" where
  "create_chal_meta type nonceP h =
     (case malloc () h of
        (None, h) \<Rightarrow> (None, h)
      | (Some _, h) \<Rightarrow>
     (case smlString2Pcdata (Some (auth_type_as_string type)) h of
        (t, h) \<Rightarrow>
     (case smlString2Pcdata (Some ''b64'') h of
        (f, h) \<Rightarrow>
     (case nonceP of
        None \<Rightarrow> malloc (Pc_Metinf t f None) h
      | Some nonce \<Rightarrow>
          (case encode_b64 nonce h of
             (tmp, h) \<Rightarrow>
          (case smlString2Pcdata tmp h of
             (n, h) \<Rightarrow> malloc (Pc_Metinf t f n) h))))))"

section \<open>Strings and numbers\<close>

definition set_pcdata_string :: "string \<Rightarrow> 'z heap_scheme \<Rightarrow> pcdata \<times> 'z heap_scheme" where
  "set_pcdata_string str h = (case strdup str h of (c, h) \<Rightarrow> (Pc_String (length str) c, h))"

text \<open>
  \<open>set_pcdata_pcdata\<close> copies the bytes of a value that has any into a zeroed destination.  The
  extension field is not copied, so a copied meta information is an empty value of another kind.
\<close>

definition copy_content :: "(nat \<Rightarrow> string option \<Rightarrow> pcdata) \<Rightarrow> nat \<Rightarrow> string option \<Rightarrow> ('z heap_scheme, pcdata) cmd"
where
  "copy_content kind n c =
     (if n = 0 then ret (kind 0 None)
      else (\<lambda>h. case malloc () h of
        (None, h) \<Rightarrow> (Val (kind 0 None), h)
      | (Some _, h) \<Rightarrow>
          (case c of
             None \<Rightarrow> (Ub, h)
           | Some b \<Rightarrow> if n > length b + 1 then (Ub, h) else (Val (kind n (Some (take n b))), h))))"

definition set_pcdata_pcdata :: "pcdata \<Rightarrow> ('z heap_scheme, pcdata) cmd" where
  "set_pcdata_pcdata origP =
     (case origP of
        Pc_Metinf _ _ _ \<Rightarrow> ret (Pc_Other 0 None)
      | Pc_String n c \<Rightarrow> copy_content Pc_String n c
      | Pc_Other n c \<Rightarrow> copy_content Pc_Other n c)"

text \<open>\<^verbatim>\<open>sprintf\<close> of a number with \<^verbatim>\<open>%d\<close> and \<^verbatim>\<open>%X\<close>.\<close>

definition digit_char :: "nat \<Rightarrow> char" where
  "digit_char d = (if d < 10 then char_of (48 + d) else char_of (55 + d))"

function digits_in :: "nat \<Rightarrow> nat \<Rightarrow> string" where
  "digits_in base n =
     (if base < 2 \<or> n < base then [digit_char n] else digits_in base (n div base) @ [digit_char (n mod base)])"
  by pat_completeness auto
termination by (relation "measure snd") auto

declare digits_in.simps [simp del]

definition print_int :: "32 word \<Rightarrow> string" where
  "print_int v = (if sint v < 0 then CHR ''-'' # digits_in 10 (nat (- sint v)) else digits_in 10 (nat (sint v)))"

definition print_hex :: "32 word \<Rightarrow> string" where
  "print_hex v = digits_in 16 (unat v)"

definition set_pcdata_int :: "32 word \<Rightarrow> 'z heap_scheme \<Rightarrow> pcdata \<times> 'z heap_scheme" where
  "set_pcdata_int v = set_pcdata_string (print_int v)"

definition set_pcdata_hex :: "32 word \<Rightarrow> 'z heap_scheme \<Rightarrow> pcdata \<times> 'z heap_scheme" where
  "set_pcdata_hex v = set_pcdata_string (print_hex v)"

text \<open>
  \<^verbatim>\<open>sscanf\<close> with \<^verbatim>\<open>%d\<close>: white space, an optional sign, the longest run of digits.  Without a
  digit nothing is assigned; a number outside \<^verbatim>\<open>int\<close> is undefined.
\<close>

definition is_space :: "char \<Rightarrow> bool" where
  "is_space c \<longleftrightarrow> c = CHR '' '' \<or> in_range CHR 0x09 CHR 0x0D c"

definition scan_int :: "string \<Rightarrow> int option outcome" where
  "scan_int s =
     (let t = dropWhile is_space s;
          (neg, u) = (case t of [] \<Rightarrow> (False, []) | c # cs \<Rightarrow>
             if c = CHR ''-'' then (True, cs) else if c = CHR ''+'' then (False, cs) else (False, t));
          ds = takeWhile is_digit u;
          v = (if neg then - decimal ds else decimal ds)
      in if ds = [] then Val None else if v < - (2 ^ 31) \<or> v > INT_MAX then Ub else Val (Some v))"

definition pcdata_to_int :: "pcdata option \<Rightarrow> ('z heap_scheme, 32 word) cmd" where
  "pcdata_to_int dataP =
     DMC_FAIL (smlPcdata2String dataP) (\<lambda>asString.
     case asString of
       None \<Rightarrow> ret 0
     | Some s \<Rightarrow>
         DMC_FAIL (lift (scan_int s)) (\<lambda>v. ret (case v of None \<Rightarrow> 0 | Some i \<Rightarrow> word_of_int i)))"

section \<open>Round trips\<close>

lemma smlString2Pcdata_plenty [simp]:
  "plenty h \<Longrightarrow> smlString2Pcdata (Some t) h = (Some (Pc_String (length t) (Some t)), h)"
  "smlString2Pcdata None h = (None, h)"
  by (simp_all add: smlString2Pcdata_def)

lemma smlPcdata2String_plenty:
  assumes "plenty h" and "CHR 0x00 \<notin> set t"
  shows "smlPcdata2String (Some (Pc_String (length t) (Some t))) h = (Val (Some t), h)"
proof -
  have "takeWhile (\<lambda>x. x \<noteq> CHR 0x00) t = t"
    by (subst takeWhile_eq_all_conv) (use assms(2) in auto)
  then have "copy_bytes (length t) (Some t) = Val t"
    unfolding copy_bytes_def take_all [OF order_refl] by simp
  then show ?thesis using assms(1) by (simp add: smlPcdata2String_def)
qed

lemma smlPcdata2String_None [simp]: "smlPcdata2String None h = (Val None, h)"
  by (simp add: smlPcdata2String_def)

text \<open>
  The names of the authentication types the library knows in meta information are read back
  as the type they were written for; the other types are written as an empty name, which is read
  as unknown.
\<close>

theorem auth_type_round_trip:
  "auth_string_as_type (auth_type_as_string t) =
     (if t \<in> {DMCLT_AUTH_TYPE_HTTP_BASIC, DMCLT_AUTH_TYPE_HTTP_DIGEST, DMCLT_AUTH_TYPE_TRANSPORT}
      then DMCLT_AUTH_TYPE_UNKNOWN else t)"
  by (cases t) (simp_all add: auth_string_as_type_def)

lemma auth_type_name_no_zero: "CHR 0x00 \<notin> set (auth_type_as_string t)"
  by (cases t) simp_all

text \<open>
  The format and the type put into a meta information are the ones extracted from it.
\<close>

theorem meta_round_trip:
  assumes "plenty h" and "fmt \<noteq> None \<or> ty \<noteq> None"
    and "\<forall>t. fmt = Some t \<or> ty = Some t \<longrightarrow> CHR 0x00 \<notin> set t"
  shows "\<exists>m. convert_to_meta fmt ty h = (Some m, h) \<and>
    extract_from_meta (Some m) True True h = (Val (fmt, ty), h)"
  using assms smlPcdata2String_plenty [OF assms(1)]
  by (cases fmt; cases ty) (auto simp: convert_to_meta_def extract_from_meta_def cmd_defs)

theorem meta_round_trip_witness:
  "\<exists>m. convert_to_meta (Some ''b64'') (Some ''syncml:auth-md5'') \<lparr>mem = []\<rparr> = (Some m, \<lparr>mem = []\<rparr>) \<and>
    extract_from_meta (Some m) True True \<lparr>mem = []\<rparr> = (Val (Some ''b64'', Some ''syncml:auth-md5''), \<lparr>mem = []\<rparr>)"
  by (rule meta_round_trip) auto

lemma b64_char_no_zero: "six w \<Longrightarrow> b64_char w \<noteq> CHR 0x00"
proof -
  assume "six w"
  then have "b64_char w \<in> set s_b64_alphabet"
    using six_less [of w] length_alphabet by (simp add: b64_char_def)
  moreover have "CHR 0x00 \<notin> set s_b64_alphabet" by (simp add: s_b64_alphabet_def)
  ultimately show ?thesis by metis
qed

lemmas no_zero_six = six_block [THEN b64_char_no_zero]

lemma encode_loop_no_zero: "CHR 0x00 \<notin> set (encode_loop bs)"
proof (induction bs rule: encode_loop.induct)
  case (4 a b c rest)
  have "CHR 0x00 \<notin> set (prv_encode_block a b c)"
    using no_zero_six [symmetric] by (simp only: prv_encode_block_def list.set insert_iff) simp
  with 4 show ?case by simp
next
  case (2 a)
  then show ?case using no_zero_six [symmetric] by simp
next
  case (3 a b)
  then show ?case using no_zero_six [symmetric] by simp
qed simp

text \<open>The meta information of a challenge of type \<open>t\<close> with a nonce.\<close>

definition chal_meta :: "dmclt_authType_t \<Rightarrow> byte list \<Rightarrow> pcdata" where
  "chal_meta t nonce =
     Pc_Metinf (Some (Pc_String (length (auth_type_as_string t)) (Some (auth_type_as_string t))))
       (Some (Pc_String 3 (Some ''b64'')))
       (Some (Pc_String (length (encode_loop nonce)) (Some (encode_loop nonce))))"

lemma read_challenge:
  assumes "plenty h" and "nonce \<noteq> []" and "length nonce mod 3 \<noteq> 2"
    and "t \<in> {DMCLT_AUTH_TYPE_BASIC, DMCLT_AUTH_TYPE_DIGEST}"
  shows "\<exists>b. get_from_chal_meta (Some (chal_meta t nonce)) True h = (Val (t, b), h) \<and> content b = nonce \<and>
    len b = length nonce"
proof -
  obtain b where b: "decode_b64 (encode_loop nonce) h = (Val b, h)" "content b = nonce" "len b = length nonce"
    using decode_encode [OF assms(1), of nonce] assms(2,3) by (auto simp: b64_dom_def)
  have "auth_string_as_type (auth_type_as_string t) = t"
    using assms(4) by (auto simp: auth_string_as_type_def)
  then show ?thesis
    using b smlPcdata2String_plenty [OF assms(1) encode_loop_no_zero]
      smlPcdata2String_plenty [OF assms(1) auth_type_name_no_zero]
    by (simp add: get_from_chal_meta_def chal_meta_def cmd_defs Let_def)
qed

text \<open>
  What is left of a nonce after its encoding is decoded: a nonce whose length is two modulo three,
  the eight bytes of the nonces the library makes among them, is lost.
\<close>

definition kept_nonce :: "byte list \<Rightarrow> byte list" where
  "kept_nonce nonce = (if length nonce mod 3 = 2 then [] else nonce)"

lemma read_any_challenge:
  assumes "plenty h" and "nonce \<noteq> []" and "t \<in> {DMCLT_AUTH_TYPE_BASIC, DMCLT_AUTH_TYPE_DIGEST}"
  shows "\<exists>b. get_from_chal_meta (Some (chal_meta t nonce)) True h = (Val (t, b), h) \<and>
    content b = kept_nonce nonce \<and> len b = length (kept_nonce nonce)"
proof (cases "length nonce mod 3 = 2")
  case True
  have b: "decode_b64 (encode_loop nonce) h = (Val \<lparr>buffer = None, len = 0\<rparr>, h)"
    using b64_lost [OF assms(1) True] .
  have "auth_string_as_type (auth_type_as_string t) = t"
    using assms(3) by (auto simp: auth_string_as_type_def)
  then show ?thesis
    using b True smlPcdata2String_plenty [OF assms(1) encode_loop_no_zero]
      smlPcdata2String_plenty [OF assms(1) auth_type_name_no_zero]
    by (simp add: get_from_chal_meta_def chal_meta_def cmd_defs Let_def kept_nonce_def content_def)
next
  case False
  then show ?thesis using read_challenge [OF assms(1,2) False assms(3)] by (simp add: kept_nonce_def)
qed

text \<open>
  C16. While no allocation fails, a challenge the library creates for basic or for digest
  authentication with a nonce that is not empty is read back with its type and with its nonce, but
  for a nonce whose length is two modulo three (eight bytes, for one), which is read back empty.
\<close>

theorem challenge_round_trip:
  assumes "plenty h" and "nonce \<noteq> []" and "t \<in> {DMCLT_AUTH_TYPE_BASIC, DMCLT_AUTH_TYPE_DIGEST}"
  shows "\<exists>m b. create_chal_meta t (Some nonce) h = (Some m, h) \<and>
    get_from_chal_meta (Some m) True h = (Val (t, b), h) \<and>
    content b = (if length nonce mod 3 = 2 then [] else nonce)"
proof -
  have "create_chal_meta t (Some nonce) h = (Some (chal_meta t nonce), h)"
    using assms(1) by (simp add: create_chal_meta_def chal_meta_def encode_b64_def)
  then show ?thesis using read_any_challenge [OF assms] by (auto simp: kept_nonce_def)
qed

theorem challenge_round_trip_witness:
  "(\<exists>m b. create_chal_meta DMCLT_AUTH_TYPE_DIGEST (Some [1, 2, 3, 4]) \<lparr>mem = []\<rparr> = (Some m, \<lparr>mem = []\<rparr>) \<and>
    get_from_chal_meta (Some m) True \<lparr>mem = []\<rparr> = (Val (DMCLT_AUTH_TYPE_DIGEST, b), \<lparr>mem = []\<rparr>) \<and>
    content b = [1, 2, 3, 4]) \<and>
   (\<exists>m b. create_chal_meta DMCLT_AUTH_TYPE_DIGEST (Some [1, 2, 3, 4, 5, 6, 7, 8]) \<lparr>mem = []\<rparr> = (Some m, \<lparr>mem = []\<rparr>) \<and>
    get_from_chal_meta (Some m) True \<lparr>mem = []\<rparr> = (Val (DMCLT_AUTH_TYPE_DIGEST, b), \<lparr>mem = []\<rparr>) \<and>
    content b = [])"
  using challenge_round_trip [of "\<lparr>mem = []\<rparr>" "[1, 2, 3, 4]" DMCLT_AUTH_TYPE_DIGEST]
    challenge_round_trip [of "\<lparr>mem = []\<rparr>" "[1, 2, 3, 4, 5, 6, 7, 8]" DMCLT_AUTH_TYPE_DIGEST] by simp

section \<open>Numbers\<close>

lemma of_char_digit: "d < 10 \<Longrightarrow> (of_char (digit_char d) :: nat) = 48 + d"
  by (simp add: digit_char_def of_char_of)

lemma digit_char_facts: "d < 10 \<Longrightarrow> is_digit (digit_char d) \<and> digit (digit_char d) = int d"
proof -
  assume d: "d < 10"
  have "(of_char (digit_char d) :: int) = of_nat (of_char (digit_char d))" by (simp add: of_nat_of_char)
  then have "(of_char (digit_char d) :: int) = 48 + int d" using of_char_digit [OF d] by simp
  then show ?thesis
    using of_char_digit [OF d] d by (simp add: is_digit_def in_range_def digit_def)
qed

lemma digits_decimal:
  "(\<forall>c \<in> set (digits_in 10 n). is_digit c) \<and> decimal (digits_in 10 n) = int n \<and> digits_in 10 n \<noteq> []"
proof (induction n rule: less_induct)
  case (less n)
  show ?case
  proof (cases "n < 10")
    case True
    then show ?thesis using digit_char_facts by (simp add: digits_in.simps [of 10 n] decimal_def)
  next
    case False
    then have IH: "(\<forall>c \<in> set (digits_in 10 (n div 10)). is_digit c) \<and>
        decimal (digits_in 10 (n div 10)) = int (n div 10)"
      using less [of "n div 10"] by simp
    have "n = 10 * (n div 10) + n mod 10" by simp
    then have "int n = 10 * int (n div 10) + int (n mod 10)"
      by (metis of_nat_add of_nat_mult of_nat_numeral)
    then show ?thesis
      using IH digit_char_facts [of "n mod 10"] False
      by (simp add: digits_in.simps [of 10 n] decimal_def)
  qed
qed

lemma digit_not_special:
  "is_digit c \<Longrightarrow> c \<noteq> CHR ''-'' \<and> c \<noteq> CHR ''+'' \<and> \<not> is_space c \<and> c \<noteq> CHR 0x00"
  by (auto simp: is_digit_def in_range_def is_space_def)

lemma scan_digits:
  assumes "\<forall>c \<in> set ds. is_digit c" and "ds \<noteq> []"
  shows "scan_int ds = (if decimal ds > INT_MAX then Ub else Val (Some (decimal ds)))"
    and "scan_int (CHR ''-'' # ds) =
      (if - decimal ds < - (2 ^ 31) \<or> - decimal ds > INT_MAX then Ub else Val (Some (- decimal ds)))"
proof -
  obtain c cs where c: "ds = c # cs" using assms(2) by (cases ds) auto
  have t: "takeWhile is_digit ds = ds" using assms(1) by (simp add: takeWhile_eq_all_conv)
  have n: "c \<noteq> CHR ''-''" "c \<noteq> CHR ''+''" "\<not> is_space c"
    using digit_not_special [of c] assms(1) c by auto
  have p: "0 \<le> decimal ds" using decimal_mono [of ds 0] assms(1) by (simp add: decimal_def)
  have d: "dropWhile is_space ds = ds" using n c by simp
  have e: "(case ds of [] \<Rightarrow> (False, []) | c # cs \<Rightarrow>
      if c = CHR ''-'' then (True, cs) else if c = CHR ''+'' then (False, cs) else (False, ds)) = (False, ds)"
    using n c by simp
  show "scan_int ds = (if decimal ds > INT_MAX then Ub else Val (Some (decimal ds)))"
    using p assms(2) by (simp add: scan_int_def Let_def t d e)
  have m: "\<not> is_space CHR ''-''" by (simp add: is_space_def in_range_def)
  show "scan_int (CHR ''-'' # ds) =
      (if - decimal ds < - (2 ^ 31) \<or> - decimal ds > INT_MAX then Ub else Val (Some (- decimal ds)))"
    using assms(2) by (simp add: scan_int_def Let_def t m)
qed

lemma digit_chars_no_zero: "CHR 0x00 \<notin> set (digits_in 10 n)"
  using digits_decimal [of n] digit_not_special [of "CHR 0x00"] by blast

lemma scan_print_int: "scan_int (print_int v) = Val (Some (sint v))"
proof -
  have r: "- (2 ^ 31) \<le> sint v" "sint v \<le> INT_MAX"
    using sint_greater_eq [of v] sint_lt [of v] by (simp_all add: INT_MAX_def)
  have n: "scan_int (digits_in 10 n) = (if int n > INT_MAX then Ub else Val (Some (int n)))"
    "scan_int (CHR ''-'' # digits_in 10 n) =
      (if - int n < - (2 ^ 31) \<or> - int n > INT_MAX then Ub else Val (Some (- int n)))" for n
    using scan_digits [of "digits_in 10 n"] digits_decimal [of n] by simp_all
  show ?thesis unfolding print_int_def using r by (simp add: n INT_MAX_def)
qed

text \<open>
  C15. A number survives being written into a value and read back, over the whole range of
  \<^verbatim>\<open>int\<close>, including its minimum.
\<close>

theorem int_round_trip:
  assumes "plenty h"
  shows "\<exists>p. set_pcdata_int v h = (p, h) \<and> pcdata_to_int (Some p) h = (Val v, h)"
proof -
  have z: "CHR 0x00 \<notin> set (print_int v)"
    unfolding print_int_def using digit_chars_no_zero by simp
  show ?thesis
    using assms smlPcdata2String_plenty [OF assms z] scan_print_int [of v]
    by (simp add: set_pcdata_int_def set_pcdata_string_def pcdata_to_int_def cmd_defs)
qed

theorem int_round_trip_witness:
  "\<exists>p. set_pcdata_int (- 42) \<lparr>mem = []\<rparr> = (p, \<lparr>mem = []\<rparr>) \<and> pcdata_to_int (Some p) \<lparr>mem = []\<rparr> = (Val (- 42), \<lparr>mem = []\<rparr>)"
  using int_round_trip [of "\<lparr>mem = []\<rparr>" "- 42"] by simp

section \<open>What only allocates\<close>

lemma drawn_string2pcdata [keeps_rules]: "keeps (drawn e) (smlString2Pcdata t)"
  unfolding smlString2Pcdata_def [abs_def] by (intro keeps_rules)

lemma drawn_pcdata2string [keeps_rules]: "keeps (drawn e) (smlPcdata2String p)"
  unfolding smlPcdata2String_def [abs_def]
  by (intro keeps_rules) (auto simp: keeps_def split: outcome.splits)

lemma drawn_to_meta [keeps_rules]: "keeps (drawn e) (convert_to_meta f t)"
  unfolding convert_to_meta_def [abs_def] by (intro keeps_rules)

lemma drawn_from_meta [keeps_rules]: "keeps (drawn e) (extract_from_meta m f t)"
  unfolding extract_from_meta_def by (auto split: option.split pcdata.split intro!: keeps_rules)

lemma drawn_set_string [keeps_rules]: "keeps (drawn e) (set_pcdata_string t)"
  unfolding set_pcdata_string_def [abs_def] by (intro keeps_rules)

lemma drawn_set_int [keeps_rules]: "keeps (drawn e) (set_pcdata_int v)" "keeps (drawn e) (set_pcdata_hex v)"
  unfolding set_pcdata_int_def set_pcdata_hex_def by (intro keeps_rules)+

lemma drawn_copy_content [keeps_rules]: "keeps (drawn e) (copy_content k n c)"
  unfolding copy_content_def by (intro keeps_rules)

lemma drawn_set_pcdata [keeps_rules]: "keeps (drawn e) (set_pcdata_pcdata p)"
  unfolding set_pcdata_pcdata_def by (auto split: pcdata.split intro!: keeps_rules)

lemma drawn_pcdata_to_int [keeps_rules]: "keeps (drawn e) (pcdata_to_int p)"
  unfolding pcdata_to_int_def by (intro keeps_rules)

lemma drawn_decode_b64 [keeps_rules]: "keeps (drawn e) (decode_b64 d)"
  by (rule keepsI)
    (auto simp: decode_b64_def Let_def split: option.split prod.split intro: drawn_mallocD)

lemma drawn_from_chal_meta [keeps_rules]: "keeps (drawn e) (get_from_chal_meta m b)"
  unfolding get_from_chal_meta_def Let_def by (auto split: option.split pcdata.split intro!: keeps_rules)

end
