(* ===== verification/Credentials.thy ===== *)
theory Credentials
  imports Pcdata Md5 Dm_Tree
begin

text \<open>
  The accounts of the DM servers and the authentication with them (\<^verbatim>\<open>dmcore/src/credentials.c\<close>,
  structures of \<^verbatim>\<open>dmcore/src/internals.h\<close>).

  The description of an authentication is allocated without being cleared, so each field is either
  set or \<open>Indeterminate\<close>; so is a pointer after the block it points to is freed.  Reading an
  indeterminate field leaves the language's defined behaviour.
\<close>

datatype 'a field = Indeterminate | Is 'a

record authDesc_t =
  ad_type :: "dmclt_authType_t field"
  ad_name :: "string option field"
  ad_secret :: "string option field"
  ad_data :: "buffer_t field"

record accountDesc_t =
  acc_id :: "string option"
  acc_server_uri :: "string option"
  acc_dmtree_uri :: "string option"
  toServerCred :: "authDesc_t option"
  toClientCred :: "authDesc_t option"

text \<open>The fields of an authentication after \<^verbatim>\<open>malloc\<close>, and of an account after \<^verbatim>\<open>memset\<close>.\<close>

definition auth_malloc :: authDesc_t where
  "auth_malloc = \<lparr>ad_type = Indeterminate, ad_name = Indeterminate, ad_secret = Indeterminate,
     ad_data = Indeterminate\<rparr>"

definition account_zero :: accountDesc_t where
  "account_zero = \<lparr>acc_id = None, acc_server_uri = None, acc_dmtree_uri = None, toServerCred = None,
     toClientCred = None\<rparr>"

text \<open>\<open>read_str\<close> is the use of a field as a string, \<open>read_data\<close> of the bytes of a buffer.\<close>

fun read_field :: "'a field \<Rightarrow> 'a outcome" where
  "read_field Indeterminate = Ub"
| "read_field (Is a) = Val a"

fun read_str :: "string option field \<Rightarrow> string outcome" where
  "read_str (Is (Some s)) = Val s"
| "read_str _ = Ub"

definition has_bytes :: "buffer_t \<Rightarrow> bool" where
  "has_bytes b \<longleftrightarrow> (case buffer b of None \<Rightarrow> len b = 0 | Some d \<Rightarrow> len b \<le> length d)"

fun read_data :: "buffer_t field \<Rightarrow> buffer_t outcome" where
  "read_data Indeterminate = Ub"
| "read_data (Is b) = (if has_bytes b then Val b else Ub)"

section \<open>Digests\<close>

text \<open>
  A step that cannot fail but only allocate, as a command.  \<open>junk\<close> is the uninitialised part of
  the state of the MD5 computation.
\<close>

definition allocating :: "('s \<Rightarrow> 'a \<times> 's) \<Rightarrow> ('s, 'a) cmd" where
  [cmd_defs]: "allocating m s = (case m s of (a, t) \<Rightarrow> (Val a, t))"

definition prv_get_digest_basic :: "authDesc_t \<Rightarrow> ('z heap_scheme, string option) cmd" where
  "prv_get_digest_basic authP =
     DMC_FAIL (lift (read_str (ad_name authP))) (\<lambda>name.
     DMC_FAIL (lift (read_str (ad_secret authP))) (\<lambda>secret.
     DMC_FAIL (allocating (str_cat_3 name PRV_COLUMN_STR secret)) (\<lambda>A.
     case A of
       None \<Rightarrow> ret None
     | Some A \<Rightarrow> allocating (encode_b64_str A))))"

definition prv_get_digest_md5 :: "byte list \<Rightarrow> authDesc_t \<Rightarrow> ('z heap_scheme, string option) cmd" where
  "prv_get_digest_md5 junk authP =
     DMC_FAIL (lift (read_str (ad_name authP))) (\<lambda>name.
     DMC_FAIL (lift (read_str (ad_secret authP))) (\<lambda>secret.
     DMC_FAIL (allocating (str_cat_3 name PRV_COLUMN_STR secret)) (\<lambda>A.
     case A of
       None \<Rightarrow> ret None
     | Some A \<Rightarrow>
         DMC_FAIL (allocating (encode_b64_md5_str junk A)) (\<lambda>AD.
         case AD of
           None \<Rightarrow> ret None
         | Some AD \<Rightarrow>
             DMC_FAIL (lift (read_data (ad_data authP))) (\<lambda>data.
             DMC_FAIL (allocating (buf_cat_str_buf AD data)) (\<lambda>dataBuf.
             if buffer dataBuf = None then ret None
             else allocating (encode_b64_md5 junk (content dataBuf))))))))"

section \<open>Credentials\<close>

record sml_cred =
  cred_meta :: "pcdata option"
  cred_data :: "pcdata option"

definition smlAllocCred :: "'z heap_scheme \<Rightarrow> bool \<times> 'z heap_scheme" where
  "smlAllocCred h =
     (case malloc () h of
        (None, h) \<Rightarrow> (False, h)
      | (Some _, h) \<Rightarrow> (case malloc () h of (None, h) \<Rightarrow> (False, h) | (Some _, h) \<Rightarrow> (True, h)))"

text \<open>What both branches of \<open>get_credentials\<close> do with their digest.\<close>

definition cred_of :: "dmclt_authType_t \<Rightarrow> string option \<Rightarrow> ('z heap_scheme, sml_cred option) cmd" where
  "cred_of type digest =
     (case digest of
        None \<Rightarrow> ret None
      | Some digest \<Rightarrow>
          DMC_FAIL (allocating smlAllocCred) (\<lambda>ok.
          if \<not> ok then ret None
          else
            DMC_FAIL (allocating (convert_to_meta (Some ''b64'') (Some (auth_type_as_string type)))) (\<lambda>meta.
            DMC_FAIL (allocating (set_pcdata_string digest)) (\<lambda>data.
            ret (Some \<lparr>cred_meta = meta, cred_data = Some data\<rparr>)))))"

definition get_credentials ::
  "byte list \<Rightarrow> authDesc_t option \<Rightarrow> ('z heap_scheme, sml_cred option) cmd" where
  "get_credentials junk authP =
     (case authP of
        None \<Rightarrow> lift Ub
      | Some authP \<Rightarrow>
          DMC_FAIL (lift (read_field (ad_type authP))) (\<lambda>type.
          if type = DMCLT_AUTH_TYPE_BASIC then
            DMC_FAIL (prv_get_digest_basic authP) (cred_of DMCLT_AUTH_TYPE_BASIC)
          else if type = DMCLT_AUTH_TYPE_DIGEST then
            DMC_FAIL (prv_get_digest_md5 junk authP) (cred_of DMCLT_AUTH_TYPE_DIGEST)
          else ret None))"

definition compare_digest :: "string \<Rightarrow> string option \<Rightarrow> int" where
  "compare_digest data digest =
     (if digest = Some data then OMADM_SYNCML_ERROR_AUTHENTICATION_ACCEPTED
      else OMADM_SYNCML_ERROR_INVALID_CREDENTIALS)"

text \<open>The account is not dereferenced when the value of the credentials cannot be copied.\<close>

definition check_credentials ::
  "byte list \<Rightarrow> sml_cred \<Rightarrow> authDesc_t option \<Rightarrow> ('z heap_scheme, int) cmd" where
  "check_credentials junk credP authP =
     DMC_FAIL (smlPcdata2String (cred_data credP)) (\<lambda>data.
     case data of
       None \<Rightarrow> ret OMADM_SYNCML_ERROR_INVALID_CREDENTIALS
     | Some data \<Rightarrow>
         DMC_FAIL (get_from_chal_meta (cred_meta credP) False) (\<lambda>(credType, _).
         case authP of
           None \<Rightarrow> lift Ub
         | Some authP \<Rightarrow>
             DMC_FAIL (lift (read_field (ad_type authP))) (\<lambda>type.
             if type = DMCLT_AUTH_TYPE_BASIC \<and> credType = DMCLT_AUTH_TYPE_BASIC then
               DMC_FAIL (prv_get_digest_basic authP) (\<lambda>digest. ret (compare_digest data digest))
             else if type = DMCLT_AUTH_TYPE_DIGEST \<and> credType = DMCLT_AUTH_TYPE_DIGEST then
               DMC_FAIL (prv_get_digest_md5 junk authP) (\<lambda>digest. ret (compare_digest data digest))
             else ret OMADM_SYNCML_ERROR_INVALID_CREDENTIALS)))"

section \<open>Challenges\<close>

text \<open>
  \<open>nonce\<close> is the object representation of the random number.  The source takes eight bytes from
  the address of the number.  \<open>smlAllocChal\<close> is a plain \<^verbatim>\<open>malloc\<close>; a challenge is its meta.
\<close>

definition get_challenge ::
  "byte list \<Rightarrow> authDesc_t option \<Rightarrow> ('z heap_scheme, pcdata option \<times> authDesc_t) cmd" where
  "get_challenge nonce authP =
     (case authP of
        None \<Rightarrow> lift Ub
      | Some authP \<Rightarrow>
          DMC_FAIL (lift (read_field (ad_type authP))) (\<lambda>type.
          DMC_FAIL
            (if type = DMCLT_AUTH_TYPE_BASIC then
               DMC_FAIL (allocating (create_chal_meta type None)) (\<lambda>metaP. ret (metaP, authP))
             else if type = DMCLT_AUTH_TYPE_DIGEST then
               DMC_FAIL (lift (read_field (ad_data authP))) (\<lambda>_.
               if length nonce < 8 then lift Ub
               else
                 DMC_FAIL (allocating (encode_b64 (take 8 nonce))) (\<lambda>b64.
                 case b64 of
                   None \<Rightarrow> lift Ub
                 | Some b64 \<Rightarrow>
                     let data = bytes_of b64 in
                     DMC_FAIL (allocating (create_chal_meta type (Some data))) (\<lambda>metaP.
                     ret (metaP, authP\<lparr>ad_data := Is \<lparr>buffer = Some data, len = length data\<rparr>\<rparr>))))
             else ret (None, authP)) (\<lambda>(metaP, authP).
          case metaP of
            None \<Rightarrow> ret (None, authP)
          | Some m \<Rightarrow> DMC_FAIL (allocating (malloc m)) (\<lambda>chalP. ret (chalP, authP)))))"

section \<open>Accounts\<close>

text \<open>
  The pointer the caller passes for the account is a field of the state, so that what a failed
  call leaves there is visible.
\<close>

record 'w account_env = "'w dmtree_t" +
  account :: "accountDesc_t option"

definition set_account ::
  "(accountDesc_t \<Rightarrow> accountDesc_t) \<Rightarrow> (('w, 'z) account_env_scheme, unit) cmd" where
  "set_account f s =
     (case account s of None \<Rightarrow> (Ub, s) | Some a \<Rightarrow> (Val (), s\<lparr>account := Some (f a)\<rparr>))"

text \<open>The node with a URI and nothing else.\<close>

definition node_at :: "string \<Rightarrow> dmtree_node_t" where
  "node_at uri = node_zero\<lparr>node_uri := Some uri\<rparr>"

text \<open>
  One of the four nodes of an authentication: \<open>k\<close> is the rest, with the code of the read.  A
  failed copy of the URI, and every code but \<open>NOT_FOUND\<close>, is returned at once.
\<close>

definition fill_step ::
  "string \<Rightarrow> string \<Rightarrow> authDesc_t \<Rightarrow>
     (dmtree_node_t \<Rightarrow> authDesc_t \<Rightarrow> (('w, 'z) mo_env_scheme, authDesc_t) cmd) \<Rightarrow>
     (int \<Rightarrow> authDesc_t \<Rightarrow> (('w, 'z) mo_env_scheme, int \<times> authDesc_t) cmd) \<Rightarrow>
     (('w, 'z) mo_env_scheme, int \<times> authDesc_t) cmd" where
  "fill_step uri name authP found k =
     DMC_FAIL (allocating (str_cat_2 uri name)) (\<lambda>u.
     case u of
       None \<Rightarrow> ret (OMADM_SYNCML_ERROR_DEVICE_FULL, authP)
     | Some u \<Rightarrow>
         try_code (momgr_get_value (Some (node_at u))) (\<lambda>r.
         case r of
           Inr node \<Rightarrow> DMC_FAIL (found node authP) (k OMADM_SYNCML_ERROR_NONE)
         | Inl code \<Rightarrow>
             if code \<noteq> OMADM_SYNCML_ERROR_NOT_FOUND then ret (code, authP) else k code authP))"

definition found_type ::
  "dmtree_node_t \<Rightarrow> authDesc_t \<Rightarrow> ('z heap_scheme, authDesc_t) cmd" where
  "found_type node authP =
     DMC_FAIL (lift (auth_value_as_type (data_buffer node) (data_size node))) (\<lambda>t.
     ret (authP\<lparr>ad_type := Is t\<rparr>))"

definition found_name ::
  "dmtree_node_t \<Rightarrow> authDesc_t \<Rightarrow> ('z heap_scheme, authDesc_t) cmd" where
  "found_name node authP =
     DMC_FAIL (dmtree_node_as_string node) (\<lambda>n. ret (authP\<lparr>ad_name := Is n\<rparr>))"

definition found_secret ::
  "dmtree_node_t \<Rightarrow> authDesc_t \<Rightarrow> ('z heap_scheme, authDesc_t) cmd" where
  "found_secret node authP =
     DMC_FAIL (dmtree_node_as_string node) (\<lambda>n. ret (authP\<lparr>ad_secret := Is n\<rparr>))"

text \<open>The buffer of the node is taken over, with the terminator of its string.\<close>

definition node_bytes :: "dmtree_node_t \<Rightarrow> buffer_t" where
  "node_bytes node =
     \<lparr>buffer = map_option (\<lambda>d. bytes_of (d @ [CHR 0x00])) (data_buffer node), len = data_size node\<rparr>"

definition found_data ::
  "dmtree_node_t \<Rightarrow> authDesc_t \<Rightarrow> ('s, authDesc_t) cmd" where
  "found_data node authP = ret (authP\<lparr>ad_data := Is (node_bytes node)\<rparr>)"

text \<open>An empty string in the place of a null one.\<close>

definition or_empty ::
  "string option field \<Rightarrow> ('z heap_scheme, string option) cmd" where
  "or_empty x =
     DMC_FAIL (lift (read_field x)) (\<lambda>x.
     case x of None \<Rightarrow> allocating (strdup '''') | Some t \<Rightarrow> ret (Some t))"

text \<open>The end of \<open>prv_fill_credentials\<close> returns the code of the last read, that of the data.\<close>

definition finish_credentials ::
  "int \<Rightarrow> authDesc_t \<Rightarrow> ('z heap_scheme, int \<times> authDesc_t) cmd" where
  "finish_credentials code authP =
     DMC_FAIL (or_empty (ad_name authP)) (\<lambda>name.
     let authP = authP\<lparr>ad_name := Is name\<rparr> in
     if name = None then ret (OMADM_SYNCML_ERROR_DEVICE_FULL, authP)
     else
       DMC_FAIL (or_empty (ad_secret authP)) (\<lambda>secret.
       let authP = authP\<lparr>ad_secret := Is secret\<rparr> in
       if secret = None then ret (OMADM_SYNCML_ERROR_DEVICE_FULL, authP)
       else ret (code, authP)))"

definition prv_fill_credentials ::
  "string \<Rightarrow> authDesc_t \<Rightarrow> (('w, 'z) mo_env_scheme, int \<times> authDesc_t) cmd" where
  "prv_fill_credentials uri authP =
     fill_step uri ''/AAuthType'' authP found_type (\<lambda>_ authP.
     fill_step uri ''/AAuthName'' authP found_name (\<lambda>_ authP.
     fill_step uri ''/AAuthSecret'' authP found_secret (\<lambda>_ authP.
     fill_step uri ''/AAuthData'' authP found_data finish_credentials)))"

abbreviation DMACC_MO_URN :: string where
  "DMACC_MO_URN \<equiv> ''urn:oma:mo:oma-dm-dmacc:1.0''"

text \<open>The credentials of one direction: the level selects them, \<open>put\<close> stores them.\<close>

definition account_creds ::
  "string \<Rightarrow> string \<Rightarrow> (authDesc_t \<Rightarrow> accountDesc_t \<Rightarrow> accountDesc_t) \<Rightarrow>
     (('w, 'z) account_env_scheme, unit) cmd" where
  "account_creds uri level put =
     try_code (momgr_find_subtree (Some uri) None (Some ''AAuthLevel'') (Some level)) (\<lambda>r.
     case r of
       Inl code \<Rightarrow> if code = OMADM_SYNCML_ERROR_NOT_FOUND then ret () else DMC_FAIL_FORCE code
     | Inr subUri \<Rightarrow>
         DMC_FAIL_NULL (malloc auth_malloc) OMADM_SYNCML_ERROR_DEVICE_FULL (\<lambda>authP.
         DMC_FAIL (prv_fill_credentials subUri authP) (\<lambda>(code, authP).
         DMC_FAIL (set_account (put authP)) (\<lambda>_.
         DMC_FAIL_ERR (code \<noteq> OMADM_SYNCML_ERROR_NONE) code (ret ())))))"

definition new_account :: "string \<Rightarrow> (('w, 'z) account_env_scheme, unit) cmd" where
  "new_account uri s =
     (case malloc (account_zero\<lparr>acc_dmtree_uri := Some uri\<rparr>) s of
        (a, s) \<Rightarrow>
          (case a of None \<Rightarrow> Err OMADM_SYNCML_ERROR_DEVICE_FULL | Some _ \<Rightarrow> Val (), s\<lparr>account := a\<rparr>))"

definition get_server_account :: "string \<Rightarrow> (('w, 'z) account_env_scheme, unit) cmd" where
  "get_server_account serverID =
     DMC_FAIL (momgr_find_subtree None (Some DMACC_MO_URN) (Some ''ServerID'') (Some serverID)) (\<lambda>dmtree_uri.
     DMC_FAIL (new_account dmtree_uri) (\<lambda>_.
     DMC_FAIL_NULL (strdup ''./DevInfo/DevId'') OMADM_SYNCML_ERROR_DEVICE_FULL (\<lambda>u.
     DMC_FAIL (momgr_get_value (Some (node_at u))) (\<lambda>node.
     DMC_FAIL (dmtree_node_as_string node) (\<lambda>i.
     DMC_FAIL (set_account (\<lambda>a. a\<lparr>acc_id := i\<rparr>)) (\<lambda>_.
     DMC_FAIL_NULL (str_cat_2 dmtree_uri ''/AppAddr'') OMADM_SYNCML_ERROR_DEVICE_FULL (\<lambda>uri.
     DMC_FAIL (momgr_find_subtree (Some uri) None (Some ''AddrType'') (Some ''URI'')) (\<lambda>subUri.
     DMC_FAIL_NULL (str_cat_2 subUri ''/Addr'') OMADM_SYNCML_ERROR_DEVICE_FULL (\<lambda>u.
     DMC_FAIL (momgr_get_value (Some (node_at u))) (\<lambda>node.
     DMC_FAIL (dmtree_node_as_string node) (\<lambda>addr.
     DMC_FAIL (set_account (\<lambda>a. a\<lparr>acc_server_uri := addr\<rparr>)) (\<lambda>_.
     DMC_FAIL_NULL (str_cat_2 dmtree_uri ''/AppAuth'') OMADM_SYNCML_ERROR_DEVICE_FULL (\<lambda>uri.
     DMC_FAIL (account_creds uri ''CLCRED'' (\<lambda>c a. a\<lparr>toServerCred := Some c\<rparr>)) (\<lambda>_.
     account_creds uri ''SRVCRED'' (\<lambda>c a. a\<lparr>toClientCred := Some c\<rparr>)))))))))))))))"

text \<open>Bytes given to an object as a string.\<close>

definition string_of :: "byte list \<Rightarrow> string" where
  "string_of bs = map (\<lambda>b. char_of (unat b)) bs"

definition store_nonce :: "bool \<Rightarrow> (('w, 'z) account_env_scheme, unit) cmd" where
  "store_nonce server s =
     (case account s of
        None \<Rightarrow> (Ub, s)
      | Some accountP \<Rightarrow>
          (case acc_dmtree_uri accountP of
             None \<Rightarrow> (Ub, s)
           | Some dmtree_uri \<Rightarrow>
               DMC_FAIL (allocating (str_cat_2 dmtree_uri ''/AppAuth'')) (\<lambda>searchUri.
               case searchUri of
                 None \<Rightarrow> ret ()
               | Some searchUri \<Rightarrow>
                   try_code (momgr_find_subtree (Some searchUri) None (Some ''AAuthLevel'')
                       (Some (if server then ''CLCRED'' else ''SRVCRED''))) (\<lambda>r.
                   case r of
                     Inl _ \<Rightarrow> ret ()
                   | Inr subUri \<Rightarrow>
                       DMC_FAIL (allocating (str_cat_2 subUri ''/AAuthData'')) (\<lambda>u.
                       case u of
                         None \<Rightarrow> ret ()
                       | Some u \<Rightarrow>
                           (case (if server then toServerCred accountP else toClientCred accountP) of
                              None \<Rightarrow> lift Ub
                            | Some cred \<Rightarrow>
                                DMC_FAIL (lift (read_field (ad_data cred))) (\<lambda>data.
                                try_code (momgr_set_value (Some ((node_at u)
                                    \<lparr>data_size := len data, data_buffer := map_option string_of (buffer data)\<rparr>)))
                                  (\<lambda>_. ret ())))))) s))"

section \<open>What is accepted\<close>

lemma allocating_val [cmd_val]: "allocating m s = (Val a, t) \<longleftrightarrow> m s = (a, t)"
  by (auto simp: cmd_defs split: prod.splits)

lemma keeps_allocating [keeps_rules]: "keeps I m \<Longrightarrow> keeps I (allocating m)"
  by (auto simp: keeps_def cmd_defs split: prod.splits)

lemma read_field_val [cmd_val]: "read_field x = Val a \<longleftrightarrow> x = Is a"
  by (cases x) auto

lemma read_str_val [cmd_val]: "read_str x = Val a \<longleftrightarrow> x = Is (Some a)"
  by (cases x rule: read_str.cases) auto

lemma read_data_val [cmd_val]: "read_data x = Val a \<longleftrightarrow> x = Is a \<and> has_bytes a"
  by (cases x) auto

text \<open>
  The digests of the protocol: base 64 of the name and the secret, and
  B64(H(B64(H(name:secret)):nonce)) with the hash of RFC 1321.
\<close>

definition basic_digest :: "string \<Rightarrow> string \<Rightarrow> string" where
  "basic_digest name secret = encode_loop (bytes_of (name @ PRV_COLUMN_STR @ secret))"

definition server_hash :: "string \<Rightarrow> string \<Rightarrow> string" where
  "server_hash name secret = encode_loop (rfc1321 (bytes_of (name @ PRV_COLUMN_STR @ secret)))"

definition md5_digest :: "string \<Rightarrow> string \<Rightarrow> byte list \<Rightarrow> string" where
  "md5_digest name secret nonce =
     encode_loop (rfc1321 (bytes_of (server_hash name secret) @ bytes_of PRV_COLUMN_STR @ nonce))"

definition digest_for :: "dmclt_authType_t \<Rightarrow> string \<Rightarrow> string \<Rightarrow> byte list \<Rightarrow> string" where
  "digest_for t name secret nonce =
     (if t = DMCLT_AUTH_TYPE_BASIC then basic_digest name secret else md5_digest name secret nonce)"

text \<open>Inputs the MD5 code accepts.\<close>

definition md5_sized :: "string \<Rightarrow> string \<Rightarrow> byte list \<Rightarrow> bool" where
  "md5_sized name secret nonce \<longleftrightarrow> length name + length secret + length nonce < 2 ^ 27"

lemma length_bytes_of [simp]: "length (bytes_of s) = length s"
  by (simp add: bytes_of_def)

lemma length_server_hash: "length (server_hash name secret) = 24"
  by (simp add: server_hash_def length_encode_loop)

lemma md5_inputs_ok:
  assumes "md5_sized name secret nonce"
  shows "md5_ok_len (bytes_of (name @ PRV_COLUMN_STR @ secret))"
    and "md5_ok_len (bytes_of (server_hash name secret) @ bytes_of PRV_COLUMN_STR @ nonce)"
  using assms by (simp_all add: md5_sized_def md5_ok_len_def length_server_hash)

lemma digest_no_zero: "CHR 0x00 \<notin> set (digest_for t name secret nonce)"
  by (simp add: digest_for_def basic_digest_def md5_digest_def encode_loop_no_zero)

definition fields :: "authDesc_t \<Rightarrow> dmclt_authType_t \<Rightarrow> string \<Rightarrow> string \<Rightarrow> buffer_t \<Rightarrow> bool" where
  "fields a t name secret data \<longleftrightarrow>
     ad_type a = Is t \<and> ad_name a = Is (Some name) \<and> ad_secret a = Is (Some secret) \<and>
     ad_data a = Is data \<and> has_bytes data"

lemma encode_b64_md5_plenty:
  "plenty h \<Longrightarrow> length junk = 64 \<Longrightarrow> md5_ok_len bs \<Longrightarrow>
     encode_b64_md5 junk bs h = (Some (encode_loop (rfc1321 bs)), h)"
  by (simp add: encode_b64_md5_def encode_b64_def prv_compute_md5_eq)

lemma has_bytes_len: "has_bytes data \<Longrightarrow> len data = length (content data)"
  by (auto simp: has_bytes_def content_def split: option.splits)

lemma buf_cat_plenty:
  "plenty h \<Longrightarrow> has_bytes data \<Longrightarrow>
     \<exists>b. buf_cat_str_buf str data h = (b, h) \<and> buffer b \<noteq> None \<and>
       content b = bytes_of str @ bytes_of PRV_COLUMN_STR @ content data"
  using has_bytes_len [of data] by (auto simp: buf_cat_str_buf_def content_def [of "\<lparr>buffer = _, len = _\<rparr>"]
      intro!: take_all)

lemma digest_basic_plenty:
  "plenty h \<Longrightarrow> fields a t name secret data \<Longrightarrow>
     prv_get_digest_basic a h = (Val (Some (basic_digest name secret)), h)"
  by (simp add: prv_get_digest_basic_def fields_def cmd_defs encode_b64_str_def encode_b64_def
      basic_digest_def)

lemma digest_md5_plenty:
  assumes "plenty h" and "fields a t name secret data" and "length junk = 64"
    and "md5_sized name secret (content data)"
  shows "prv_get_digest_md5 junk a h = (Val (Some (md5_digest name secret (content data))), h)"
proof -
  obtain b where b: "buf_cat_str_buf (server_hash name secret) data h = (b, h)" "buffer b \<noteq> None"
    "content b = bytes_of (server_hash name secret) @ bytes_of PRV_COLUMN_STR @ content data"
    using buf_cat_plenty [OF assms(1), of data "server_hash name secret"] assms(2)
    unfolding fields_def by blast
  have "encode_b64_md5_str junk (name @ PRV_COLUMN_STR @ secret) h = (Some (server_hash name secret), h)"
    using encode_b64_md5_plenty [OF assms(1,3) md5_inputs_ok(1) [OF assms(4)]]
    by (simp add: encode_b64_md5_str_def server_hash_def)
  moreover have "encode_b64_md5 junk (content b) h = (Some (md5_digest name secret (content data)), h)"
    using encode_b64_md5_plenty [OF assms(1,3) md5_inputs_ok(2) [OF assms(4)]] b(3)
    by (simp add: md5_digest_def)
  ultimately show ?thesis
    using assms(1,2) b(1,2) by (simp add: prv_get_digest_md5_def fields_def cmd_defs)
qed

text \<open>With any schedule of allocations, a digest that is computed is the right one.\<close>

lemma encode_b64_SomeD: "encode_b64 bs h = (Some r, h') \<Longrightarrow> r = encode_loop bs"
  unfolding encode_b64_def by (rule malloc_SomeD)

lemma buf_cat_SomeD:
  "has_bytes data \<Longrightarrow> buf_cat_str_buf str data h = (b, h') \<Longrightarrow> buffer b \<noteq> None \<Longrightarrow>
     content b = bytes_of str @ bytes_of PRV_COLUMN_STR @ content data"
  using has_bytes_len [of data]
  by (auto simp: buf_cat_str_buf_def content_def [of "\<lparr>buffer = _, len = _\<rparr>"]
      dest!: malloc_SomeD split: prod.splits option.splits)

lemma digest_basic_val:
  "fields a t name secret data \<Longrightarrow> prv_get_digest_basic a h = (Val (Some d), h') \<Longrightarrow>
     d = basic_digest name secret"
  by (auto simp: prv_get_digest_basic_def fields_def cmd_val str_cat_3_def encode_b64_str_def
      basic_digest_def split: option.splits dest!: malloc_SomeD encode_b64_SomeD)

lemma digest_md5_val:
  assumes "fields a t name secret data" and "length junk = 64" and "md5_sized name secret (content data)"
    and "prv_get_digest_md5 junk a h = (Val (Some d), h')"
  shows "d = md5_digest name secret (content data)"
proof -
  note f = assms(1) [unfolded fields_def]
  obtain A h1 AD h2 b h3
    where A: "str_cat_3 name PRV_COLUMN_STR secret h = (Some A, h1)"
      and AD: "encode_b64_md5_str junk A h1 = (Some AD, h2)"
      and b: "buf_cat_str_buf AD data h2 = (b, h3)" "buffer b \<noteq> None"
      and d: "encode_b64_md5 junk (content b) h3 = (Some d, h')"
    using assms(4) f
    by (auto simp: prv_get_digest_md5_def cmd_val split: option.splits if_splits)
  have "A = name @ PRV_COLUMN_STR @ secret"
    using A unfolding str_cat_3_def by (rule malloc_SomeD)
  then have "AD = server_hash name secret"
    using encode_b64_SomeD [OF AD [unfolded encode_b64_md5_str_def encode_b64_md5_def]]
      prv_compute_md5_eq [OF assms(2) md5_inputs_ok(1) [OF assms(3)]]
    by (simp add: server_hash_def)
  then have "content b = bytes_of (server_hash name secret) @ bytes_of PRV_COLUMN_STR @ content data"
    using buf_cat_SomeD [OF _ b] f by simp
  then show ?thesis
    using encode_b64_SomeD [OF d [unfolded encode_b64_md5_def]]
      prv_compute_md5_eq [OF assms(2) md5_inputs_ok(2) [OF assms(3)]]
    by (simp add: md5_digest_def)
qed

text \<open>
  C17. A server is accepted only if the value of its credentials is the digest of the account: the
  secret, and for a digest the nonce the account holds, enter it.  This holds under every
  schedule of failing allocations.
\<close>

theorem accepted_only_with_digest:
  assumes "fields a t name secret data" and "length junk = 64"
    and "md5_sized name secret (content data)"
    and "check_credentials junk c (Some a) h = (Val OMADM_SYNCML_ERROR_AUTHENTICATION_ACCEPTED, h')"
  shows "(t = DMCLT_AUTH_TYPE_BASIC \<or> t = DMCLT_AUTH_TYPE_DIGEST) \<and>
    fst (smlPcdata2String (cred_data c) h) = Val (Some (digest_for t name secret (content data)))"
proof -
  have t: "ad_type a = Is t" using assms(1) by (simp add: fields_def)
  obtain x h1 where x: "smlPcdata2String (cred_data c) h = (Val (Some x), h1)"
    and D: "(t = DMCLT_AUTH_TYPE_BASIC \<and> (\<exists>h2. prv_get_digest_basic a h2 = (Val (Some x), h'))) \<or>
      (t = DMCLT_AUTH_TYPE_DIGEST \<and> (\<exists>h2. prv_get_digest_md5 junk a h2 = (Val (Some x), h')))"
    using assms(4) t
    by (auto simp: check_credentials_def cmd_val compare_digest_def split: option.splits if_splits)
  have "(t = DMCLT_AUTH_TYPE_BASIC \<or> t = DMCLT_AUTH_TYPE_DIGEST) \<and>
      x = digest_for t name secret (content data)"
    using D digest_basic_val [OF assms(1)] digest_md5_val [OF assms(1-3)]
    by (auto simp: digest_for_def)
  with x show ?thesis by simp
qed

text \<open>The credentials of a type, with a digest as their value.\<close>

definition made_cred :: "dmclt_authType_t \<Rightarrow> string \<Rightarrow> sml_cred" where
  "made_cred t d = \<lparr>cred_meta = Some (Pc_Metinf (Some (Pc_String (length (auth_type_as_string t)) (Some (auth_type_as_string t))))
      (Some (Pc_String 3 (Some ''b64''))) None), cred_data = Some (Pc_String (length d) (Some d))\<rparr>"

lemma get_credentials_plenty:
  assumes "plenty h" and "fields a t name secret data" and "length junk = 64"
    and "md5_sized name secret (content data)" and "t = DMCLT_AUTH_TYPE_BASIC \<or> t = DMCLT_AUTH_TYPE_DIGEST"
  shows "get_credentials junk (Some a) h = (Val (Some (made_cred t (digest_for t name secret (content data)))), h)"
proof -
  have "cred_of t (Some d) h = (Val (Some (made_cred t d)), h)" for d
    using assms(1,5)
    by (auto simp: made_cred_def cred_of_def cmd_defs smlAllocCred_def convert_to_meta_def set_pcdata_string_def)
  then show ?thesis
    using assms(2,5) digest_basic_plenty [OF assms(1,2)] digest_md5_plenty [OF assms(1-4)]
    by (auto simp: get_credentials_def digest_for_def cmd_defs fields_def)
qed

text \<open>
  C18. Credentials the client makes from an account are accepted by a peer with the same account,
  and no credentials are made for the types the DM level does not handle.
\<close>

theorem own_credentials_accepted:
  assumes "plenty h" and "fields a t name secret data" and "length junk = 64"
    and "md5_sized name secret (content data)"
  shows "\<exists>c. get_credentials junk (Some a) h = (Val c, h) \<and>
    (case c of
       None \<Rightarrow> t \<noteq> DMCLT_AUTH_TYPE_BASIC \<and> t \<noteq> DMCLT_AUTH_TYPE_DIGEST
     | Some c \<Rightarrow>
         check_credentials junk c (Some a) h = (Val OMADM_SYNCML_ERROR_AUTHENTICATION_ACCEPTED, h))"
proof (cases "t = DMCLT_AUTH_TYPE_BASIC \<or> t = DMCLT_AUTH_TYPE_DIGEST")
  case False
  then show ?thesis using assms(2) by (simp add: get_credentials_def fields_def cmd_defs)
next
  case True
  have T: "ad_type a = Is t" using assms(2) by (simp add: fields_def)
  have ty: "auth_string_as_type (auth_type_as_string t) = t"
    using True by (auto simp: auth_string_as_type_def)
  let ?d = "digest_for t name secret (content data)"
  let ?c = "made_cred t ?d"
  have g: "get_credentials junk (Some a) h = (Val (Some ?c), h)"
    by (rule get_credentials_plenty [OF assms True])
  have "smlPcdata2String (cred_data ?c) h = (Val (Some ?d), h)"
    using smlPcdata2String_plenty [OF assms(1) digest_no_zero] by (simp add: made_cred_def)
  moreover have "get_from_chal_meta (cred_meta ?c) False h = (Val (t, empty_buffer), h)"
    using smlPcdata2String_plenty [OF assms(1) auth_type_name_no_zero] ty
    by (simp add: made_cred_def get_from_chal_meta_def cmd_defs Let_def)
  ultimately have "check_credentials junk ?c (Some a) h =
      (Val OMADM_SYNCML_ERROR_AUTHENTICATION_ACCEPTED, h)"
    using True T digest_basic_plenty [OF assms(1,2)] digest_md5_plenty [OF assms(1-4)]
    by (auto simp: check_credentials_def digest_for_def cmd_defs compare_digest_def)
  with g show ?thesis by (intro exI [of _ "Some ?c"]) simp
qed

text \<open>
  A digest challenge always leaves the defined behaviour: the random number has four bytes and
  eight are read.
\<close>

theorem digest_challenge_reads_past_nonce:
  assumes "ad_type a = Is DMCLT_AUTH_TYPE_DIGEST" and "length nonce = 4"
  shows "fst (get_challenge nonce (Some a) h) = Ub"
  using assms by (cases "ad_data a") (simp_all add: get_challenge_def cmd_defs)

section \<open>A loaded account\<close>

lemma append_names_err: "append_names ns n s = (Err e, t) \<Longrightarrow> e \<noteq> OMADM_SYNCML_ERROR_NONE"
  by (induction ns arbitrary: n s)
    (auto simp: cmd_defs Let_def split: prod.splits option.splits outcome.splits if_splits)

lemma get_value_err: "momgr_get_value n s = (Err e, t) \<Longrightarrow> e \<noteq> OMADM_SYNCML_ERROR_NONE"
  by (auto simp: momgr_get_value_def nested_names_def cmd_defs Let_def
      split: prod.splits option.splits outcome.splits if_splits dest: append_names_err)

lemma try_code_val [cmd_val]:
  "try_code m k s = (Val b, t) \<longleftrightarrow>
     (\<exists>a u. m s = (Val a, u) \<and> k (Inr a) u = (Val b, t)) \<or> (\<exists>e u. m s = (Err e, u) \<and> k (Inl e) u = (Val b, t))"
  by (auto simp: cmd_defs split: prod.splits outcome.splits)

text \<open>A step that does not end the function: the node was read, or does not exist.\<close>

lemma fill_step_ok:
  assumes "fill_step uri name a found k s = (Val (OMADM_SYNCML_ERROR_NONE, a'), t)"
  obtains v node w a1 x where "momgr_get_value (Some (node_at (uri @ name))) v = (Val node, w)"
      and "found node a w = (Val a1, x)" and "k OMADM_SYNCML_ERROR_NONE a1 x = (Val (OMADM_SYNCML_ERROR_NONE, a'), t)"
  | w where "k OMADM_SYNCML_ERROR_NOT_FOUND a w = (Val (OMADM_SYNCML_ERROR_NONE, a'), t)"
proof -
  obtain u v where u: "str_cat_2 uri name s = (Some u, v)"
    and R: "try_code (momgr_get_value (Some (node_at u))) (\<lambda>r. case r of
        Inr node \<Rightarrow> DMC_FAIL (found node a) (k OMADM_SYNCML_ERROR_NONE)
      | Inl code \<Rightarrow> if code \<noteq> OMADM_SYNCML_ERROR_NOT_FOUND then ret (code, a) else k code a) v =
      (Val (OMADM_SYNCML_ERROR_NONE, a'), t)"
    using assms by (auto simp: fill_step_def cmd_val split: option.splits)
  have n: "u = uri @ name" using u unfolding str_cat_2_def by (rule malloc_SomeD)
  from R show thesis
    unfolding n try_code_val
  proof (elim disjE exE conjE)
    fix node w
    assume g: "momgr_get_value (Some (node_at (uri @ name))) v = (Val node, w)"
      and "(case Inr node of Inr node \<Rightarrow> DMC_FAIL (found node a) (k OMADM_SYNCML_ERROR_NONE)
        | Inl code \<Rightarrow> if code \<noteq> OMADM_SYNCML_ERROR_NOT_FOUND then ret (code, a) else k code a) w =
        (Val (OMADM_SYNCML_ERROR_NONE, a'), t)"
    then obtain a1 x where "found node a w = (Val a1, x)"
      and "k OMADM_SYNCML_ERROR_NONE a1 x = (Val (OMADM_SYNCML_ERROR_NONE, a'), t)"
      by (auto simp: cmd_val)
    then show thesis using that(1) [OF g] by blast
  next
    fix e w
    assume g: "momgr_get_value (Some (node_at (uri @ name))) v = (Err e, w)"
      and K: "(case Inl e of Inr node \<Rightarrow> DMC_FAIL (found node a) (k OMADM_SYNCML_ERROR_NONE)
        | Inl code \<Rightarrow> if code \<noteq> OMADM_SYNCML_ERROR_NOT_FOUND then ret (code, a) else k code a) w =
        (Val (OMADM_SYNCML_ERROR_NONE, a'), t)"
    from K get_value_err [OF g] have "k OMADM_SYNCML_ERROR_NOT_FOUND a w = (Val (OMADM_SYNCML_ERROR_NONE, a'), t)"
      by (auto simp: cmd_val split: if_splits)
    then show thesis by (rule that(2))
  qed
qed

lemma fill_step_next:
  "fill_step uri name a found k s = (Val (OMADM_SYNCML_ERROR_NONE, a'), t) \<Longrightarrow>
     \<exists>code a1 x. k code a1 x = (Val (OMADM_SYNCML_ERROR_NONE, a'), t)"
  by (erule fill_step_ok) blast+

lemma finish_ok:
  "finish_credentials code a s = (Val (OMADM_SYNCML_ERROR_NONE, a'), t) \<Longrightarrow>
     code = OMADM_SYNCML_ERROR_NONE \<and> ad_data a' = ad_data a \<and>
     (\<exists>n p. ad_name a' = Is (Some n) \<and> ad_secret a' = Is (Some p))"
  by (auto simp: finish_credentials_def Let_def cmd_val split: if_splits)

text \<open>
  Credentials that are loaded without an error have a name and a secret, and their data is the
  value of \<^verbatim>\<open>AAuthData\<close>, which was read: although the function goes on when that node does not
  exist, it then returns the code of the failed read, so an account without it cannot be loaded.
\<close>

theorem loaded_credentials_complete:
  fixes s :: "('w, 'z) mo_env_scheme"
  assumes "prv_fill_credentials uri a0 s = (Val (OMADM_SYNCML_ERROR_NONE, a), t)"
  shows "(\<exists>n p. ad_name a = Is (Some n) \<and> ad_secret a = Is (Some p)) \<and>
    (\<exists>(v :: ('w, 'z) mo_env_scheme) w node.
       momgr_get_value (Some (node_at (uri @ ''/AAuthData''))) v = (Val node, w) \<and>
       ad_data a = Is (node_bytes node))"
proof -
  obtain a1 s1 where 1: "fill_step uri ''/AAuthName'' a1 found_name (\<lambda>_ authP.
     fill_step uri ''/AAuthSecret'' authP found_secret (\<lambda>_ authP.
     fill_step uri ''/AAuthData'' authP found_data finish_credentials)) s1 =
     (Val (OMADM_SYNCML_ERROR_NONE, a), t)"
    using assms unfolding prv_fill_credentials_def by (blast dest: fill_step_next)
  obtain a2 s2 where 2: "fill_step uri ''/AAuthSecret'' a2 found_secret (\<lambda>_ authP.
     fill_step uri ''/AAuthData'' authP found_data finish_credentials) s2 =
     (Val (OMADM_SYNCML_ERROR_NONE, a), t)"
    using 1 by (blast dest: fill_step_next)
  obtain a3 s3 where 3: "fill_step uri ''/AAuthData'' a3 found_data finish_credentials s3 =
     (Val (OMADM_SYNCML_ERROR_NONE, a), t)"
    using 2 by (blast dest: fill_step_next)
  then show ?thesis
  proof (rule fill_step_ok)
    fix v node w a4 x
    assume "momgr_get_value (Some (node_at (uri @ ''/AAuthData''))) v = (Val node, w)"
      and "found_data node a3 w = (Val a4, x)"
      and "finish_credentials OMADM_SYNCML_ERROR_NONE a4 x = (Val (OMADM_SYNCML_ERROR_NONE, a), t)"
    then show ?thesis
      using finish_ok [of OMADM_SYNCML_ERROR_NONE a4 x a t] by (auto simp: found_data_def cmd_val)
  next
    fix w
    assume "finish_credentials OMADM_SYNCML_ERROR_NOT_FOUND a3 w = (Val (OMADM_SYNCML_ERROR_NONE, a), t)"
    then show ?thesis using finish_ok by fastforce
  qed
qed

section \<open>A sample account\<close>

text \<open>An object that answers for the nodes of a list, and names one account for the URN.\<close>

definition table_mo :: "(string \<times> string \<times> string) list \<Rightarrow> nat omadm_mo_interface_t" where
  "table_mo vals = interface_zero\<lparr>base_uri := Some ''.'',
     findURNFunc := Some (\<lambda>urn d w. ((0, if urn = DMACC_MO_URN then Some [''./DMAcc/1''] else None), w)),
     setFunc := Some (\<lambda>n d w. (0, w + 1)),
     getFunc := Some (\<lambda>n d w.
       case map_of vals (case node_uri n of None \<Rightarrow> [] | Some u \<Rightarrow> u) of
         None \<Rightarrow> ((OMADM_SYNCML_ERROR_NOT_FOUND, n), w)
       | Some (f, v) \<Rightarrow>
           ((0, n\<lparr>node_format := Some f, data_buffer := Some v, data_size := length v\<rparr>), w))\<rparr>"

definition account_nodes :: "(string \<times> string \<times> string) list" where
  "account_nodes =
     [(''./DevInfo/DevId'', ''chr'', ''dev''),
      (''./DMAcc/1/ServerID'', ''chr'', ''srv''),
      (''./DMAcc/1/AppAddr'', ''node'', ''1''),
      (''./DMAcc/1/AppAddr/1/AddrType'', ''chr'', ''URI''),
      (''./DMAcc/1/AppAddr/1/Addr'', ''chr'', ''http://srv''),
      (''./DMAcc/1/AppAuth'', ''node'', ''1/2''),
      (''./DMAcc/1/AppAuth/1/AAuthLevel'', ''chr'', ''CLCRED''),
      (''./DMAcc/1/AppAuth/1/AAuthType'', ''chr'', ''BASIC''),
      (''./DMAcc/1/AppAuth/1/AAuthName'', ''chr'', ''usr''),
      (''./DMAcc/1/AppAuth/1/AAuthSecret'', ''chr'', ''pwd''),
      (''./DMAcc/1/AppAuth/1/AAuthData'', ''bin'', ''nnn'')]"

definition table_env :: "(string \<times> string \<times> string) list \<Rightarrow> nat account_env" where
  "table_env vals = \<lparr>mem = [], world = 0,
     MOs = \<lparr>root = Mo_Dir ''.'' (Some \<lparr>interface = table_mo vals, plugin_data = 0\<rparr>) [],
            max_depth = 0, max_total_len = 0, max_segment_len = 0, last_uri = None, last_plugin = None\<rparr>,
     server_id = Some ''srv'', account = None\<rparr>"

lemmas table_defs = table_env_def account_nodes_def table_mo_def interface_zero_def

theorem loaded_credentials_complete_witness:
  "\<exists>(v :: nat account_env) w node.
     momgr_get_value (Some (node_at (''./DMAcc/1/AppAuth/1'' @ ''/AAuthData''))) v = (Val node, w) \<and>
     Is \<lparr>buffer = Some [110, 110, 110, 0], len = 3\<rparr> = Is (node_bytes node)"
proof -
  let ?a = "\<lparr>ad_type = Is DMCLT_AUTH_TYPE_BASIC, ad_name = Is (Some ''usr''), ad_secret = Is (Some ''pwd''),
     ad_data = Is \<lparr>buffer = Some [110, 110, 110, 0], len = 3\<rparr>\<rparr>"
  have "fst (prv_fill_credentials ''./DMAcc/1/AppAuth/1'' auth_malloc (table_env account_nodes)) =
      Val (OMADM_SYNCML_ERROR_NONE, ?a)"
    by code_simp
  from loaded_credentials_complete [OF by_fst [OF this]]
  show ?thesis by (simp only: authDesc_t.select_convs)
qed

definition sample_auth :: "dmclt_authType_t \<Rightarrow> authDesc_t" where
  "sample_auth t = \<lparr>ad_type = Is t, ad_name = Is (Some ''usr''), ad_secret = Is (Some ''pwd''),
     ad_data = Is \<lparr>buffer = Some [110], len = 1\<rparr>\<rparr>"

lemma sample_fields:
  "fields (sample_auth t) t ''usr'' ''pwd'' \<lparr>buffer = Some [110], len = 1\<rparr>"
  "md5_sized ''usr'' ''pwd'' (content \<lparr>buffer = Some [110], len = 1\<rparr>)"
  by (simp_all add: fields_def sample_auth_def has_bytes_def md5_sized_def content_def)

theorem own_credentials_accepted_witness:
  "\<exists>c. get_credentials (replicate 64 0) (Some (sample_auth DMCLT_AUTH_TYPE_DIGEST)) \<lparr>mem = []\<rparr> = (Val (Some c), \<lparr>mem = []\<rparr>) \<and>
    check_credentials (replicate 64 0) c (Some (sample_auth DMCLT_AUTH_TYPE_DIGEST)) \<lparr>mem = []\<rparr> =
      (Val OMADM_SYNCML_ERROR_AUTHENTICATION_ACCEPTED, \<lparr>mem = []\<rparr>)"
proof -
  have "plenty \<lparr>mem = []\<rparr>" and "length (replicate 64 (0 :: byte)) = 64" by simp_all
  from own_credentials_accepted [OF this(1) sample_fields(1) this(2) sample_fields(2),
      of DMCLT_AUTH_TYPE_DIGEST]
  show ?thesis by (auto split: option.splits)
qed

theorem accepted_only_with_digest_witness:
  "fst (smlPcdata2String (Some (Pc_String 12 (Some ''dXNyOnB3ZA==''))) \<lparr>mem = []\<rparr>) =
     Val (Some (digest_for DMCLT_AUTH_TYPE_BASIC ''usr'' ''pwd'' [110]))"
proof -
  let ?c = "\<lparr>cred_meta = Some (Pc_Metinf (Some (Pc_String 17 (Some ''syncml:auth-basic''))) None None),
     cred_data = Some (Pc_String 12 (Some ''dXNyOnB3ZA==''))\<rparr>"
  have "check_credentials (replicate 64 0) ?c (Some (sample_auth DMCLT_AUTH_TYPE_BASIC)) \<lparr>mem = []\<rparr> =
      (Val OMADM_SYNCML_ERROR_AUTHENTICATION_ACCEPTED, \<lparr>mem = []\<rparr>)"
    by code_simp
  from accepted_only_with_digest [OF sample_fields(1) _ sample_fields(2) this] show ?thesis
    by (simp add: content_def)
qed

theorem digest_challenge_reads_past_nonce_witness:
  "fst (get_challenge [1, 2, 3, 4] (Some (sample_auth DMCLT_AUTH_TYPE_DIGEST)) \<lparr>mem = []\<rparr>) = Ub"
  using digest_challenge_reads_past_nonce [of "sample_auth DMCLT_AUTH_TYPE_DIGEST" "[1, 2, 3, 4]"]
  by (simp add: sample_auth_def)

section \<open>What only allocates\<close>

lemma drawn_encode [keeps_rules]:
  "keeps (drawn e) (encode_b64 d)" "keeps (drawn e) (encode_b64_str t)"
  "keeps (drawn e) (encode_b64_md5 j d)" "keeps (drawn e) (encode_b64_md5_str j t)"
  unfolding encode_b64_md5_str_def [abs_def] encode_b64_md5_def [abs_def] encode_b64_str_def [abs_def]
    encode_b64_def [abs_def]
  by (intro keeps_rules)+

lemma drawn_str_cat_3 [keeps_rules]: "keeps (drawn e) (str_cat_3 a b c)"
  unfolding str_cat_3_def by (intro keeps_rules)

lemma drawn_buf_cat [keeps_rules]: "keeps (drawn e) (buf_cat_str_buf a d)"
  unfolding buf_cat_str_buf_def [abs_def] by (intro keeps_rules)

lemma drawn_digests [keeps_rules]:
  "keeps (drawn e) (prv_get_digest_basic a)" "keeps (drawn e) (prv_get_digest_md5 j a)"
  unfolding prv_get_digest_basic_def prv_get_digest_md5_def by (intro keeps_rules)+

lemma drawn_chal_meta [keeps_rules]: "keeps (drawn e) (create_chal_meta t n)"
  unfolding create_chal_meta_def [abs_def] by (intro keeps_rules)

lemma drawn_get_credentials [keeps_rules]: "keeps (drawn e) (get_credentials j a)"
  unfolding get_credentials_def cred_of_def smlAllocCred_def [abs_def] by (intro keeps_rules)

lemma drawn_check_credentials [keeps_rules]: "keeps (drawn e) (check_credentials j c a)"
  unfolding check_credentials_def by (intro keeps_rules)

lemma drawn_get_challenge [keeps_rules]: "keeps (drawn e) (get_challenge n a)"
  unfolding get_challenge_def Let_def by (intro keeps_rules)

end
