(* ===== verification/Package0.thy ===== *)
theory Package0
  imports Credentials
begin

text \<open>
  The notification that starts a session, package 0 (\<^verbatim>\<open>dmcore/src/package0.c\<close>): its header and
  its authentication.  The host is little-endian, as \<^verbatim>\<open>be64toh\<close> and \<^verbatim>\<open>ntohs\<close> then both swap bytes.
\<close>

unbundle bit_operations_syntax

section \<open>The header\<close>

abbreviation (input) PRV_MD5_DIGEST_LEN :: nat where "PRV_MD5_DIGEST_LEN \<equiv> 16"
abbreviation (input) PRV_GNIS_ALERT_SIZE :: nat where "PRV_GNIS_ALERT_SIZE \<equiv> 24"
abbreviation (input) DMCLT_FLAG_UI_INFORM :: byte where "DMCLT_FLAG_UI_INFORM \<equiv> 0x04"
abbreviation (input) DMCLT_FLAG_UI_ACCEPT :: byte where "DMCLT_FLAG_UI_ACCEPT \<equiv> 0x08"

definition be64toh :: "byte list \<Rightarrow> 64 word" where
  "be64toh bs = foldl (\<lambda>w b. push_bit 8 w OR ucast b) 0 bs"

definition ntohs :: "16 word \<Rightarrow> 16 word" where
  "ntohs w = push_bit 8 (w AND 0xFF) OR drop_bit 8 w"

definition header_version :: "64 word \<Rightarrow> 16 word" where
  "header_version header = ucast (drop_bit 54 (header AND 0xFFC0000000000000))"

definition header_ui_mode :: "64 word \<Rightarrow> 16 word" where
  "header_ui_mode header = ucast (drop_bit 52 (header AND 0x0030000000000000))"

definition header_session_id :: "64 word \<Rightarrow> 16 word" where
  "header_session_id header = ucast (drop_bit 8 (header AND 0x0000000000FFFF00))"

definition header_length_id :: "64 word \<Rightarrow> 16 word" where
  "header_length_id header = ucast (drop_bit 0 (header AND 0x00000000000000FF))"

definition set_ui_flags :: "16 word \<Rightarrow> byte \<Rightarrow> byte" where
  "set_ui_flags field flags =
     (if field = 1 then flags AND NOT (DMCLT_FLAG_UI_INFORM OR DMCLT_FLAG_UI_ACCEPT)
      else if field = 2 then flags OR DMCLT_FLAG_UI_INFORM
      else if field = 3 then flags OR DMCLT_FLAG_UI_ACCEPT
      else flags)"

text \<open>
  The results are the server identifier (a C string, which ends at a zero byte of the package), the
  session identifier and the offset of the body.  The flags are changed even when a later check
  fails.  The test after the allocation looks at the wrong pointer, so a failed one is a write
  through a null pointer.
\<close>

definition decode_package_0 ::
  "byte list \<Rightarrow> byte option \<Rightarrow> 'z heap_scheme \<Rightarrow>
     ((string \<times> int \<times> nat) outcome \<times> byte option) \<times> 'z heap_scheme" where
  "decode_package_0 pkg0 flags h =
     (if PRV_GNIS_ALERT_SIZE > length pkg0 then ((Err OMADM_SYNCML_ERROR_INCOMPLETE_COMMAND, flags), h)
      else
        let header = be64toh (take 8 (drop PRV_MD5_DIGEST_LEN pkg0)) in
        if header_version header < 11 \<or> header_version header > 11
        then ((Err OMADM_SYNCML_ERROR_COMMAND_NOT_IMPLEMENTED, flags), h)
        else
          let flags = map_option (set_ui_flags (header_ui_mode header)) flags;
              sessionID = uint (ntohs (header_session_id header));
              field = unat (header_length_id header)
          in
          if field = 0 \<or> field + PRV_GNIS_ALERT_SIZE > length pkg0
          then ((Err OMADM_SYNCML_ERROR_INCOMPLETE_COMMAND, flags), h)
          else
            (case malloc () h of
               (None, h) \<Rightarrow> ((Ub, flags), h)
             | (Some _, h) \<Rightarrow>
                 ((Val (takeWhile (\<lambda>c. c \<noteq> CHR 0x00) (string_of (take field (drop PRV_GNIS_ALERT_SIZE pkg0))),
                        sessionID, field + PRV_GNIS_ALERT_SIZE), flags), h)))"

section \<open>Authentication\<close>

text \<open>
  One round of the loop: \<open>None\<close> is the jump to the end, otherwise whether the digests agree.
  \<open>encode_md5\<close> gives a copy that ends at the first zero byte of the digest, so the comparison of
  sixteen bytes can read past it.  \<open>fresh\<close> is the content of the block that \<open>buf_append_str\<close>
  allocates.
\<close>

definition digest_matches ::
  "byte list \<Rightarrow> (nat \<Rightarrow> byte list) \<Rightarrow> byte list \<Rightarrow> string \<Rightarrow> string \<Rightarrow> buffer_t field \<Rightarrow>
     ('z heap_scheme, bool option) cmd" where
  "digest_matches junk fresh pkg0 serv_pass trigger nonce =
     DMC_FAIL (lift (read_data nonce)) (\<lambda>nonce.
     DMC_FAIL (allocating (buf_cat_str_buf serv_pass nonce)) (\<lambda>data.
     if buffer data = None then ret None
     else
       DMC_FAIL (allocating (buf_append_str fresh data trigger)) (\<lambda>data.
       DMC_FAIL (allocating (encode_md5 junk (content data))) (\<lambda>H_key.
       case H_key of
         None \<Rightarrow> ret None
       | Some H_key \<Rightarrow>
           if length H_key + 1 < PRV_MD5_DIGEST_LEN then lift Ub
           else ret (Some (take PRV_MD5_DIGEST_LEN pkg0 = take PRV_MD5_DIGEST_LEN (H_key @ [0])))))))"

text \<open>
  What a first mismatch does: the nonce of the client credentials is freed, and the default nonce
  is put into the server credentials.
\<close>

definition freed :: "buffer_t field \<Rightarrow> buffer_t field" where
  "freed x = (case x of Is b \<Rightarrow> if buffer b = None then Is b else Indeterminate | Indeterminate \<Rightarrow> Indeterminate)"

definition reset_nonce :: "(('w, 'z) account_env_scheme, unit) cmd" where
  "reset_nonce s =
     (case account s of
        Some a \<Rightarrow>
          (case (toClientCred a, toServerCred a) of
             (Some cc, Some sc) \<Rightarrow>
               (case strdup ''0x00000000'' s of
                  (n, s) \<Rightarrow>
                    (Val (), s\<lparr>account := Some (a
                       \<lparr>toClientCred := Some (cc\<lparr>ad_data := freed (ad_data cc)\<rparr>),
                        toServerCred := Some (sc\<lparr>ad_data := Is
                          \<lparr>buffer = map_option (\<lambda>d. bytes_of (d @ [CHR 0x00])) n, len = 10\<rparr>\<rparr>)\<rparr>)\<rparr>))
           | _ \<Rightarrow> (Ub, s))
      | None \<Rightarrow> (Ub, s))"

text \<open>The loop runs at most twice: the second mismatch ends it.\<close>

definition client_cred :: "('w, 'z) account_env_scheme \<Rightarrow> authDesc_t option" where
  "client_cred s = (case account s of None \<Rightarrow> None | Some a \<Rightarrow> toClientCred a)"

definition client_nonce :: "('w, 'z) account_env_scheme \<Rightarrow> buffer_t field" where
  "client_nonce s = (case client_cred s of None \<Rightarrow> Indeterminate | Some c \<Rightarrow> ad_data c)"

definition validate_loop ::
  "byte list \<Rightarrow> (nat \<Rightarrow> byte list) \<Rightarrow> byte list \<Rightarrow> string \<Rightarrow> string \<Rightarrow>
     (('w, 'z) account_env_scheme, int) cmd" where
  "validate_loop junk fresh pkg0 serv_pass trigger s =
     DMC_FAIL (digest_matches junk fresh pkg0 serv_pass trigger (client_nonce s)) (\<lambda>m.
     case m of
       None \<Rightarrow> ret OMADM_SYNCML_ERROR_COMMAND_FAILED
     | Some True \<Rightarrow> ret OMADM_SYNCML_ERROR_NONE
     | Some False \<Rightarrow>
         DMC_FAIL reset_nonce (\<lambda>_ s.
         DMC_FAIL (digest_matches junk fresh pkg0 serv_pass trigger (client_nonce s)) (\<lambda>m.
         case m of
           None \<Rightarrow> ret OMADM_SYNCML_ERROR_IN_PROGRESS
         | Some True \<Rightarrow> ret OMADM_SYNCML_ERROR_NONE
         | Some False \<Rightarrow> ret OMADM_SYNCML_ERROR_INVALID_CREDENTIALS) s)) s"

definition validate_package_0 ::
  "byte list \<Rightarrow> (nat \<Rightarrow> byte list) \<Rightarrow> byte list \<Rightarrow> (('w, 'z) account_env_scheme, int) cmd" where
  "validate_package_0 junk fresh pkg0 s =
     (case client_cred s of
        None \<Rightarrow> (Ub, s)
      | Some cred \<Rightarrow>
          DMC_FAIL (lift (read_str (ad_name cred))) (\<lambda>name.
          DMC_FAIL (lift (read_str (ad_secret cred))) (\<lambda>secret.
          DMC_FAIL (allocating (str_cat_3 name PRV_COLUMN_STR secret)) (\<lambda>key.
          case key of
            None \<Rightarrow> ret OMADM_SYNCML_ERROR_COMMAND_FAILED
          | Some key \<Rightarrow>
              DMC_FAIL (allocating (encode_b64_md5_str junk key)) (\<lambda>serv_pass.
              case serv_pass of
                None \<Rightarrow> ret OMADM_SYNCML_ERROR_COMMAND_FAILED
              | Some serv_pass \<Rightarrow>
                  if length pkg0 < PRV_MD5_DIGEST_LEN then lift Ub
                  else
                    DMC_FAIL (allocating (encode_b64_md5 junk (drop PRV_MD5_DIGEST_LEN pkg0))) (\<lambda>trigger.
                    case trigger of
                      None \<Rightarrow> ret OMADM_SYNCML_ERROR_COMMAND_FAILED
                    | Some trigger \<Rightarrow> validate_loop junk fresh pkg0 serv_pass trigger))))) s)"

section \<open>What is decoded\<close>

lemma be64toh_bytes:
  "be64toh [b0, b1, b2, b3, b4, b5, b6, b7] =
     push_bit 56 (ucast b0) OR push_bit 48 (ucast b1) OR push_bit 40 (ucast b2) OR push_bit 32 (ucast b3) OR
     push_bit 24 (ucast b4) OR push_bit 16 (ucast b5) OR push_bit 8 (ucast b6) OR ucast b7"
  by (simp add: be64toh_def push_bit_or push_bit_push_bit or.assoc)

lemma byte_bit_False: "8 \<le> n \<Longrightarrow> \<not> bit (b :: byte) n"
  using bit_imp_le_length [of b n] by auto

lemma bit_word_out: "\<not> m < 64 \<Longrightarrow> \<not> bit (w :: 64 word) m"
  using bit_imp_le_length [of w m] by auto

lemma bit_be64toh:
  "bit (be64toh [b0, b1, b2, b3, b4, b5, b6, b7]) m \<longleftrightarrow> m < 64 \<and>
     (56 \<le> m \<and> bit b0 (m - 56) \<or> 48 \<le> m \<and> bit b1 (m - 48) \<or> 40 \<le> m \<and> bit b2 (m - 40) \<or>
      32 \<le> m \<and> bit b3 (m - 32) \<or> 24 \<le> m \<and> bit b4 (m - 24) \<or> 16 \<le> m \<and> bit b5 (m - 16) \<or>
      8 \<le> m \<and> bit b6 (m - 8) \<or> bit b7 m)"
  unfolding be64toh_bytes
  by (cases "m < 64") (simp_all add: bit_or_iff bit_push_bit_iff bit_unsigned_iff disj_assoc bit_word_out less_imp_diff_less)

lemma header_masks:
  "0xFFC0000000000000 = push_bit 54 (mask 10 :: 64 word)"
  "0x0030000000000000 = push_bit 52 (mask 2 :: 64 word)"
  "0x0000000000FFFF00 = push_bit 8 (mask 16 :: 64 word)"
  "0x00000000000000FF = push_bit 0 (mask 8 :: 64 word)"
  by (simp_all add: mask_eq_exp_minus_1 push_bit_eq_mult)

lemma bit_masked:
  fixes w :: "64 word"
  assumes "k + l \<le> 64"
  shows "bit (drop_bit k (w AND push_bit k (mask l))) n \<longleftrightarrow> n < l \<and> bit w (k + n)"
  using assms by (auto simp: bit_simps)

lemma header_bits:
  "bit (header_version w) n \<longleftrightarrow> n < 10 \<and> bit w (54 + n)"
  "bit (header_ui_mode w) n \<longleftrightarrow> n < 2 \<and> bit w (52 + n)"
  "bit (header_session_id w) n \<longleftrightarrow> n < 16 \<and> bit w (8 + n)"
  "bit (header_length_id w) n \<longleftrightarrow> n < 8 \<and> bit w n"
  unfolding header_version_def header_ui_mode_def header_session_id_def header_length_id_def header_masks
  using bit_masked [of 54 10] bit_masked [of 52 2] bit_masked [of 8 16] bit_masked [of 0 8]
  by (simp_all only: bit_unsigned_iff) auto

lemma header_of_bytes:
  "header_version (be64toh [b0, b1, b2, b3, b4, b5, b6, b7]) = push_bit 2 (ucast b0) OR ucast (drop_bit 6 b1)"
  "header_ui_mode (be64toh [b0, b1, b2, b3, b4, b5, b6, b7]) = ucast (drop_bit 4 b1 AND mask 2)"
  "header_session_id (be64toh [b0, b1, b2, b3, b4, b5, b6, b7]) = push_bit 8 (ucast b5) OR ucast b6"
  "header_length_id (be64toh [b0, b1, b2, b3, b4, b5, b6, b7]) = ucast b7"
  by (rule bit_word_eqI; auto simp: header_bits bit_be64toh bit_simps byte_bit_False dest: bit_imp_le_length)+

lemma byte_mask: "(0xFF :: 16 word) = mask 8"
  by (simp add: mask_eq_exp_minus_1)

lemma ntohs_bytes: "ntohs (push_bit 8 (ucast (a :: byte)) OR ucast (b :: byte)) = push_bit 8 (ucast b) OR ucast a"
  unfolding ntohs_def byte_mask
  by (rule bit_word_eqI; auto simp: bit_simps byte_bit_False dest: bit_imp_le_length)

text \<open>
  A package as the head comment of the file lays it out, with version 1.1: digest, header with the
  user interaction mode, the initiator, and the two bytes of the session identifier with the high one
  first, the identifier of the server and a body.
\<close>

definition gnis_alert ::
  "byte list \<Rightarrow> byte \<Rightarrow> byte \<Rightarrow> byte \<Rightarrow> byte \<Rightarrow> byte list \<Rightarrow> byte list \<Rightarrow> byte list" where
  "gnis_alert digest ui init hi lo server body =
     digest @ [2, 0xC0 OR push_bit 4 ui OR push_bit 3 init, 0, 0, 0, hi, lo, word_of_nat (length server)] @
     server @ body"

lemma gnis_version: "push_bit 2 (ucast (2 :: byte)) OR ucast (drop_bit 6 (0xC0 OR push_bit 4 ui OR push_bit 3 init)) =
    (11 :: 16 word)" if "ui < 4" "init < 2" for ui init :: byte
proof -
  have "ui \<in> {0, 1, 2, 3}" "init \<in> {0, 1}"
    using that by (auto simp: word_less_nat_alt unat_eq_0) (unat_arith+)
  then show ?thesis by auto
qed

lemma gnis_ui: "ucast (drop_bit 4 (0xC0 OR push_bit 4 ui OR push_bit 3 init) AND mask 2) = (ucast ui :: 16 word)"
  if "ui < 4" "init < 2" for ui init :: byte
proof -
  have "ui \<in> {0, 1, 2, 3}" "init \<in> {0, 1}"
    using that by (auto simp: word_less_nat_alt unat_eq_0) (unat_arith+)
  then show ?thesis by (auto simp: mask_eq_exp_minus_1)
qed

lemma decode_header:
  assumes "plenty h" and "length digest = 16"
  shows "decode_package_0 (digest @ [b0, b1, b2, b3, b4, b5, b6, b7] @ rest) flags h =
    (if push_bit 2 (ucast b0) OR ucast (drop_bit 6 b1) \<noteq> (11 :: 16 word)
     then ((Err OMADM_SYNCML_ERROR_COMMAND_NOT_IMPLEMENTED, flags), h)
     else
       let flags = map_option (set_ui_flags (ucast (drop_bit 4 b1 AND mask 2))) flags in
       if unat b7 = 0 \<or> unat b7 > length rest then ((Err OMADM_SYNCML_ERROR_INCOMPLETE_COMMAND, flags), h)
       else ((Val (takeWhile (\<lambda>c. c \<noteq> CHR 0x00) (string_of (take (unat b7) rest)),
                   uint (push_bit 8 (ucast b6) OR ucast b5 :: 16 word), unat b7 + 24), flags), h))"
proof -
  have d: "drop 16 (digest @ [b0, b1, b2, b3, b4, b5, b6, b7] @ rest) = [b0, b1, b2, b3, b4, b5, b6, b7] @ rest"
    "drop 24 (digest @ [b0, b1, b2, b3, b4, b5, b6, b7] @ rest) = rest"
    using assms(2) by simp_all
  have t: "take 8 ([b0, b1, b2, b3, b4, b5, b6, b7] @ rest) = [b0, b1, b2, b3, b4, b5, b6, b7]"
    by simp
  have "unat b7 < 2 ^ 16" using unsigned_less [of b7, where 'a = nat] by simp
  then have u: "unat (ucast b7 :: 16 word) = unat b7"
    by (simp add: unsigned_ucast_eq take_bit_nat_eq_self)
  have v: "v < 11 \<or> v > 11 \<longleftrightarrow> v \<noteq> 11" for v :: "16 word" by auto
  show ?thesis
    unfolding decode_package_0_def Let_def d t header_of_bytes ntohs_bytes u v
    using assms by auto
qed

text \<open>
  C34. A package laid out as the comment of the file describes is decoded into its server, the
  offset of its body and the flags of its mode; the two bytes of the session identifier come out
  swapped, because the header has been brought into the order of the host before \<^verbatim>\<open>ntohs\<close>.
\<close>

theorem decode_gnis_alert:
  assumes "plenty h" and "length digest = 16" and "ui < 4" and "init < 2"
    and "server \<noteq> []" and "length server < 256" and "0 \<notin> set server"
  shows "decode_package_0 (gnis_alert digest ui init hi lo server body) flags h =
    ((Val (string_of server, uint (push_bit 8 (ucast lo) OR ucast hi :: 16 word), length server + 24),
      map_option (set_ui_flags (ucast ui)) flags), h)"
proof -
  have n: "unat (word_of_nat (length server) :: byte) = length server"
    using assms(6) by (simp add: unat_of_nat)
  have z: "takeWhile (\<lambda>c. c \<noteq> CHR 0x00) (string_of server) = string_of server"
  proof (subst takeWhile_eq_all_conv, intro ballI)
    fix c assume "c \<in> set (string_of server)"
    then obtain b where b: "b \<in> set server" "c = char_of (unat b)" by (auto simp: string_of_def)
    have "unat b < 256" using unsigned_less [of b, where 'a = nat] by simp
    then have "(of_char c :: nat) = unat b" using b(2) by (simp add: of_char_of)
    moreover have "unat b \<noteq> 0" using assms(7) b(1) by (auto simp: unat_eq_0)
    ultimately show "c \<noteq> CHR 0x00" by auto
  qed
  show ?thesis
    unfolding gnis_alert_def decode_header [OF assms(1,2)] gnis_version [OF assms(3,4)] gnis_ui [OF assms(3,4)] n
    using assms(5) by (simp add: z Let_def)
qed

theorem decode_gnis_alert_witness:
  "decode_package_0 (gnis_alert (replicate 16 0) 2 1 0 5 [115, 114, 118] [9]) (Some 0) \<lparr>mem = []\<rparr> =
     ((Val (string_of [115, 114, 118], uint (push_bit 8 (ucast (5 :: byte)) OR ucast (0 :: byte) :: 16 word), 27), 
       Some (set_ui_flags 2 0)), \<lparr>mem = []\<rparr>)"
  using decode_gnis_alert [of "\<lparr>mem = []\<rparr>" "replicate 16 0" 2 1 "[115, 114, 118]" 0 5 "[9]" "Some 0"]
  by simp

text \<open>
  C35. Whatever the package, a decoded identifier lies within it, after the digest and the header,
  and the version of the package is 1.1.
\<close>

theorem decode_within_package:
  assumes "decode_package_0 pkg0 flags h = ((Val (server, session, body), flags'), h')"
  shows "24 < body \<and> body \<le> length pkg0 \<and> length server \<le> body - 24 \<and> 0 \<le> session \<and> session < 2 ^ 16 \<and>
    header_version (be64toh (take 8 (drop 16 pkg0))) = 11"
proof -
  have "length (takeWhile P (string_of (take n xs))) \<le> n" for P n xs
    by (rule order.trans [OF length_takeWhile_le]) (simp add: string_of_def)
  then show ?thesis
    using assms uint_lt2p [of "ntohs (header_session_id (be64toh (take 8 (drop 16 pkg0))))"]
    by (auto simp: decode_package_0_def Let_def split: if_splits option.splits prod.splits)
qed

theorem decode_within_package_witness:
  "24 < (27 :: nat) \<and> (27 :: nat) \<le> length (gnis_alert (replicate 16 0) 2 1 0 5 [115, 114, 118] [9])"
  using decode_within_package [of "gnis_alert (replicate 16 0) 2 1 0 5 [115, 114, 118] [9]" None "\<lparr>mem = []\<rparr>"
      "string_of [115, 114, 118]" _ 27 None "\<lparr>mem = []\<rparr>"]
    decode_header [of "\<lparr>mem = []\<rparr>" "replicate 16 0" 2 "0xE8" 0 0 0 0 5 3 "[115, 114, 118, 9]" None]
  by (auto simp: gnis_alert_def string_of_def Let_def of_char_of)

section \<open>What is authenticated\<close>

text \<open>
  What is hashed, for a trigger digest of 24 characters: the copy of \<open>buf_append_str\<close> goes over
  the 24 characters of the hash of the server and its secret, and the end of the block keeps what
  the allocation had there.
\<close>

definition hashed :: "(nat \<Rightarrow> byte list) \<Rightarrow> string \<Rightarrow> byte list \<Rightarrow> byte list" where
  "hashed fresh trigger nonce =
     bytes_of trigger @ bytes_of PRV_COLUMN_STR @ nonce @ bytes_of PRV_COLUMN_STR @
     drop (26 + length nonce) (fresh (50 + length nonce))"

definition round_value ::
  "byte list \<Rightarrow> (nat \<Rightarrow> byte list) \<Rightarrow> byte list \<Rightarrow> string \<Rightarrow> byte list \<Rightarrow> bool option outcome" where
  "round_value junk fresh pkg0 trigger nonce =
     (let H_key = takeWhile (\<lambda>b. b \<noteq> 0) (prv_compute_md5 junk (hashed fresh trigger nonce)) in
      if length H_key + 1 < 16 then Ub else Val (Some (take 16 pkg0 = take 16 (H_key @ [0]))))"

lemma append_overwrites_prefix:
  assumes "plenty h" and "length (fresh (50 + length nonce)) = 50 + length nonce"
    and "length sp = 24" and "length trigger = 24"
  shows "buf_append_str fresh
      \<lparr>buffer = Some (bytes_of sp @ bytes_of PRV_COLUMN_STR @ nonce), len = length sp + 1 + length nonce\<rparr> trigger h =
    (\<lparr>buffer = Some (hashed fresh trigger nonce), len = 50 + length nonce\<rparr>, h)"
proof -
  have c: "content \<lparr>buffer = Some (bytes_of sp @ bytes_of PRV_COLUMN_STR @ nonce),
      len = length sp + 1 + length nonce\<rparr> = bytes_of sp @ bytes_of PRV_COLUMN_STR @ nonce"
    by (simp add: content_def bytes_of_def)
  have n: "length trigger + 1 + (length sp + 1 + length nonce) = 50 + length nonce"
    using assms(3,4) by simp
  have b: "length (bytes_of PRV_COLUMN_STR) = 1" by simp
  show ?thesis
    unfolding buf_append_str_def Let_def buffer_t.select_convs c n hashed_def
    using assms by (simp add: write_at_def bytes_of_def)
qed

lemma length_hashed:
  "length (fresh (50 + length nonce)) = 50 + length nonce \<Longrightarrow> length trigger = 24 \<Longrightarrow>
     length (hashed fresh trigger nonce) = 50 + length nonce"
  by (simp add: hashed_def)

lemma digest_matches_eq:
  assumes "plenty h" and "\<And>n. length (fresh n) = n" and "length sp = 24" and "length trigger = 24"
    and "has_bytes b"
  shows "digest_matches junk fresh pkg0 sp trigger (Is b) h =
    (round_value junk fresh pkg0 trigger (content b), h)"
proof -
  have l: "len b = length (content b)" by (rule has_bytes_len [OF assms(5)])
  have c: "buf_cat_str_buf sp b h =
      (\<lparr>buffer = Some (bytes_of sp @ bytes_of PRV_COLUMN_STR @ content b), len = length sp + 1 + length (content b)\<rparr>, h)"
    using assms(1) l by (simp add: buf_cat_str_buf_def)
  have t: "content \<lparr>buffer = Some (hashed fresh trigger (content b)), len = 50 + length (content b)\<rparr> =
      hashed fresh trigger (content b)"
    using length_hashed [of fresh "content b" trigger] assms(2,4) by (simp add: content_def)
  show ?thesis
    using assms append_overwrites_prefix [of h fresh "content b" sp trigger]
    by (simp add: digest_matches_def cmd_defs c t encode_md5_def round_value_def Let_def)
qed

text \<open>The outcome of the loop, as it follows from the rounds.\<close>

definition loop_outcome :: "bool option outcome \<Rightarrow> accountDesc_t \<Rightarrow> buffer_t \<Rightarrow> int outcome" where
  "loop_outcome r a b =
     (case r of
        Val (Some True) \<Rightarrow> Val OMADM_SYNCML_ERROR_NONE
      | Val (Some False) \<Rightarrow>
          if toServerCred a = None \<or> buffer b \<noteq> None then Ub
          else Val OMADM_SYNCML_ERROR_INVALID_CREDENTIALS
      | Val None \<Rightarrow> Val OMADM_SYNCML_ERROR_COMMAND_FAILED
      | Err e \<Rightarrow> Err e
      | Ub \<Rightarrow> Ub)"

lemma validate_loop_outcome:
  assumes "plenty s" and "\<And>n. length (fresh n) = n" and "length sp = 24" and "length trigger = 24"
    and "account s = Some a" and "toClientCred a = Some c" and "ad_data c = Is b" and "has_bytes b"
  shows "fst (validate_loop junk fresh pkg0 sp trigger s) =
    loop_outcome (round_value junk fresh pkg0 trigger (content b)) a b"
proof -
  have n: "client_nonce s = Is b" using assms(5-7) by (simp add: client_nonce_def client_cred_def)
  note r = digest_matches_eq [OF assms(1-4) assms(8), of junk pkg0]
  show ?thesis
  proof (cases "round_value junk fresh pkg0 trigger (content b)")
    case (Val m)
    show ?thesis
    proof (cases m)
      case None
      with Val show ?thesis by (simp add: validate_loop_def n r cmd_defs loop_outcome_def)
    next
      case (Some v)
      show ?thesis
      proof (cases v)
        case True
        with Val Some show ?thesis by (simp add: validate_loop_def n r cmd_defs loop_outcome_def)
      next
        case False
        show ?thesis
        proof (cases "toServerCred a")
          case None
          with False Val Some show ?thesis
            using assms(5,6) by (simp add: validate_loop_def n r cmd_defs loop_outcome_def reset_nonce_def)
        next
          case (Some sc)
          then obtain u where rs: "reset_nonce s = (Val (), u)" and p: "plenty u"
            and cn: "client_nonce u = (if buffer b = None then Is b else Indeterminate)"
            using assms(1,5-7)
            by (simp add: reset_nonce_def client_nonce_def client_cred_def freed_def)
          have "validate_loop junk fresh pkg0 sp trigger s =
              DMC_FAIL (digest_matches junk fresh pkg0 sp trigger (client_nonce u)) (\<lambda>m.
                case m of
                  None \<Rightarrow> ret OMADM_SYNCML_ERROR_IN_PROGRESS
                | Some True \<Rightarrow> ret OMADM_SYNCML_ERROR_NONE
                | Some False \<Rightarrow> ret OMADM_SYNCML_ERROR_INVALID_CREDENTIALS) u"
            using rs Val \<open>m = Some v\<close> False by (simp add: validate_loop_def n r DMC_FAIL_def)
          then show ?thesis
            using digest_matches_eq [OF p assms(2-4) assms(8), of junk pkg0] Val \<open>m = Some v\<close> False Some
            by (simp add: cn loop_outcome_def digest_matches_def [of _ _ _ _ _ Indeterminate] cmd_defs)
        qed
      qed
    qed
  qed (simp_all add: validate_loop_def n r cmd_defs loop_outcome_def)
qed

definition trigger_hash :: "byte list \<Rightarrow> string" where
  "trigger_hash pkg0 = encode_loop (rfc1321 (drop 16 pkg0))"

lemma validate_outcome:
  assumes "plenty s" and "\<And>n. length (fresh n) = n" and "length junk = 64"
    and "16 \<le> length pkg0" and "length pkg0 < 2 ^ 28"
    and "account s = Some a" and "toClientCred a = Some c" and "fields c t name secret b"
    and "md5_sized name secret []"
  shows "fst (validate_package_0 junk fresh pkg0 s) =
    loop_outcome (round_value junk fresh pkg0 (trigger_hash pkg0) (content b)) a b"
proof -
  note f = assms(8) [unfolded fields_def]
  have sp: "encode_b64_md5_str junk (name @ PRV_COLUMN_STR @ secret) s = (Some (server_hash name secret), s)"
    using encode_b64_md5_plenty [OF assms(1,3) md5_inputs_ok(1) [OF assms(9)]]
    by (simp add: encode_b64_md5_str_def server_hash_def)
  have tr: "encode_b64_md5 junk (drop 16 pkg0) s = (Some (trigger_hash pkg0), s)"
    using encode_b64_md5_plenty [OF assms(1,3), of "drop 16 pkg0"] assms(5)
    by (simp add: trigger_hash_def md5_ok_len_def)
  have lt: "length (trigger_hash pkg0) = 24" by (simp add: trigger_hash_def length_encode_loop)
  have "validate_package_0 junk fresh pkg0 s =
      validate_loop junk fresh pkg0 (server_hash name secret) (trigger_hash pkg0) s"
    using f assms(1,4,6,7) sp tr by (simp add: validate_package_0_def client_cred_def cmd_defs)
  then show ?thesis
    using validate_loop_outcome [OF assms(1,2) length_server_hash lt assms(6,7)] f by simp
qed

text \<open>
  C39. The secret shared with the server does not enter the validation of a notification: with
  another name and another secret in the account, the answer to the same package is the same.
\<close>

theorem notification_ignores_secret:
  assumes "plenty s" and "\<forall>n. length (fresh n) = n" and "length junk = 64"
    and "16 \<le> length pkg0" and "length pkg0 < 2 ^ 28"
    and "account s = Some a" and "toClientCred a = Some c" and "fields c t name secret b"
    and "md5_sized name secret []" and "md5_sized name' secret' []"
  shows "fst (validate_package_0 junk fresh pkg0 (s\<lparr>account := Some (a\<lparr>toClientCred :=
      Some (c\<lparr>ad_name := Is (Some name'), ad_secret := Is (Some secret')\<rparr>)\<rparr>)\<rparr>)) =
    fst (validate_package_0 junk fresh pkg0 s)"
proof -
  have l: "length (fresh n) = n" for n using assms(2) by simp
  let ?c = "c\<lparr>ad_name := Is (Some name'), ad_secret := Is (Some secret')\<rparr>"
  let ?a = "a\<lparr>toClientCred := Some ?c\<rparr>"
  have "plenty (s\<lparr>account := Some ?a\<rparr>)" "account (s\<lparr>account := Some ?a\<rparr>) = Some ?a"
    "toClientCred ?a = Some ?c" "fields ?c t name' secret' b"
    using assms(1,8) by (simp_all add: fields_def)
  from validate_outcome [OF this(1) l assms(3-5) this(2-4) assms(10)]
  moreover have e: "toServerCred ?a = toServerCred a" by simp
  have "loop_outcome r ?a b = loop_outcome r a b" for r
    unfolding loop_outcome_def e by (rule refl)
  ultimately show ?thesis
    using validate_outcome [OF assms(1) l assms(3-9)] by simp
qed

text \<open>
  When the account holds a nonce, a notification is never refused in a defined way: after a
  mismatch the nonce is freed, the default nonce is put into the credentials of the other
  direction, and the second round hashes the freed nonce.
\<close>

theorem refused_notification_uses_freed_nonce:
  assumes "plenty s" and "\<forall>n. length (fresh n) = n" and "length junk = 64"
    and "16 \<le> length pkg0" and "length pkg0 < 2 ^ 28"
    and "account s = Some a" and "toClientCred a = Some c" and "fields c t name secret b"
    and "md5_sized name secret []" and "buffer b \<noteq> None"
  shows "fst (validate_package_0 junk fresh pkg0 s) =
    (if round_value junk fresh pkg0 (trigger_hash pkg0) (content b) = Val (Some True)
     then Val OMADM_SYNCML_ERROR_NONE else Ub)"
proof -
  have l: "length (fresh n) = n" for n using assms(2) by simp
  have "\<exists>x. round_value junk fresh pkg0 (trigger_hash pkg0) (content b) = Val (Some x) \<or>
      round_value junk fresh pkg0 (trigger_hash pkg0) (content b) = Ub"
    by (simp add: round_value_def Let_def)
  then show ?thesis
    using validate_outcome [OF assms(1) l assms(3-9)] assms(10) by (auto simp: loop_outcome_def)
qed

definition wake_env :: "nat account_env" where
  "wake_env = table_env account_nodes\<lparr>account := Some (account_zero\<lparr>
     toClientCred := Some (sample_auth DMCLT_AUTH_TYPE_DIGEST),
     toServerCred := Some (sample_auth DMCLT_AUTH_TYPE_DIGEST)\<rparr>)\<rparr>"

lemma wake_env_facts:
  "plenty wake_env" "account wake_env = Some (account_zero\<lparr>
     toClientCred := Some (sample_auth DMCLT_AUTH_TYPE_DIGEST),
     toServerCred := Some (sample_auth DMCLT_AUTH_TYPE_DIGEST)\<rparr>)"
  by (simp_all add: wake_env_def table_env_def)

theorem notification_ignores_secret_witness:
  "fst (validate_package_0 (replicate 64 0) (\<lambda>n. replicate n 0) (replicate 30 7) (wake_env\<lparr>account :=
      Some (account_zero\<lparr>
        toServerCred := Some (sample_auth DMCLT_AUTH_TYPE_DIGEST),
        toClientCred := Some (sample_auth DMCLT_AUTH_TYPE_DIGEST\<lparr>ad_name := Is (Some ''x''), ad_secret := Is (Some ''y'')\<rparr>)\<rparr>)\<rparr>)) =
   fst (validate_package_0 (replicate 64 0) (\<lambda>n. replicate n 0) (replicate 30 7) wake_env)"
  using notification_ignores_secret [where fresh = "\<lambda>n. replicate n 0" and junk = "replicate 64 0" and
      ?pkg0.0 = "replicate 30 7" and name' = "''x''" and secret' = "''y''",
      OF wake_env_facts(1) _ _ _ _ wake_env_facts(2) _ sample_fields(1) [of DMCLT_AUTH_TYPE_DIGEST]]
  by (simp add: md5_sized_def)

theorem refused_notification_uses_freed_nonce_witness:
  "fst (validate_package_0 (replicate 64 0) (\<lambda>n. replicate n 0) (replicate 30 7) wake_env) \<noteq>
     Val OMADM_SYNCML_ERROR_INVALID_CREDENTIALS"
  using refused_notification_uses_freed_nonce [where fresh = "\<lambda>n. replicate n 0" and
      junk = "replicate 64 0" and ?pkg0.0 = "replicate 30 7",
      OF wake_env_facts(1) _ _ _ _ wake_env_facts(2) _ sample_fields(1) [of DMCLT_AUTH_TYPE_DIGEST]]
  by (simp add: md5_sized_def)

end
