(* ===== verification/Elements.thy ===== *)
theory Elements
  imports Credentials
begin

text \<open>
  The elements of a SyncML message the library builds and reads (structures of \<^verbatim>\<open>smldtd.h\<close>,
  allocators of \<^verbatim>\<open>mgrutil.c\<close>), the session state \<^verbatim>\<open>internals_t\<close>, and the part of
  \<^verbatim>\<open>dmcore/src/utils.c\<close> that makes status elements and keeps the lists of elements that are to
  be sent and that await a status.
\<close>

section \<open>Elements\<close>

datatype SmlProtoElement_t =
  SML_PE_UNDEF | SML_PE_ERROR | SML_PE_ADD | SML_PE_ALERT | SML_PE_ATOMIC_START | SML_PE_ATOMIC_END
| SML_PE_COPY | SML_PE_DELETE | SML_PE_EXEC | SML_PE_GET | SML_PE_MAP | SML_PE_PUT | SML_PE_RESULTS
| SML_PE_SEARCH | SML_PE_SEQUENCE_START | SML_PE_SEQUENCE_END | SML_PE_STATUS | SML_PE_SYNC_START
| SML_PE_SYNC_END | SML_PE_REPLACE | SML_PE_HEADER | SML_PE_PUT_GET | SML_PE_CMD_GROUP
| SML_PE_GENERIC | SML_PE_FINAL | SML_PE_MOVE

fun proto_as_string :: "SmlProtoElement_t \<Rightarrow> string" where
  "proto_as_string SML_PE_ADD = ''Add''"
| "proto_as_string SML_PE_ALERT = ''Alert''"
| "proto_as_string SML_PE_ATOMIC_START = ''Atomic''"
| "proto_as_string SML_PE_COPY = ''Copy''"
| "proto_as_string SML_PE_DELETE = ''Delete''"
| "proto_as_string SML_PE_EXEC = ''Exec''"
| "proto_as_string SML_PE_PUT_GET = ''Get''"
| "proto_as_string SML_PE_GET = ''Get''"
| "proto_as_string SML_PE_MAP = ''Map''"
| "proto_as_string SML_PE_PUT = ''Put''"
| "proto_as_string SML_PE_RESULTS = ''Result''"
| "proto_as_string SML_PE_SEARCH = ''Search''"
| "proto_as_string SML_PE_SEQUENCE_START = ''Sequence''"
| "proto_as_string SML_PE_SEQUENCE_END = ''Sequence''"
| "proto_as_string SML_PE_CMD_GROUP = ''Sequence''"
| "proto_as_string SML_PE_STATUS = ''Status''"
| "proto_as_string SML_PE_SYNC_START = ''Sync''"
| "proto_as_string SML_PE_REPLACE = ''Replace''"
| "proto_as_string SML_PE_HEADER = ''SyncHdr''"
| "proto_as_string SML_PE_FINAL = ''Final''"
| "proto_as_string _ = ''''"

text \<open>
  A target or a source is a pointer to its \<^verbatim>\<open>locURI\<close>, which can be null too.  A cell of an item
  list can have a null item.  The value of a challenge is its meta information.
\<close>

record sml_item =
  it_target :: "pcdata option option"
  it_source :: "pcdata option option"
  it_meta :: "pcdata option"
  it_data :: "pcdata option"

definition item_zero :: sml_item where
  "item_zero = \<lparr>it_target = None, it_source = None, it_meta = None, it_data = None\<rparr>"

type_synonym sml_items = "sml_item option list"

record sml_status =
  st_cmdRef :: pcdata
  st_msgRef :: pcdata
  st_cmd :: pcdata
  st_data :: pcdata
  st_chal :: "pcdata option"
  st_targetRef :: "pcdata option"
  st_sourceRef :: "pcdata option"
  st_items :: sml_items

record sml_results =
  rs_cmdRef :: pcdata
  rs_msgRef :: "pcdata option"
  rs_items :: sml_items

record sml_alert =
  al_data :: "pcdata option"
  al_correlator :: "pcdata option"
  al_items :: sml_items

text \<open>The commands Add, Copy, Delete, Replace, Get and Exec; only the last has a correlator.\<close>

record sml_generic =
  gc_type :: SmlProtoElement_t
  gc_items :: sml_items
  gc_correlator :: "pcdata option"

datatype element_body =
  Status sml_status | Results sml_results | Alert sml_alert | Generic sml_generic

fun elementType :: "element_body \<Rightarrow> SmlProtoElement_t" where
  "elementType (Status _) = SML_PE_STATUS"
| "elementType (Results _) = SML_PE_RESULTS"
| "elementType (Alert _) = SML_PE_ALERT"
| "elementType (Generic g) = gc_type g"

record basicElement_t =
  el_cmdID :: "pcdata option"
  el_body :: element_body

text \<open>
  A cell of the lists.  The number of the message is not set when the cell is allocated, and is
  then \<open>None\<close>; it is kept in eight bits.
\<close>

record elemCell_t =
  element :: basicElement_t
  msg_id :: "8 word option"

section \<open>Allocators of the toolkit\<close>

text \<open>Each zeroes its structure and allocates the members in turn, freeing all when one fails.\<close>

fun blocks :: "nat \<Rightarrow> 'z heap_scheme \<Rightarrow> bool \<times> 'z heap_scheme" where
  "blocks 0 h = (True, h)"
| "blocks (Suc n) h = (case malloc () h of (None, h) \<Rightarrow> (False, h) | (Some _, h) \<Rightarrow> blocks n h)"

definition alloc :: "nat \<Rightarrow> 'a \<Rightarrow> 'z heap_scheme \<Rightarrow> 'a option \<times> 'z heap_scheme" where
  "alloc n a h = (case blocks n h of (ok, h) \<Rightarrow> (if ok then Some a else None, h))"

definition pc_empty :: pcdata where
  "pc_empty = Pc_Other 0 None"

definition smlAllocPcdata :: "'z heap_scheme \<Rightarrow> pcdata option \<times> 'z heap_scheme" where
  "smlAllocPcdata = alloc 1 pc_empty"

definition smlAllocItem :: "'z heap_scheme \<Rightarrow> sml_item option \<times> 'z heap_scheme" where
  "smlAllocItem = alloc 1 item_zero"

definition smlAllocItemList :: "'z heap_scheme \<Rightarrow> sml_item option \<times> 'z heap_scheme" where
  "smlAllocItemList = alloc 2 item_zero"

definition smlAllocSource :: "'z heap_scheme \<Rightarrow> pcdata option \<times> 'z heap_scheme" where
  "smlAllocSource = alloc 2 pc_empty"

definition smlAllocTarget :: "'z heap_scheme \<Rightarrow> pcdata option \<times> 'z heap_scheme" where
  "smlAllocTarget = smlAllocSource"

definition smlAllocTargetRefList :: "'z heap_scheme \<Rightarrow> pcdata option \<times> 'z heap_scheme" where
  "smlAllocTargetRefList = alloc 2 pc_empty"

definition smlAllocSourceRefList :: "'z heap_scheme \<Rightarrow> pcdata option \<times> 'z heap_scheme" where
  "smlAllocSourceRefList = alloc 2 pc_empty"

definition smlAllocStatus :: "'z heap_scheme \<Rightarrow> sml_status option \<times> 'z heap_scheme" where
  "smlAllocStatus = alloc 6 \<lparr>st_cmdRef = pc_empty, st_msgRef = pc_empty, st_cmd = pc_empty,
     st_data = pc_empty, st_chal = None, st_targetRef = None, st_sourceRef = None, st_items = []\<rparr>"

definition smlAllocResults :: "'z heap_scheme \<Rightarrow> sml_results option \<times> 'z heap_scheme" where
  "smlAllocResults = alloc 5 \<lparr>rs_cmdRef = pc_empty, rs_msgRef = None, rs_items = [Some item_zero]\<rparr>"

definition smlAllocAlert :: "'z heap_scheme \<Rightarrow> sml_alert option \<times> 'z heap_scheme" where
  "smlAllocAlert = alloc 4 \<lparr>al_data = None, al_correlator = None, al_items = [Some item_zero]\<rparr>"

definition smlAllocReplace :: "'z heap_scheme \<Rightarrow> sml_generic option \<times> 'z heap_scheme" where
  "smlAllocReplace = alloc 4 \<lparr>gc_type = SML_PE_REPLACE, gc_items = [Some item_zero], gc_correlator = None\<rparr>"

lemma blocks_plenty [simp]: "plenty h \<Longrightarrow> blocks n h = (True, h)"
  by (induction n) auto

lemma alloc_plenty [simp]: "plenty h \<Longrightarrow> alloc n a h = (Some a, h)"
  by (simp add: alloc_def)

lemma drawn_blocks [keeps_rules]: "keeps (drawn e) (blocks n)"
proof (rule keepsI)
  fix s assume "drawn e s"
  then show "drawn e (snd (blocks n s))"
    by (induction n arbitrary: s) (auto split: option.split prod.split intro: drawn_mallocD)
qed

lemma drawn_alloc: "keeps (drawn e) (alloc n a)"
  unfolding alloc_def [abs_def] by (intro keeps_rules)

lemma drawn_allocators [keeps_rules]:
  "keeps (drawn e) smlAllocPcdata" "keeps (drawn e) smlAllocItem" "keeps (drawn e) smlAllocItemList"
  "keeps (drawn e) smlAllocSource" "keeps (drawn e) smlAllocTarget" "keeps (drawn e) smlAllocTargetRefList"
  "keeps (drawn e) smlAllocSourceRefList" "keeps (drawn e) smlAllocStatus" "keeps (drawn e) smlAllocResults"
  "keeps (drawn e) smlAllocAlert" "keeps (drawn e) smlAllocReplace"
  unfolding smlAllocPcdata_def smlAllocItem_def smlAllocItemList_def smlAllocSource_def smlAllocTarget_def
    smlAllocTargetRefList_def smlAllocSourceRefList_def smlAllocStatus_def smlAllocResults_def
    smlAllocAlert_def smlAllocReplace_def by (rule drawn_alloc)+

end
