(* ===== verification/Ui_Alert.thy ===== *)
theory Ui_Alert
  imports Elements
begin

text \<open>
  The user interaction alerts: \<^verbatim>\<open>dmclt_ui_t\<close> of \<^verbatim>\<open>dmcore/include/omadmclient.h\<close> and its
  construction from an alert in \<^verbatim>\<open>dmcore/src/utils.c\<close>.
\<close>

datatype dmclt_ui_type_t =
  DMCLT_UI_TYPE_UNDEFINED | DMCLT_UI_TYPE_DISPLAY | DMCLT_UI_TYPE_CONFIRM | DMCLT_UI_TYPE_USER_INPUT
| DMCLT_UI_TYPE_USER_CHOICE | DMCLT_UI_TYPE_USER_MULTICHOICE

datatype dmclt_ui_input_t =
  DMCLT_UI_INPUT_UNDEFINED | DMCLT_UI_INPUT_ALPHA | DMCLT_UI_INPUT_NUM | DMCLT_UI_INPUT_DATE
| DMCLT_UI_INPUT_TIME | DMCLT_UI_INPUT_PHONE | DMCLT_UI_INPUT_IP

datatype dmclt_ui_echo_t = DMCLT_UI_ECHO_UNDEFINED | DMCLT_UI_ECHO_TEXT | DMCLT_UI_ECHO_PASSWD

text \<open>
  The choices are the entries of the array before its terminator; \<open>terminated\<close> says that the
  terminator was written.  An entry is null when its value could not be copied.
\<close>

record dmclt_ui_t =
  ui_type :: dmclt_ui_type_t
  min_disp :: "32 word"
  max_disp :: "32 word"
  max_resp_len :: "32 word"
  input_type :: dmclt_ui_input_t
  echo_type :: dmclt_ui_echo_t
  disp_msg :: "string option"
  dflt_resp :: "string option"
  choices :: "string option list option"
  terminated :: bool

definition ui_zero :: dmclt_ui_t where
  "ui_zero = \<lparr>ui_type = DMCLT_UI_TYPE_UNDEFINED, min_disp = 0, max_disp = 0, max_resp_len = 0,
     input_type = DMCLT_UI_INPUT_UNDEFINED, echo_type = DMCLT_UI_ECHO_UNDEFINED, disp_msg = None,
     dflt_resp = None, choices = None, terminated = False\<rparr>"

section \<open>Options\<close>

definition prv_find_value ::
  "string \<Rightarrow> string \<Rightarrow> 'z heap_scheme \<Rightarrow> string option \<times> 'z heap_scheme" where
  "prv_find_value str option_name h =
     (if length option_name \<ge> length str then (None, h)
      else case strstr str option_name of
        None \<Rightarrow> (None, h)
      | Some index \<Rightarrow>
          (case strdup (drop (length option_name) index) h of
             (None, h) \<Rightarrow> (None, h)
           | (Some v, h) \<Rightarrow> (Some (case strstr v ''&'' of None \<Rightarrow> v | Some e \<Rightarrow> before v e), h)))"

text \<open>One option: its value, when there is one, changes the alert by \<open>f\<close>.\<close>

definition with_option ::
  "string \<Rightarrow> string \<Rightarrow> (string \<Rightarrow> dmclt_ui_t \<Rightarrow> ('z heap_scheme, dmclt_ui_t) cmd) \<Rightarrow>
     dmclt_ui_t \<Rightarrow> ('z heap_scheme, dmclt_ui_t) cmd" where
  "with_option optStr option_name f alertP =
     DMC_FAIL (allocating (prv_find_value optStr option_name)) (\<lambda>v.
     case v of None \<Rightarrow> ret alertP | Some v \<Rightarrow> f v alertP)"

definition scan_into ::
  "(32 word \<Rightarrow> dmclt_ui_t \<Rightarrow> dmclt_ui_t) \<Rightarrow> string \<Rightarrow> dmclt_ui_t \<Rightarrow> ('s, dmclt_ui_t) cmd" where
  "scan_into put v alertP =
     DMC_FAIL (lift (scan_int v)) (\<lambda>r.
     ret (case r of None \<Rightarrow> alertP | Some i \<Rightarrow> put (word_of_int i) alertP))"

definition input_of :: "string \<Rightarrow> dmclt_ui_input_t \<Rightarrow> dmclt_ui_input_t" where
  "input_of v old =
     (if v = ''A'' then DMCLT_UI_INPUT_ALPHA
      else if v = ''N'' then DMCLT_UI_INPUT_NUM
      else if v = ''D'' then DMCLT_UI_INPUT_DATE
      else if v = ''T'' then DMCLT_UI_INPUT_TIME
      else if v = ''P'' then DMCLT_UI_INPUT_PHONE
      else if v = ''I'' then DMCLT_UI_INPUT_IP
      else old)"

definition echo_of :: "string \<Rightarrow> dmclt_ui_echo_t \<Rightarrow> dmclt_ui_echo_t" where
  "echo_of v old =
     (if v = ''T'' then DMCLT_UI_ECHO_TEXT else if v = ''P'' then DMCLT_UI_ECHO_PASSWD else old)"

definition prv_fill_alert_options ::
  "dmclt_ui_t \<Rightarrow> string \<Rightarrow> ('z heap_scheme, dmclt_ui_t) cmd" where
  "prv_fill_alert_options alertP optStr =
     DMC_FAIL (with_option optStr ''MINDT='' (scan_into (\<lambda>i a. a\<lparr>min_disp := i\<rparr>)) alertP) (\<lambda>alertP.
     DMC_FAIL (with_option optStr ''MAXDT='' (scan_into (\<lambda>i a. a\<lparr>max_disp := i\<rparr>)) alertP) (\<lambda>alertP.
     DMC_FAIL (with_option optStr ''DR='' (\<lambda>v a. ret (a\<lparr>dflt_resp := Some v\<rparr>)) alertP) (\<lambda>alertP.
     DMC_FAIL (with_option optStr ''MAXLEN='' (scan_into (\<lambda>i a. a\<lparr>max_resp_len := i\<rparr>)) alertP) (\<lambda>alertP.
     DMC_FAIL (with_option optStr ''IT='' (\<lambda>v a. ret (a\<lparr>input_type := input_of v (input_type a)\<rparr>)) alertP) (\<lambda>alertP.
     with_option optStr ''ET='' (\<lambda>v a. ret (a\<lparr>echo_type := echo_of v (echo_type a)\<rparr>)) alertP)))))"

section \<open>Choices\<close>

text \<open>The loop over the items; the flag says that it reached the end of the list.\<close>

fun choice_loop :: "sml_items \<Rightarrow> ('z heap_scheme, string option list \<times> bool) cmd" where
  "choice_loop [] = ret ([], True)"
| "choice_loop (None # next) = ret ([], False)"
| "choice_loop (Some it # next) =
     DMC_FAIL (smlPcdata2String (it_data it)) (\<lambda>c.
     DMC_FAIL (choice_loop next) (\<lambda>(cs, ok). ret (c # cs, ok)))"

definition prv_get_alert_choices ::
  "dmclt_ui_t \<Rightarrow> sml_items \<Rightarrow> ('z heap_scheme, dmclt_ui_t) cmd" where
  "prv_get_alert_choices alertP itemCell =
     (if itemCell = [] then ret alertP
      else
        DMC_FAIL (allocating (malloc ())) (\<lambda>a.
        case a of
          None \<Rightarrow> ret (alertP\<lparr>ui_type := DMCLT_UI_TYPE_UNDEFINED\<rparr>)
        | Some _ \<Rightarrow>
            DMC_FAIL (choice_loop itemCell) (\<lambda>(cs, ok).
            let alertP = alertP\<lparr>choices := Some cs, terminated := ok\<rparr> in
            ret (if ok then alertP else alertP\<lparr>ui_type := DMCLT_UI_TYPE_UNDEFINED\<rparr>))))"

text \<open>Freeing walks the choices up to the first null entry, which a full, unterminated array lacks.\<close>

definition free_dmclt_alert :: "dmclt_ui_t \<Rightarrow> unit outcome" where
  "free_dmclt_alert alertP =
     (case choices alertP of
        None \<Rightarrow> Val ()
      | Some cs \<Rightarrow> if terminated alertP \<or> None \<in> set cs then Val () else Ub)"

section \<open>The alert\<close>

text \<open>
  The part of \<open>get_ui_from_sml\<close> from the second copy of a string on: \<open>type_of_alert\<close> is the
  chain of comparisons, with the items after the message.
\<close>

definition default_len :: "dmclt_ui_t \<Rightarrow> dmclt_ui_t" where
  "default_len a = (if max_resp_len a = 0 then a\<lparr>max_resp_len := 255\<rparr> else a)"

definition type_of_alert ::
  "string \<Rightarrow> sml_items \<Rightarrow> dmclt_ui_t \<Rightarrow> ('z heap_scheme, dmclt_ui_t) cmd" where
  "type_of_alert dataStr itemCell alertP =
     (if dataStr = ''1100'' then ret (alertP\<lparr>ui_type := DMCLT_UI_TYPE_DISPLAY\<rparr>)
      else if dataStr = ''1101'' then ret (alertP\<lparr>ui_type := DMCLT_UI_TYPE_CONFIRM\<rparr>)
      else if dataStr = ''1102'' then ret (default_len (alertP\<lparr>ui_type := DMCLT_UI_TYPE_USER_INPUT\<rparr>))
      else if dataStr = ''1103'' then
        DMC_FAIL (prv_get_alert_choices (alertP\<lparr>ui_type := DMCLT_UI_TYPE_USER_CHOICE\<rparr>) itemCell)
          (\<lambda>a. ret (default_len a))
      else if dataStr = ''1104'' then
        DMC_FAIL (prv_get_alert_choices (alertP\<lparr>ui_type := DMCLT_UI_TYPE_USER_MULTICHOICE\<rparr>) itemCell)
          (\<lambda>a. ret (default_len a))
      else ret alertP)"

definition finish_ui :: "dmclt_ui_t \<Rightarrow> ('s, dmclt_ui_t option) cmd" where
  "finish_ui alertP =
     (if ui_type alertP = DMCLT_UI_TYPE_UNDEFINED
      then DMC_FAIL (lift (free_dmclt_alert alertP)) (\<lambda>_. ret None)
      else ret (Some alertP))"

text \<open>
  The string of the options is freed before the second item is looked at, but the pointer keeps its
  value: when the second item is missing, the label frees it again.  Options that cannot be copied
  are searched through a null pointer.
\<close>

definition get_ui_from_sml :: "sml_alert option \<Rightarrow> ('z heap_scheme, dmclt_ui_t option) cmd" where
  "get_ui_from_sml smlAlertP =
     (case smlAlertP of
        None \<Rightarrow> ret None
      | Some smlAlertP \<Rightarrow>
          if al_data smlAlertP = None then ret None
          else
            DMC_FAIL (allocating (malloc ui_zero)) (\<lambda>alertP.
            case alertP of
              None \<Rightarrow> ret None
            | Some alertP \<Rightarrow>
                (case al_items smlAlertP of
                   [] \<Rightarrow> finish_ui alertP
                 | None # _ \<Rightarrow> finish_ui alertP
                 | Some it # itemCell \<Rightarrow>
                     DMC_FAIL (smlPcdata2String (it_data it)) (\<lambda>dataStr.
                     case dataStr of
                       None \<Rightarrow> lift Ub
                     | Some dataStr \<Rightarrow>
                         DMC_FAIL (prv_fill_alert_options alertP dataStr) (\<lambda>alertP.
                         case itemCell of
                           [] \<Rightarrow> lift Ub
                         | None # _ \<Rightarrow> lift Ub
                         | Some msg # itemCell \<Rightarrow>
                             DMC_FAIL (smlPcdata2String (it_data msg)) (\<lambda>m.
                             DMC_FAIL (smlPcdata2String (al_data smlAlertP)) (\<lambda>dataStr.
                             case dataStr of
                               None \<Rightarrow> finish_ui (alertP\<lparr>disp_msg := m\<rparr>)
                             | Some dataStr \<Rightarrow>
                                 DMC_FAIL (type_of_alert dataStr itemCell (alertP\<lparr>disp_msg := m\<rparr>)) finish_ui)))))))"

section \<open>What is built\<close>

lemma no_err:
  "smlPcdata2String p h \<noteq> (Err e, h')" "scan_int v \<noteq> Err e"
  by (auto simp: smlPcdata2String_def copy_bytes_def scan_int_def Let_def
      split: option.splits pcdata.splits prod.splits if_splits)

lemma with_option_no_err:
  "(\<And>v a h h'. f v a h \<noteq> (Err e, h')) \<Longrightarrow> with_option s n f a h \<noteq> (Err e, h')"
  by (auto simp: with_option_def cmd_defs split: prod.splits option.splits)

lemma scan_into_no_err: "scan_into put v a h \<noteq> (Err e, h')"
  by (auto simp: scan_into_def cmd_defs no_err split: outcome.splits)

lemma DMC_FAIL_no_err:
  "(\<And>h h'. m h \<noteq> (Err e, h')) \<Longrightarrow> (\<And>a h h'. k a h \<noteq> (Err e, h')) \<Longrightarrow> DMC_FAIL m k h \<noteq> (Err e, h')"
  by (auto simp: DMC_FAIL_def split: prod.splits outcome.splits)

lemma ret_no_err: "ret a h \<noteq> (Err e, h')"
  by (simp add: cmd_defs)

lemma fill_options_no_err: "prv_fill_alert_options a s h \<noteq> (Err e, h')"
  unfolding prv_fill_alert_options_def
  by (intro DMC_FAIL_no_err with_option_no_err scan_into_no_err ret_no_err)

text \<open>
  An alert that has only the item with the options makes the library free the options twice.
\<close>

theorem single_item_alert_double_free:
  assumes "plenty h" and "al_data a \<noteq> None" and "al_items a = [Some it]"
  shows "fst (get_ui_from_sml (Some a) h) = Ub"
  using assms
  by (auto simp: no_err fill_options_no_err get_ui_from_sml_def cmd_defs split: prod.splits outcome.splits option.splits)

definition pc_text :: "string \<Rightarrow> pcdata" where
  "pc_text s = Pc_String (length s) (Some s)"

definition text_item :: "string \<Rightarrow> sml_item option" where
  "text_item s = Some (item_zero\<lparr>it_data := Some (pc_text s)\<rparr>)"

lemma pc_text_read:
  "plenty h \<Longrightarrow> CHR 0x00 \<notin> set s \<Longrightarrow> smlPcdata2String (Some (pc_text s)) h = (Val (Some s), h)"
  unfolding pc_text_def by (rule smlPcdata2String_plenty)

lemma choice_loop_texts:
  "plenty h \<Longrightarrow> \<forall>s \<in> set cs. CHR 0x00 \<notin> set s \<Longrightarrow>
     choice_loop (map text_item cs) h = (Val (map Some cs, True), h)"
  by (induction cs) (auto simp: text_item_def cmd_defs pc_text_read)

text \<open>The type an alert code stands for.\<close>

definition ui_code :: "string \<Rightarrow> dmclt_ui_type_t" where
  "ui_code c =
     (if c = ''1100'' then DMCLT_UI_TYPE_DISPLAY
      else if c = ''1101'' then DMCLT_UI_TYPE_CONFIRM
      else if c = ''1102'' then DMCLT_UI_TYPE_USER_INPUT
      else if c = ''1103'' then DMCLT_UI_TYPE_USER_CHOICE
      else if c = ''1104'' then DMCLT_UI_TYPE_USER_MULTICHOICE
      else DMCLT_UI_TYPE_UNDEFINED)"

definition is_choice :: "dmclt_ui_type_t \<Rightarrow> bool" where
  "is_choice t \<longleftrightarrow> t = DMCLT_UI_TYPE_USER_CHOICE \<or> t = DMCLT_UI_TYPE_USER_MULTICHOICE"

definition has_input :: "dmclt_ui_type_t \<Rightarrow> bool" where
  "has_input t \<longleftrightarrow> t = DMCLT_UI_TYPE_USER_INPUT \<or> is_choice t"

definition built_ui :: "dmclt_ui_type_t \<Rightarrow> string \<Rightarrow> string list \<Rightarrow> dmclt_ui_t \<Rightarrow> dmclt_ui_t" where
  "built_ui t msg cs u =
     u\<lparr>ui_type := t, disp_msg := Some msg,
       max_resp_len := (if has_input t \<and> max_resp_len u = 0 then 255 else max_resp_len u),
       choices := (if is_choice t \<and> cs \<noteq> [] then Some (map Some cs) else None),
       terminated := (is_choice t \<and> cs \<noteq> [])\<rparr>"

text \<open>
  The value of an option: what follows the first place where its name stands, up to the next
  ampersand.  \<open>asked\<close> is the request a string of options asks for when the values of its numbers are
  the decimal numerals of \<open>mindt\<close>, \<open>maxdt\<close> and \<open>maxlen\<close>, none for an option that is not there.
\<close>

definition option_value :: "string \<Rightarrow> string \<Rightarrow> string option" where
  "option_value opts name =
     (if length opts \<le> length name then None
      else map_option (\<lambda>r. takeWhile (\<lambda>c. c \<noteq> CHR ''&'') (drop (length name) r)) (strstr opts name))"

definition numeral_option :: "string \<Rightarrow> string \<Rightarrow> 32 word option \<Rightarrow> bool" where
  "numeral_option opts name n \<longleftrightarrow> option_value opts name = map_option print_int n"

definition or_zero :: "32 word option \<Rightarrow> 32 word" where
  "or_zero n = (case n of None \<Rightarrow> 0 | Some i \<Rightarrow> i)"

definition asked :: "string \<Rightarrow> 32 word option \<Rightarrow> 32 word option \<Rightarrow> 32 word option \<Rightarrow> dmclt_ui_t" where
  "asked opts mindt maxdt maxlen = ui_zero\<lparr>
     min_disp := or_zero mindt, max_disp := or_zero maxdt, dflt_resp := option_value opts ''DR='',
     max_resp_len := or_zero maxlen,
     input_type := (case option_value opts ''IT='' of None \<Rightarrow> DMCLT_UI_INPUT_UNDEFINED
                    | Some v \<Rightarrow> input_of v DMCLT_UI_INPUT_UNDEFINED),
     echo_type := (case option_value opts ''ET='' of None \<Rightarrow> DMCLT_UI_ECHO_UNDEFINED
                    | Some v \<Rightarrow> echo_of v DMCLT_UI_ECHO_UNDEFINED)\<rparr>"

lemma before_amp:
  "(case strstr r ''&'' of None \<Rightarrow> r | Some e \<Rightarrow> before r e) = takeWhile (\<lambda>c. c \<noteq> CHR ''&'') r"
  using arg_cong [OF cut_at_amp [where rest = r and a = "[]" and f = "\<lambda>_. []"], of fst]
  by (cases "strstr r ''&''") simp_all

lemma find_value_plenty: "plenty h \<Longrightarrow> prv_find_value opts name h = (option_value opts name, h)"
  by (cases "strstr opts name") (simp_all add: prv_find_value_def option_value_def before_amp)

lemma with_option_plenty:
  "plenty h \<Longrightarrow> with_option opts name f a h =
     (case option_value opts name of None \<Rightarrow> (Val a, h) | Some v \<Rightarrow> f v a h)"
  by (simp add: with_option_def cmd_defs find_value_plenty split: option.split)

lemma with_numeral:
  assumes "plenty h" and "numeral_option opts name n"
  shows "with_option opts name (scan_into put) a h = (Val (case n of None \<Rightarrow> a | Some i \<Rightarrow> put i a), h)"
  using assms
  by (cases n) (simp_all add: with_option_plenty numeral_option_def scan_into_def scan_print_int cmd_defs)

lemma with_text:
  "plenty h \<Longrightarrow> with_option opts name (\<lambda>v a. ret (g v a)) a h =
     (Val (case option_value opts name of None \<Rightarrow> a | Some v \<Rightarrow> g v a), h)"
  by (simp add: with_option_plenty cmd_defs split: option.split)

lemma fill_options_plenty:
  assumes "plenty h" and "numeral_option opts ''MINDT='' mindt" and "numeral_option opts ''MAXDT='' maxdt"
    and "numeral_option opts ''MAXLEN='' maxlen"
  shows "prv_fill_alert_options ui_zero opts h = (Val (asked opts mindt maxdt maxlen), h)"
  unfolding prv_fill_alert_options_def DMC_FAIL_def
  by (simp add: with_numeral [OF assms(1,2)] with_numeral [OF assms(1,3)] with_numeral [OF assms(1,4)]
      with_text [OF assms(1)])
    (simp add: asked_def ui_zero_def or_zero_def split: option.split)

text \<open>
  C36. While no allocation fails: an alert with a string of options, a message and choices, whose options
  MINDT, MAXDT and MAXLEN are absent or decimal numerals, becomes a request of the type its code names,
  with the message, the choices in order when the type is a choice, the display times, default answer,
  input and echo type of the options, and the length MAXLEN for the answer, or 255 when an answer is
  expected and no length is asked for; an unknown code gives no request.
\<close>

theorem ui_from_alert:
  assumes "plenty h" and "\<forall>s \<in> set (code # opts # msg # cs). CHR 0x00 \<notin> set s"
    and "numeral_option opts ''MINDT='' mindt" and "numeral_option opts ''MAXDT='' maxdt"
    and "numeral_option opts ''MAXLEN='' maxlen"
  shows "get_ui_from_sml (Some \<lparr>al_data = Some (pc_text code), al_correlator = cor,
      al_items = map text_item (opts # msg # cs)\<rparr>) h =
    (Val (if ui_code code = DMCLT_UI_TYPE_UNDEFINED then None
          else Some (built_ui (ui_code code) msg cs (asked opts mindt maxdt maxlen))), h)"
proof -
  let ?u = "asked opts mindt maxdt maxlen"
  have u: "choices ?u = None" "\<not> terminated ?u" "ui_type ?u = DMCLT_UI_TYPE_UNDEFINED"
    by (simp_all add: asked_def ui_zero_def)
  have r: "smlPcdata2String (Some (pc_text s)) h = (Val (Some s), h)" if "s \<in> set (code # opts # msg # cs)" for s
    using pc_text_read assms(1,2) that by blast
  have g: "get_ui_from_sml (Some \<lparr>al_data = Some (pc_text code), al_correlator = cor,
      al_items = map text_item (opts # msg # cs)\<rparr>) h =
    DMC_FAIL (type_of_alert code (map text_item cs) (?u\<lparr>disp_msg := Some msg\<rparr>)) finish_ui h"
    using assms(1) fill_options_plenty [OF assms(1,3-5)] r by (simp add: get_ui_from_sml_def text_item_def cmd_defs)
  have c: "choice_loop (map text_item cs) h = (Val (map Some cs, True), h)"
    by (rule choice_loop_texts [OF assms(1)]) (use assms(2) in simp)
  have p: "prv_get_alert_choices a (map text_item cs) h =
      (Val (if cs = [] then a else a\<lparr>choices := Some (map Some cs), terminated := True\<rparr>), h)" for a
    using c assms(1) by (simp add: prv_get_alert_choices_def cmd_defs Let_def)
  have z: "?u\<lparr>choices := None, terminated := False\<rparr> = ?u"
    using u by simp
  show ?thesis
    unfolding g type_of_alert_def
    using u z
    by (simp add: cmd_defs p finish_ui_def default_len_def built_ui_def ui_code_def is_choice_def
        has_input_def free_dmclt_alert_def)
qed

theorem ui_from_alert_witness:
  "get_ui_from_sml (Some \<lparr>al_data = Some (pc_text ''1103''), al_correlator = None,
      al_items = map text_item [''MINDT=5&MAXLEN=2&IT=N'', ''Pick'', ''a'', ''b'']\<rparr>) \<lparr>mem = []\<rparr> =
    (Val (Some (ui_zero\<lparr>ui_type := DMCLT_UI_TYPE_USER_CHOICE, min_disp := 5, max_resp_len := 2,
       input_type := DMCLT_UI_INPUT_NUM, disp_msg := Some ''Pick'', choices := Some [Some ''a'', Some ''b''],
       terminated := True\<rparr>)), \<lparr>mem = []\<rparr>)"
proof -
  let ?o = "''MINDT=5&MAXLEN=2&IT=N''"
  have n: "numeral_option ?o ''MINDT='' (Some 5)" "numeral_option ?o ''MAXDT='' None"
    "numeral_option ?o ''MAXLEN='' (Some 2)" by code_simp+
  have v: "option_value ?o ''DR='' = None" "option_value ?o ''IT='' = Some ''N''" "option_value ?o ''ET='' = None"
    by code_simp+
  show ?thesis
    using ui_from_alert [OF _ _ n, of "\<lparr>mem = []\<rparr>" "''1103''" "''Pick''" "[''a'', ''b'']" None]
    by (simp add: ui_code_def built_ui_def asked_def v or_zero_def ui_zero_def is_choice_def has_input_def input_of_def)
qed

theorem single_item_alert_double_free_witness:
  "fst (get_ui_from_sml (Some \<lparr>al_data = Some (pc_text ''1100''), al_correlator = None,
      al_items = [text_item ''MINDT=1'']\<rparr>) \<lparr>mem = []\<rparr>) = Ub"
  using single_item_alert_double_free [of "\<lparr>mem = []\<rparr>" "\<lparr>al_data = Some (pc_text ''1100''), al_correlator = None,
      al_items = [text_item ''MINDT=1'']\<rparr>"] by (simp add: text_item_def)

section \<open>What only allocates\<close>

lemma drawn_option: "(\<And>v a. keeps (drawn e) (f v a)) \<Longrightarrow> keeps (drawn e) (with_option s n f a)"
  unfolding with_option_def prv_find_value_def [abs_def] by (intro keeps_rules; simp add: keeps_def)

lemma drawn_options [keeps_rules]: "keeps (drawn e) (prv_fill_alert_options a s)"
  unfolding prv_fill_alert_options_def scan_into_def by (intro keeps_FAIL drawn_option keeps_lift keeps_ret)

lemma drawn_choice_loop [keeps_rules]: "keeps (drawn e) (choice_loop its)"
  by (induction its rule: choice_loop.induct; unfold choice_loop.simps) (intro keeps_rules; assumption)+

lemma drawn_ui [keeps_rules]: "keeps (drawn e) (get_ui_from_sml a)"
proof -
  have f: "keeps (drawn e) (finish_ui u)" for u
    unfolding finish_ui_def by (intro keeps_rules)
  have t: "keeps (drawn e) (type_of_alert c its u)" for c its u
    unfolding type_of_alert_def prv_get_alert_choices_def Let_def by (intro keeps_rules)
  show ?thesis
    unfolding get_ui_from_sml_def by (intro keeps_rules f t)
qed

end
