(* ===== verification/Session.thy ===== *)
theory Session
  imports Ui_Alert
begin

text \<open>
  The state of a session (\<^verbatim>\<open>internals_t\<close>), the status elements, and the two lists of elements:
  those to send and those that await a status (\<^verbatim>\<open>dmcore/src/utils.c\<close>).

  A list is kept as the sequence of its cells: \<^verbatim>\<open>elem_first\<close> is its head and \<^verbatim>\<open>elem_last\<close> its last
  cell, both null when it is empty.  The toolkit's instance and callback table, which the session
  only passes on, are not in the state.
\<close>

datatype State_t = STATE_UNKNOWN | STATE_SERVER_INIT | STATE_CLIENT_INIT | STATE_IN_SESSION

text \<open>
  The answer to an alert is what the callback wrote into the buffer, none when it wrote nothing.
  The start of a sequence is kept as a pointer to the element of the decoder, of which the library
  reads the identifier; a pointer is null, or to something that is still allocated or freed by now.
\<close>

datatype 'a pointer = Null | Live 'a | Freed

definition release :: "'a pointer \<Rightarrow> 'a pointer" where
  "release p = (case p of Null \<Rightarrow> Null | _ \<Rightarrow> Freed)"

text \<open>What is read through a pointer that may be null.\<close>

definition read_pointer :: "'a pointer \<Rightarrow> 'a option outcome" where
  "read_pointer p = (case p of Null \<Rightarrow> Val None | Live a \<Rightarrow> Val (Some a) | Freed \<Rightarrow> Ub)"

record 'w internals_t = "'w account_env" +
  session_id :: "32 word"
  message_id :: "32 word"
  command_id :: "32 word"
  elem_list :: "elemCell_t list"
  old_elem :: "elemCell_t list"
  reply_ref :: "string option"
  srv_auth :: int
  clt_auth :: int
  alert_cb :: "(dmclt_ui_t \<Rightarrow> 'w \<Rightarrow> (int \<times> string option) \<times> 'w) option"
  sequence :: "pcdata option pointer"
  seq_code :: int
  session_state :: State_t

section \<open>Status elements\<close>

text \<open>
  \<open>pContent\<close> is the type and the identifier of the command, none for the header.  The result of
  the allocation is used without a test.
\<close>

definition create_status ::
  "int \<Rightarrow> (SmlProtoElement_t \<times> pcdata option) option \<Rightarrow> (('w, 'z) internals_t_scheme, sml_status) cmd" where
  "create_status code pContent =
     DMC_FAIL (allocating smlAllocStatus) (\<lambda>statusP.
     case statusP of
       None \<Rightarrow> lift Ub
     | Some statusP \<Rightarrow>
         DMC_FAIL (case pContent of
                     None \<Rightarrow> allocating (set_pcdata_string ''0'')
                   | Some (_, None) \<Rightarrow> lift Ub
                   | Some (_, Some i) \<Rightarrow> set_pcdata_pcdata i) (\<lambda>cmdRef.
         DMC_FAIL (\<lambda>s. case reply_ref s of
                     None \<Rightarrow> (Ub, s)
                   | Some r \<Rightarrow> allocating (set_pcdata_string r) s) (\<lambda>msgRef.
         DMC_FAIL (allocating (set_pcdata_string (proto_as_string
                     (case pContent of None \<Rightarrow> SML_PE_HEADER | Some (t, _) \<Rightarrow> t)))) (\<lambda>c.
         DMC_FAIL (allocating (set_pcdata_int (word_of_int code))) (\<lambda>d.
         ret (statusP\<lparr>st_cmdRef := cmdRef, st_msgRef := msgRef, st_cmd := c, st_data := d\<rparr>))))))"

definition add_target_ref ::
  "sml_status \<Rightarrow> pcdata option option \<Rightarrow> ('z heap_scheme, sml_status) cmd" where
  "add_target_ref statusP target =
     (case target of
        None \<Rightarrow> ret statusP
      | Some locURI \<Rightarrow>
          DMC_FAIL (allocating smlAllocTargetRefList) (\<lambda>l.
          case l of
            None \<Rightarrow> ret statusP
          | Some _ \<Rightarrow>
              (case locURI of
                 None \<Rightarrow> lift Ub
               | Some u \<Rightarrow> DMC_FAIL (set_pcdata_pcdata u) (\<lambda>p. ret (statusP\<lparr>st_targetRef := Some p\<rparr>)))))"

definition add_source_ref ::
  "sml_status \<Rightarrow> pcdata option option \<Rightarrow> ('z heap_scheme, sml_status) cmd" where
  "add_source_ref statusP source =
     (case source of
        None \<Rightarrow> ret statusP
      | Some locURI \<Rightarrow>
          DMC_FAIL (allocating smlAllocSourceRefList) (\<lambda>l.
          case l of
            None \<Rightarrow> ret statusP
          | Some _ \<Rightarrow>
              (case locURI of
                 None \<Rightarrow> lift Ub
               | Some u \<Rightarrow> DMC_FAIL (set_pcdata_pcdata u) (\<lambda>p. ret (statusP\<lparr>st_sourceRef := Some p\<rparr>)))))"

section \<open>Lists of elements\<close>

text \<open>A fresh element: its identifier is an empty value until the message is composed.\<close>

definition new_element :: "element_body \<Rightarrow> basicElement_t" where
  "new_element b = \<lparr>el_cmdID = Some pc_empty, el_body = b\<rparr>"

text \<open>An element is dropped when its cell cannot be allocated.\<close>

definition add_element :: "basicElement_t \<Rightarrow> (('w, 'z) internals_t_scheme, unit) cmd" where
  "add_element elemP s =
     (case malloc \<lparr>element = elemP, msg_id = None\<rparr> s of
        (None, s) \<Rightarrow> (Val (), s)
      | (Some c, s) \<Rightarrow> (Val (), s\<lparr>elem_list := elem_list s @ [c]\<rparr>))"

definition awaits_status :: "elemCell_t \<Rightarrow> bool" where
  "awaits_status c \<longleftrightarrow>
     elementType (el_body (element c)) \<noteq> SML_PE_STATUS \<and> elementType (el_body (element c)) \<noteq> SML_PE_RESULTS"

fun refresh_loop :: "elemCell_t list \<Rightarrow> elemCell_t list \<Rightarrow> elemCell_t list" where
  "refresh_loop [] old = old"
| "refresh_loop (c # next) old = refresh_loop next (if awaits_status c then c # old else old)"

definition refresh_elements :: "('w, 'z) internals_t_scheme \<Rightarrow> ('w, 'z) internals_t_scheme" where
  "refresh_elements s = s\<lparr>old_elem := refresh_loop (elem_list s) (old_elem s), elem_list := []\<rparr>"

text \<open>The number a status refers to: -1 when it names none.\<close>

definition ref_number :: "string \<Rightarrow> int outcome" where
  "ref_number msgRef =
     (if msgRef = [] then Val (- 1)
      else case scan_int msgRef of
        Val None \<Rightarrow> Val (- 1)
      | Val (Some i) \<Rightarrow> Val i
      | Err e \<Rightarrow> Err e
      | Ub \<Rightarrow> Ub)"

text \<open>
  The search: the cell found and the cells without it.  A cell whose identifier cannot be copied is
  passed over.
\<close>

fun retrieve_loop ::
  "elemCell_t list \<Rightarrow> string \<Rightarrow> int \<Rightarrow> ('z heap_scheme, elemCell_t option \<times> elemCell_t list) cmd" where
  "retrieve_loop [] cmdRef iMsgRef = ret (None, [])"
| "retrieve_loop (c # next) cmdRef iMsgRef =
     (case msg_id c of
        None \<Rightarrow> lift Ub
      | Some m \<Rightarrow>
          DMC_FAIL (if sint m = iMsgRef \<or> iMsgRef = - 1 then smlPcdata2String (el_cmdID (element c)) else ret None)
            (\<lambda>elemId.
          if elemId = Some cmdRef then ret (Some c, next)
          else DMC_FAIL (retrieve_loop next cmdRef iMsgRef) (\<lambda>(r, rest). ret (r, c # rest))))"

definition retrieve_element ::
  "string \<Rightarrow> string \<Rightarrow> (('w, 'z) internals_t_scheme, elemCell_t option) cmd" where
  "retrieve_element cmdRef msgRef =
     DMC_FAIL (lift (ref_number msgRef)) (\<lambda>iMsgRef s.
     DMC_FAIL (retrieve_loop (old_elem s) cmdRef iMsgRef) (\<lambda>(r, rest) s.
     (Val r, s\<lparr>old_elem := rest\<rparr>)) s)"

definition put_back_element :: "elemCell_t \<Rightarrow> (('w, 'z) internals_t_scheme, unit) cmd" where
  "put_back_element c s = (Val (), s\<lparr>old_elem := c # old_elem s\<rparr>)"

definition set_new_uri :: "string \<Rightarrow> (('w, 'z) internals_t_scheme, unit) cmd" where
  "set_new_uri uri s =
     (case account s of
        None \<Rightarrow> (Ub, s)
      | Some a \<Rightarrow>
          (case strdup uri s of (u, s) \<Rightarrow> (Val (), s\<lparr>account := Some (a\<lparr>acc_server_uri := u\<rparr>)\<rparr>)))"

section \<open>What the lists hold\<close>

lemma refresh_loop_eq: "refresh_loop cs old = rev (filter awaits_status cs) @ old"
  by (induction cs arbitrary: old) auto

text \<open>
  After a message is sent, the list to send is empty, and the sent commands wait for a status,
  the last one first, before those that waited already; statuses and results are gone.
\<close>

theorem refresh_elements_spec:
  "old_elem (refresh_elements s) = rev (filter awaits_status (elem_list s)) @ old_elem s \<and>
   elem_list (refresh_elements s) = []"
  by (simp add: refresh_elements_def refresh_loop_eq)

text \<open>A cell that has been sent, and the cell a status refers to.\<close>

definition sent_cell :: "elemCell_t \<Rightarrow> bool" where
  "sent_cell c \<longleftrightarrow> msg_id c \<noteq> None \<and>
     (\<exists>t. el_cmdID (element c) = Some (pc_text t) \<and> CHR 0x00 \<notin> set t)"

definition ref_matches :: "string \<Rightarrow> int \<Rightarrow> elemCell_t \<Rightarrow> bool" where
  "ref_matches cmdRef i c \<longleftrightarrow>
     (i = - 1 \<or> map_option sint (msg_id c) = Some i) \<and> el_cmdID (element c) = Some (pc_text cmdRef)"

lemma pc_text_eq [simp]: "pc_text s = pc_text t \<longleftrightarrow> s = t"
  by (auto simp: pc_text_def)

lemma retrieve_loop_find:
  assumes "plenty h" and "\<forall>c \<in> set cs. sent_cell c"
  shows "retrieve_loop cs cmdRef i h =
    (Val (find (ref_matches cmdRef i) cs,
          case find (ref_matches cmdRef i) cs of None \<Rightarrow> cs | Some c \<Rightarrow> remove1 c cs), h)"
  using assms(2)
proof (induction cs)
  case (Cons c cs)
  then obtain m t where c: "msg_id c = Some m" "el_cmdID (element c) = Some (pc_text t)" "CHR 0x00 \<notin> set t"
    by (auto simp: sent_cell_def)
  show ?case
  proof (cases "ref_matches cmdRef i c")
    case True
    then show ?thesis
      using c pc_text_read [OF assms(1) c(3)] by (auto simp: ref_matches_def cmd_defs)
  next
    case False
    then have "\<exists>x. (if sint m = i \<or> i = - 1 then smlPcdata2String (el_cmdID (element c)) else ret None) h = (Val x, h) \<and>
        x \<noteq> Some cmdRef"
      using c pc_text_read [OF assms(1) c(3)] by (auto simp: ref_matches_def cmd_defs)
    moreover have "find (ref_matches cmdRef i) cs = Some d \<Longrightarrow> d \<noteq> c" for d
      using False by (auto simp: find_Some_iff)
    ultimately show ?thesis
      using False Cons c(1) by (auto simp: DMC_FAIL_def ret_def split: option.splits)
  qed
qed (simp add: cmd_defs)

text \<open>
  C20. A status finds the first waiting command with its identifier and message number, or with its
  identifier alone when the status names no message, and only that command stops waiting.
\<close>

theorem retrieve_finds_first:
  assumes "plenty s" and "\<forall>c \<in> set (old_elem s). sent_cell c" and "ref_number msgRef = Val i"
  shows "retrieve_element cmdRef msgRef s =
    (Val (find (ref_matches cmdRef i) (old_elem s)),
     s\<lparr>old_elem := (case find (ref_matches cmdRef i) (old_elem s) of
         None \<Rightarrow> old_elem s | Some c \<Rightarrow> remove1 c (old_elem s))\<rparr>)"
  using retrieve_loop_find [OF assms(1,2), of cmdRef i] assms(3)
  by (simp add: retrieve_element_def cmd_defs)

lemma retrieve_loop_val:
  "retrieve_loop cs cmdRef i h = (Val (Some c, rest), h') \<Longrightarrow> i = - 1 \<or> (\<exists>m. msg_id c = Some m \<and> sint m = i)"
proof (induction cs arbitrary: h rest)
  case Nil
  then show ?case by (simp add: cmd_defs)
next
  case (Cons d cs)
  then show ?case
    by (auto simp: cmd_val split: option.splits if_splits prod.splits)
qed

lemma read_print_int:
  assumes "plenty s"
  shows "pcdata_to_int (Some (pc_text (print_int v))) s = (Val v, s)"
proof -
  have "CHR 0x00 \<notin> set (print_int v)"
    unfolding print_int_def using digit_chars_no_zero by simp
  then show ?thesis
    using pc_text_read [OF assms] by (simp add: pcdata_to_int_def cmd_defs scan_print_int)
qed

text \<open>
  C40. The message number of a cell is kept in eight bits: a status that refers to a message
  number above 127 never finds its command, under any schedule of allocations.
\<close>

theorem late_status_unmatched:
  assumes "127 < sint n" and "retrieve_element cmdRef (print_int n) s = (Val r, t)"
  shows "r = None"
proof (rule ccontr)
  assume "r \<noteq> None"
  have ne: "print_int n \<noteq> []" using digits_decimal by (simp add: print_int_def)
  have "ref_number (print_int n) = Val (sint n)"
    using ne by (simp add: ref_number_def scan_print_int)
  then obtain c rest u where "retrieve_loop (old_elem s) cmdRef (sint n) s = (Val (Some c, rest), u)"
    using assms(2) \<open>r \<noteq> None\<close> by (auto simp: retrieve_element_def cmd_val)
  from retrieve_loop_val [OF this] obtain m :: "8 word" where "sint m = sint n"
    using assms(1) by auto
  then show False using assms(1) sint_lt [of m] by simp
qed

text \<open>
  C37. A status names the message and the command it answers, and its value is read back as its
  code, for every code of an \<^verbatim>\<open>int\<close>.
\<close>

theorem status_answers_command:
  assumes "plenty s" and "reply_ref s = Some r"
  shows "\<exists>st. create_status (sint v) (Some (ty, Some (pc_text i))) s = (Val st, s) \<and>
    st_cmdRef st = (if i = [] then Pc_String 0 None else pc_text i) \<and> st_msgRef st = pc_text r \<and>
    st_cmd st = pc_text (proto_as_string ty) \<and> pcdata_to_int (Some (st_data st)) s = (Val v, s)"
proof -
  have "pcdata_to_int (Some (pc_text (print_int v))) s = (Val v, s)"
    by (rule read_print_int [OF assms(1)])
  then show ?thesis
    using assms by (simp add: create_status_def cmd_defs smlAllocStatus_def set_pcdata_string_def
        set_pcdata_int_def set_pcdata_pcdata_def copy_content_def pc_text_def)
qed

section \<open>A sample session\<close>

text \<open>A session whose own fields are as \<^verbatim>\<open>memset\<close> leaves them.\<close>

definition session_over :: "'w account_env \<Rightarrow> 'w internals_t" where
  "session_over e = \<lparr>mem = mem e, world = world e, MOs = MOs e, server_id = server_id e, account = account e,
     session_id = 0, message_id = 0, command_id = 0, elem_list = [], old_elem = [], reply_ref = None,
     srv_auth = 0, clt_auth = 0, alert_cb = None, sequence = Null, seq_code = 0,
     session_state = STATE_UNKNOWN\<rparr>"

definition sample_cell :: "string \<Rightarrow> byte \<Rightarrow> elemCell_t" where
  "sample_cell i m = \<lparr>element = \<lparr>el_cmdID = Some (pc_text i),
     el_body = Alert \<lparr>al_data = Some (pc_text ''1201''), al_correlator = None, al_items = []\<rparr>\<rparr>, msg_id = Some m\<rparr>"

definition sample_session :: "nat internals_t" where
  "sample_session = session_over (table_env account_nodes)
     \<lparr>reply_ref := Some ''1'', old_elem := [sample_cell ''3'' 1, sample_cell ''2'' 1]\<rparr>"

lemma sample_session_facts:
  "plenty sample_session" "reply_ref sample_session = Some ''1''"
  "old_elem sample_session = [sample_cell ''3'' 1, sample_cell ''2'' 1]"
  "\<forall>c \<in> set (old_elem sample_session). sent_cell c"
  by (auto simp: sample_session_def session_over_def table_env_def sent_cell_def sample_cell_def)

theorem retrieve_finds_first_witness:
  "fst (retrieve_element ''2'' ''1'' sample_session) = Val (Some (sample_cell ''2'' 1))"
proof -
  have "ref_number ''1'' = Val 1" by code_simp
  from retrieve_finds_first [OF sample_session_facts(1,4) this, of "''2''"]
  show ?thesis by (simp add: sample_session_facts ref_matches_def sample_cell_def)
qed

theorem late_status_unmatched_witness:
  "fst (retrieve_element ''2'' (print_int 200) (sample_session\<lparr>old_elem := [sample_cell ''2'' 200]\<rparr>)) = Val None"
proof -
  let ?s = "sample_session\<lparr>old_elem := [sample_cell ''2'' 200]\<rparr>"
  have "fst (retrieve_element ''2'' (print_int 200) ?s) = Val None" by code_simp
  then obtain r t where rt: "retrieve_element ''2'' (print_int 200) ?s = (Val r, t)"
    by (metis by_fst)
  have "r = None" by (rule late_status_unmatched [OF _ rt]) simp
  with rt show ?thesis by simp
qed

theorem status_answers_command_witness:
  "\<exists>st. create_status (sint (212 :: 32 word)) (Some (SML_PE_ADD, Some (pc_text ''4''))) sample_session = (Val st, sample_session) \<and>
    st_msgRef st = pc_text ''1'' \<and> st_cmd st = pc_text ''Add'' \<and>
    pcdata_to_int (Some (st_data st)) sample_session = (Val 212, sample_session)"
  using status_answers_command [OF sample_session_facts(1,2), of 212 SML_PE_ADD "''4''"] by auto

end
