(* ===== verification/Tree_Frame.thy ===== *)
theory Tree_Frame
  imports Dm_Tree
begin

text \<open>
  What the operations on the tree leave alone.  They draw on the allocator and change the world
  behind the objects and the cache of the manager, and nothing else: a predicate that looks at none of
  these is kept by every operation of \<^verbatim>\<open>momgr.c\<close> on nodes and by every command of \<^verbatim>\<open>dmtree.c\<close>.
\<close>

text \<open>
  Two states with the same directory, the same limits, and the same fields beyond the manager; the
  second has what is left of the schedule of the first.
\<close>

definition same_setting :: "('w, 'z) mo_env_scheme \<Rightarrow> ('w, 'z) mo_env_scheme \<Rightarrow> bool" where
  "same_setting s t \<longleftrightarrow>
     mo_env.more t = mo_env.more s \<and> root (MOs t) = root (MOs s) \<and> max_depth (MOs t) = max_depth (MOs s) \<and>
     max_total_len (MOs t) = max_total_len (MOs s) \<and> max_segment_len (MOs t) = max_segment_len (MOs s) \<and>
     suffix (mem t) (mem s)"

lemma malloc_suffix: "malloc a s = (r, t) \<Longrightarrow> suffix (mem t) (mem s)"
  by (auto simp: malloc_def suffix_def split: list.splits)

lemma find_dir_suffix: "prv_findMoDir up d u e s = (r, t) \<Longrightarrow> suffix (mem t) (mem s)"
proof (induction up d u e s arbitrary: r rule: prv_findMoDir.induct)
  case (1 up d u e s)
  show ?case
  proof (cases "strchr u CHR ''/''")
    case None
    then show ?thesis using 1(2) by (auto simp: prv_findMoDir.simps [of up d u] split: option.splits)
  next
    case (Some sl)
    obtain c s1 where m: "malloc (before u sl) s = (c, s1)" by fastforce
    note e = malloc_suffix [OF m]
    show ?thesis
    proof (cases "\<exists>n ch. c = Some n \<and> find_child n (children d) = Some ch")
      case True
      then obtain n ch where n: "c = Some n" "find_child n (children d) = Some ch" by blast
      have "prv_findMoDir (d # up) ch (tl sl) e s1 = (r, t)"
        using 1(2) Some m n by (simp add: prv_findMoDir.simps [of up d u])
      from 1(1) [OF Some m [symmetric] n this] e show ?thesis by (rule suffix_order.trans)
    next
      case False
      then show ?thesis using 1(2) Some m e
        by (auto simp: prv_findMoDir.simps [of up d u] split: option.splits)
    qed
  qed
qed

lemma findPlugin_suffix:
  assumes "prv_findPlugin u s = (r, t)"
  shows "suffix (mem t) (mem s)"
proof (cases "last_uri (MOs s) = Some u \<or> u = ''.''")
  case True
  then show ?thesis using assms by (auto simp: prv_findPlugin_def Let_def split: if_splits)
next
  case False
  let ?s = "s\<lparr>MOs := (MOs s)\<lparr>last_uri := None\<rparr>\<rparr>"
  obtain c s1 where c: "strdup u ?s = (c, s1)" by fastforce
  obtain p s2 where p: "prv_findMoDir [] (root (MOs s1)) (strip_dot u) False s1 = (p, s2)" by fastforce
  obtain l s3 where l: "strdup u s2 = (l, s3)" by fastforce
  have m1: "suffix (mem s1) (mem s)" using malloc_suffix [OF c] by simp
  show ?thesis
  proof (cases c)
    case None
    then show ?thesis using assms False c m1 by (simp add: prv_findPlugin_def Let_def)
  next
    case (Some v)
    then have "v = u" using malloc_SomeD [OF c [unfolded Some]] by simp
    then show ?thesis
      using assms False c p l Some m1 suffix_order.trans [OF find_dir_suffix [OF p] m1]
        suffix_order.trans [OF malloc_suffix [OF l] suffix_order.trans [OF find_dir_suffix [OF p] m1]]
      by (auto simp: prv_findPlugin_def Let_def split: option.splits)
  qed
qed

lemma same_setting_malloc: "malloc a s = (r, t) \<Longrightarrow> same_setting s t"
  by (frule malloc_env, drule malloc_suffix) (simp add: same_setting_def)

lemma same_setting_findPlugin: "prv_findPlugin u s = (r, t) \<Longrightarrow> same_setting s t"
  by (frule findPlugin_limits, frule findPlugin_more, frule findPlugin_root, drule findPlugin_suffix)
    (simp add: same_setting_def)

lemma same_setting_find_dir: "prv_findMoDir up d u e s = (r, t) \<Longrightarrow> same_setting s t"
  by (frule find_dir_env, drule find_dir_suffix) (simp add: same_setting_def)

lemma same_setting_world: "on_world f s = (r, t) \<Longrightarrow> same_setting s t"
  by (drule on_worldD) (simp add: same_setting_def)

lemma drawn_same_setting: "drawn s t \<Longrightarrow> same_setting s t" for s t :: "('w, 'z) mo_env_scheme"
  by (cases s; cases t) (simp add: drawn_def same_setting_def)

locale tree_frame =
  fixes I :: "('w, 'z) dmtree_t_scheme \<Rightarrow> bool"
  assumes same: "same_setting s t \<Longrightarrow> I s \<Longrightarrow> I t"
begin

lemma frame_drawn: "(\<And>e. keeps (drawn e) m) \<Longrightarrow> keeps I m"
  by (erule drawn_keeps) (metis same drawn_same_setting)

lemma frame_malloc [keeps_rules]: "keeps I (malloc a)"
  by (rule frame_drawn) (rule drawn_malloc)

lemma frame_cat [keeps_rules]:
  "keeps I (str_cat_2 a b)" "keeps I (str_cat_3 a b c)" "keeps I (str_cat_5 a b c d e)"
  unfolding str_cat_2_def str_cat_3_def str_cat_5_def by (intro keeps_rules)+

lemma frame_findPlugin [keeps_rules]: "keeps I (prv_findPlugin u)"
  by (rule keepsI) (metis same same_setting_findPlugin prod.collapse)

lemma frame_find_root [keeps_rules]: "keeps I (\<lambda>s. prv_findMoDir up (root (MOs s)) u x s)"
  by (rule keepsI) (metis same same_setting_find_dir prod.collapse)

lemma frame_on_world [keeps_rules]: "keeps I (on_world f)"
  by (rule keepsI) (metis same same_setting_world prod.collapse)

lemma frame_code_call [keeps_rules]: "keeps I (code_call f)"
  unfolding code_call_def by (intro keeps_rules)

lemma frame_uri_validate: "keeps I (uri_validate t m l u b c)"
  unfolding uri_validate_def cut_prop_def node_form_def check_path_def by (intro keeps_rules)

lemma frame_validate [keeps_rules]: "keeps I (momgr_validate_uri u b c)"
  unfolding momgr_validate_uri_def
  by (rule keepsI) (rule keepsD [OF frame_uri_validate _ prod.collapse [symmetric]])

lemma frame_exists [keeps_rules]: "keeps I (momgr_exists u)"
  unfolding momgr_exists_def by (intro keeps_rules)

lemma frame_append_names [keeps_rules]: "keeps I (append_names ns node)"
proof (induction ns arbitrary: node)
  case Nil
  show ?case unfolding append_names.simps by (intro keeps_rules)
next
  case (Cons n ns)
  show ?case unfolding append_names.simps by (intro keeps_rules Cons)
qed

lemma frame_get_value [keeps_rules]: "keeps I (momgr_get_value n)"
  unfolding momgr_get_value_def nested_names_def by (intro keeps_rules)

lemma frame_get_ACL [keeps_rules]: "keeps I (momgr_get_ACL u)"
  unfolding momgr_get_ACL_def by (intro keeps_rules)

lemma frame_node_ops [keeps_rules]:
  "keeps I (momgr_set_value n)" "keeps I (momgr_set_ACL u a)" "keeps I (momgr_rename_node u a)"
  "keeps I (momgr_delete_node u)" "keeps I (momgr_exec_node u x y)"
  unfolding momgr_set_value_def momgr_set_ACL_def momgr_rename_node_def momgr_delete_node_def momgr_exec_node_def
  by (intro keeps_rules)+

lemma frame_buildChildList [keeps_rules]: "keeps I (strArray_buildChildList b c k)"
  by (rule frame_drawn) (rule drawn_buildChildList)

lemma frame_children_url [keeps_rules]: "keeps I (prv_getChildrenUrl d u)"
  unfolding prv_getChildrenUrl_def by (intro keeps_rules)

lemma frame_concat [keeps_rules]: "keeps I (strArray_concat a b)"
  unfolding strArray_concat_def Let_def by (intro keeps_rules)

lemma frame_own_urn [keeps_rules]: "keeps I (own_urn p u l)"
  unfolding own_urn_def by (intro keeps_rules)

lemma frame_findUrn [keeps_rules]:
  "keeps I (prv_findUrn d u l)" "keeps I (findUrn_children ds u l)"
proof (induction d u l and ds u l rule: prv_findUrn_findUrn_children.induct)
  case (1 n p cs u l)
  then show ?case unfolding prv_findUrn.simps by (intro keeps_FAIL frame_own_urn)
next
  case (3 c cs u l)
  then show ?case unfolding findUrn_children.simps by (intro keeps_FAIL)
qed (simp add: keeps_ret)

lemma frame_criteria [keeps_rules]: "keeps I (criteria_loop us n v)"
proof (induction us)
  case (Cons u us)
  then show ?case unfolding criteria_loop.simps by (intro keeps_rules)
qed (simp add: keeps_FORCE)

lemma frame_subtree_dir [keeps_rules]: "keeps I (subtree_dir u)"
  by (rule keepsI) (auto simp: subtree_dir_def split: option.split;
    metis same same_setting_find_dir prod.collapse)

lemma frame_find_subtree [keeps_rules]: "keeps I (momgr_find_subtree u r n v)"
  unfolding momgr_find_subtree_def by (intro keeps_rules)

lemma frame_acl_loop: "I s \<Longrightarrow> I (snd (acl_loop u c s))"
proof (induction u c s rule: acl_loop.induct)
  case (2 x xs c s)
  obtain c' a t where m: "momgr_get_ACL (Some (x # xs)) s = ((c', a), t)" by (metis surj_pair)
  have "I t" using keepsD [OF frame_get_ACL 2(2) m] .
  then show ?case using 2(1) [of "(c', a)" t c' a] m by auto
qed simp

lemma frame_inherited [keeps_rules]: "keeps I (prv_get_inherited_acl u)"
  unfolding prv_get_inherited_acl_def
  by (intro keeps_rules) (simp add: keeps_def frame_acl_loop)

lemma frame_rights [keeps_rules]: "keeps I (prv_check_node_acl_rights u c)"
  unfolding prv_check_node_acl_rights_def by (intro keeps_rules) (simp_all add: keeps_def)

lemma frame_get [keeps_rules]: "keeps I (dmtree_get n)"
  unfolding dmtree_get_def get_property_def get_at_def text_node_def by (intro keeps_rules)

lemma frame_give_rights [keeps_rules]: "keeps I (give_rights u a)"
proof (rule keepsI)
  fix s assume "I s"
  moreover have "keeps I (DMC_FAIL_NULL (str_cat_3 ''Get=*&'' ''Add='' i) OMADM_SYNCML_ERROR_DEVICE_FULL (\<lambda>new_acl.
      DMC_FAIL_NULL (str_cat_3 new_acl ''&'' ''Delete='') OMADM_SYNCML_ERROR_DEVICE_FULL (\<lambda>tmp_str.
      DMC_FAIL_NULL (str_cat_5 tmp_str i ''&'' ''Replace='' i) OMADM_SYNCML_ERROR_DEVICE_FULL
        (\<lambda>new_acl. momgr_set_ACL (Some u) (Some new_acl)))))" for i
    by (intro keeps_rules)
  ultimately show "I (snd (give_rights u a s))"
    by (auto simp: give_rights_def keeps_def split: outcome.split option.split)
qed

lemma frame_add_checked [keeps_rules]: "keeps I (add_checked u n a)"
proof (rule keepsI)
  fix s assume s: "I s"
  obtain r p where c: "prv_check_access_rights (server_id s) a ''Add='' = (r, p)" by fastforce
  have "keeps I (DMC_FAIL (lift r) (\<lambda>_.
      DMC_FAIL (momgr_set_value (Some (n\<lparr>node_uri := Some u\<rparr>))) (\<lambda>_. give_rights u p)))"
    by (intro keeps_rules)
  then show "I (snd (add_checked u n a s))" using s c by (simp add: add_checked_def keeps_def)
qed

lemma frame_commands [keeps_rules]:
  "keeps I (dmtree_delete v)" "keeps I (dmtree_exec v x y)" "keeps I (dmtree_copy u w)"
  "keeps I (dmtree_add n)" "keeps I (dmtree_replace n)"
  unfolding dmtree_delete_def dmtree_exec_def dmtree_copy_def dmtree_add_def dmtree_replace_def replace_property_def
    prv_check_acl_syntax_def
  by (intro keeps_rules; simp add: keeps_def)+

end

end
