(* ===== verification/Tree_Cmds.thy ===== *)
theory Tree_Cmds
  imports Session Tree_Frame
begin

text \<open>
  The commands of a message on the tree (\<^verbatim>\<open>dmcore/src/sml2tree.c\<close>): items become nodes for the
  operations of \<^verbatim>\<open>dmtree.c\<close>, and nodes become items of the answer.
\<close>

section \<open>From nodes to items\<close>

text \<open>The content of an item is a copy of \<open>data_size\<close> bytes, possibly with the terminator.\<close>

definition prv_fill_item ::
  "sml_item \<Rightarrow> dmtree_node_t \<Rightarrow> ('z heap_scheme, int \<times> sml_item) cmd" where
  "prv_fill_item itemP node =
     DMC_FAIL (allocating smlAllocSource) (\<lambda>src.
     case src of
       None \<Rightarrow> ret (OMADM_SYNCML_ERROR_COMMAND_FAILED, itemP)
     | Some _ \<Rightarrow>
         DMC_FAIL (allocating (smlString2Pcdata (node_uri node))) (\<lambda>locURI.
         let itemP = itemP\<lparr>it_source := Some locURI\<rparr> in
         DMC_FAIL
           (case data_buffer node of
              None \<Rightarrow> ret (Some (it_data itemP))
            | Some b \<Rightarrow>
                DMC_FAIL (allocating smlAllocPcdata) (\<lambda>p.
                case p of
                  None \<Rightarrow> ret None
                | Some _ \<Rightarrow>
                    DMC_FAIL (allocating (malloc ())) (\<lambda>c.
                    case c of
                      None \<Rightarrow> ret None
                    | Some _ \<Rightarrow>
                        if data_size node > length b + 1 then lift Ub
                        else ret (Some (Some (Pc_Other (data_size node)
                               (Some (take (data_size node) (b @ [CHR 0x00])))))))))
           (\<lambda>data.
         case data of
           None \<Rightarrow> ret (OMADM_SYNCML_ERROR_COMMAND_FAILED, itemP)
         | Some data \<Rightarrow>
             DMC_FAIL (allocating (convert_to_meta (node_format node) (node_type node))) (\<lambda>meta.
             ret (OMADM_SYNCML_ERROR_SUCCESS, itemP\<lparr>it_data := data, it_meta := meta\<rparr>)))))"

definition prv_get_node ::
  "string \<Rightarrow> sml_item \<Rightarrow> (('w, 'z) dmtree_t_scheme, int \<times> sml_item) cmd" where
  "prv_get_node uri resultP =
     DMC_FAIL (allocating (strdup uri)) (\<lambda>u.
     case u of
       None \<Rightarrow> ret (OMADM_SYNCML_ERROR_COMMAND_FAILED, resultP)
     | Some u \<Rightarrow>
         try_code (dmtree_get (Some (node_at u))) (\<lambda>r.
         case r of
           Inl code \<Rightarrow> ret (code, resultP)
         | Inr node \<Rightarrow> prv_fill_item resultP node))"

definition prv_add_item_to_list ::
  "sml_item \<Rightarrow> sml_items \<Rightarrow> ('z heap_scheme, int \<times> sml_items) cmd" where
  "prv_add_item_to_list itemP listP =
     DMC_FAIL (allocating (malloc (Some itemP # listP))) (\<lambda>l.
     case l of
       None \<Rightarrow> ret (OMADM_SYNCML_ERROR_DEVICE_FULL, listP)
     | Some l \<Rightarrow> ret (OMADM_SYNCML_ERROR_SUCCESS, l))"

definition prv_get_to_list ::
  "string \<Rightarrow> sml_items \<Rightarrow> (('w, 'z) dmtree_t_scheme, int \<times> sml_items) cmd" where
  "prv_get_to_list uri listP =
     DMC_FAIL (allocating smlAllocItem) (\<lambda>itemP.
     case itemP of
       None \<Rightarrow> ret (OMADM_SYNCML_ERROR_COMMAND_FAILED, listP)
     | Some itemP \<Rightarrow>
         DMC_FAIL (prv_get_node uri itemP) (\<lambda>(code, itemP).
         if code = OMADM_SYNCML_ERROR_SUCCESS then prv_add_item_to_list itemP listP
         else ret (code, listP)))"

text \<open>
  The walk over a subtree follows the child lists the objects return, so nothing in the source
  bounds it: \<open>fuel\<close> bounds the depth, and \<open>None\<close> says that it was used up.
\<close>

definition add_fetched ::
  "dmtree_node_t \<Rightarrow> sml_items \<Rightarrow> ('z heap_scheme, sml_items) cmd" where
  "add_fetched node listP =
     DMC_FAIL (allocating smlAllocItem) (\<lambda>itemP.
     case itemP of
       None \<Rightarrow> ret listP
     | Some itemP \<Rightarrow>
         DMC_FAIL (prv_fill_item itemP node) (\<lambda>(code, itemP).
         if code = OMADM_SYNCML_ERROR_SUCCESS
         then DMC_FAIL (prv_add_item_to_list itemP listP) (\<lambda>(_, listP). ret listP)
         else ret listP))"

definition child_uris ::
  "string \<Rightarrow> dmtree_node_t \<Rightarrow> ('z heap_scheme, string list) cmd" where
  "child_uris uri node =
     (case node_format node of
        None \<Rightarrow> lift Ub
      | Some f \<Rightarrow>
          if f = ''node'' \<and> data_size node \<noteq> 0 then
            (case data_buffer node of
               None \<Rightarrow> lift Ub
             | Some b \<Rightarrow>
                 if data_size node > length b + 1 then lift Ub
                 else DMC_FAIL (strArray_buildChildList uri b (data_size node))
                   (\<lambda>l. ret (case l of None \<Rightarrow> [] | Some us \<Rightarrow> us)))
          else ret [])"

fun prv_get_tree_to_list ::
  "nat \<Rightarrow> string \<Rightarrow> sml_items \<Rightarrow> (('w, 'z) dmtree_t_scheme, sml_items option) cmd"
and get_trees_to_list ::
  "nat \<Rightarrow> string list \<Rightarrow> sml_items \<Rightarrow> (('w, 'z) dmtree_t_scheme, sml_items option) cmd"
where
  "prv_get_tree_to_list 0 uri listP = ret None"
| "prv_get_tree_to_list (Suc fuel) uri listP =
     DMC_FAIL (allocating (strdup uri)) (\<lambda>u.
     case u of
       None \<Rightarrow> ret (Some listP)
     | Some u \<Rightarrow>
         try_code (dmtree_get (Some (node_at u))) (\<lambda>r.
         case r of
           Inl code \<Rightarrow> ret (Some listP)
         | Inr node \<Rightarrow>
             DMC_FAIL (add_fetched node listP) (\<lambda>listP.
             DMC_FAIL (child_uris uri node) (\<lambda>childList.
             get_trees_to_list fuel childList listP))))"
| "get_trees_to_list fuel [] listP = ret (Some listP)"
| "get_trees_to_list fuel (u # us) listP =
     DMC_FAIL (prv_get_tree_to_list fuel u listP) (\<lambda>l.
     case l of None \<Rightarrow> ret None | Some listP \<Rightarrow> get_trees_to_list fuel us listP)"

text \<open>The mandatory nodes in turn: \<open>None\<close> is the jump to the error label.\<close>

fun get_all_to_list ::
  "string list \<Rightarrow> sml_items \<Rightarrow> (('w, 'z) dmtree_t_scheme, sml_items option) cmd" where
  "get_all_to_list [] listP = ret (Some listP)"
| "get_all_to_list (u # us) listP =
     DMC_FAIL (prv_get_to_list u listP) (\<lambda>(code, listP).
     if code \<noteq> OMADM_SYNCML_ERROR_SUCCESS then ret None else get_all_to_list us listP)"

text \<open>The outer option is the fuel, the inner one the pointer that is returned.\<close>

definition get_device_info ::
  "nat \<Rightarrow> (('w, 'z) dmtree_t_scheme, sml_generic option option) cmd" where
  "get_device_info fuel =
     DMC_FAIL (get_all_to_list [''./DevInfo/Mod'', ''./DevInfo/Man'', ''./DevInfo/DevId'', ''./DevInfo/Lang'',
         ''./DevInfo/DmV''] []) (\<lambda>l.
     case l of
       None \<Rightarrow> ret (Some None)
     | Some listP \<Rightarrow>
         DMC_FAIL (get_trees_to_list fuel [''./DevInfo/Bearer'', ''./DevInfo/Ext''] listP) (\<lambda>l.
         case l of
           None \<Rightarrow> ret None
         | Some listP \<Rightarrow>
             DMC_FAIL (allocating smlAllocReplace) (\<lambda>r.
             ret (Some (map_option (\<lambda>r. r\<lparr>gc_items := listP\<rparr>) r)))))"

section \<open>From items to operations\<close>

text \<open>
  The URI of a target or source; a null one is dereferenced.  \<open>PRV_CONVERT_CODE\<close> turns a
  success of the tree into the status 200.
\<close>

definition loc_string :: "pcdata option option \<Rightarrow> ('z heap_scheme, string option) cmd" where
  "loc_string target = (case target of None \<Rightarrow> lift Ub | Some locURI \<Rightarrow> smlPcdata2String locURI)"

definition PRV_CONVERT_CODE :: "('s, unit) cmd \<Rightarrow> ('s, int) cmd" where
  "PRV_CONVERT_CODE m =
     try_code m (\<lambda>r.
     case r of
       Inr _ \<Rightarrow> ret OMADM_SYNCML_ERROR_SUCCESS
     | Inl code \<Rightarrow> ret (if code = OMADM_SYNCML_ERROR_NONE then OMADM_SYNCML_ERROR_SUCCESS else code))"

definition get_node ::
  "sml_item option \<Rightarrow> sml_item \<Rightarrow> (('w, 'z) dmtree_t_scheme, int \<times> sml_item) cmd" where
  "get_node itemP resultP =
     (case itemP of
        None \<Rightarrow> lift Ub
      | Some it \<Rightarrow>
          DMC_FAIL (loc_string (it_target it)) (\<lambda>uri.
          case uri of
            None \<Rightarrow> ret (OMADM_SYNCML_ERROR_NOT_FOUND, resultP)
          | Some uri \<Rightarrow> prv_get_node uri resultP))"

text \<open>The node an item describes; its data is dereferenced although it is optional in an item.\<close>

fun pc_bytes :: "pcdata \<Rightarrow> nat \<times> string option" where
  "pc_bytes (Pc_Metinf _ _ _) = (0, None)"
| "pc_bytes (Pc_String n c) = (n, c)"
| "pc_bytes (Pc_Other n c) = (n, c)"

definition node_of_item :: "sml_item option \<Rightarrow> ('z heap_scheme, dmtree_node_t) cmd" where
  "node_of_item itemP =
     (case itemP of
        None \<Rightarrow> lift Ub
      | Some it \<Rightarrow>
          DMC_FAIL (loc_string (it_target it)) (\<lambda>uri.
          DMC_FAIL (extract_from_meta (it_meta it) True True) (\<lambda>(f, t).
          case it_data it of
            None \<Rightarrow> lift Ub
          | Some d \<Rightarrow>
              (case pc_bytes d of
                 (n, c) \<Rightarrow>
                   ret \<lparr>node_uri = uri, node_format = f, node_type = t, data_size = n,
                        data_buffer = (if n = 0 then None else c)\<rparr>))))"

definition add_node :: "sml_item option \<Rightarrow> (('w, 'z) dmtree_t_scheme, int) cmd" where
  "add_node itemP = DMC_FAIL (node_of_item itemP) (\<lambda>node. PRV_CONVERT_CODE (dmtree_add (Some node)))"

definition replace_node :: "sml_item option \<Rightarrow> (('w, 'z) dmtree_t_scheme, int) cmd" where
  "replace_node itemP =
     DMC_FAIL (node_of_item itemP) (\<lambda>node. PRV_CONVERT_CODE (dmtree_replace (Some node)))"

definition delete_node :: "sml_item option \<Rightarrow> (('w, 'z) dmtree_t_scheme, int) cmd" where
  "delete_node itemP =
     (case itemP of
        None \<Rightarrow> lift Ub
      | Some it \<Rightarrow>
          DMC_FAIL (loc_string (it_target it)) (\<lambda>uri.
          case uri of
            None \<Rightarrow> ret OMADM_SYNCML_ERROR_NOT_FOUND
          | Some uri \<Rightarrow> PRV_CONVERT_CODE (dmtree_delete (Some uri))))"

definition exec_node ::
  "sml_item option \<Rightarrow> pcdata option \<Rightarrow> (('w, 'z) dmtree_t_scheme, int) cmd" where
  "exec_node itemP correlatorP =
     (case itemP of
        None \<Rightarrow> lift Ub
      | Some it \<Rightarrow>
          DMC_FAIL (loc_string (it_target it)) (\<lambda>uri.
          case uri of
            None \<Rightarrow> ret OMADM_SYNCML_ERROR_NOT_FOUND
          | Some uri \<Rightarrow>
              DMC_FAIL (smlPcdata2String (it_data it)) (\<lambda>data.
              DMC_FAIL (smlPcdata2String correlatorP) (\<lambda>correlator.
              PRV_CONVERT_CODE (dmtree_exec (Some uri) data correlator)))))"

definition copy_node :: "sml_item option \<Rightarrow> (('w, 'z) dmtree_t_scheme, int) cmd" where
  "copy_node itemP =
     (case itemP of
        None \<Rightarrow> lift Ub
      | Some it \<Rightarrow>
          DMC_FAIL (loc_string (it_target it)) (\<lambda>dst.
          case dst of
            None \<Rightarrow> ret OMADM_SYNCML_ERROR_NOT_FOUND
          | Some dst_uri \<Rightarrow>
              DMC_FAIL (loc_string (it_source it)) (\<lambda>src.
              case src of
                None \<Rightarrow> ret OMADM_SYNCML_ERROR_NOT_FOUND
              | Some src_uri \<Rightarrow> PRV_CONVERT_CODE (dmtree_copy src_uri dst_uri))))"

section \<open>Items carry nodes\<close>

text \<open>
  C38. An item filled from a node and sent back as the target of a command describes the same node.
\<close>

theorem item_round_trip:
  assumes "plenty h" and "node_uri n = Some u" and "node_format n = Some f" and "data_buffer n = Some b"
    and "data_size n = length b" and "b \<noteq> []"
    and "\<forall>x. x = u \<or> x = f \<or> node_type n = Some x \<longrightarrow> CHR 0x00 \<notin> set x"
  shows "\<exists>it. prv_fill_item item_zero n h = (Val (OMADM_SYNCML_ERROR_SUCCESS, it), h) \<and>
    node_of_item (Some (it\<lparr>it_target := it_source it\<rparr>)) h = (Val n, h)"
proof -
  have u: "smlPcdata2String (Some (Pc_String (length u) (Some u))) h = (Val (Some u), h)"
    and f: "smlPcdata2String (Some (Pc_String (length f) (Some f))) h = (Val (Some f), h)"
    and t: "\<And>x. node_type n = Some x \<Longrightarrow> smlPcdata2String (Some (Pc_String (length x) (Some x))) h = (Val (Some x), h)"
    using smlPcdata2String_plenty [OF assms(1)] assms(7) by blast+
  obtain u' f' t' z b' where n: "n = \<lparr>node_uri = u', node_format = f', node_type = t', data_size = z, data_buffer = b'\<rparr>"
    by (cases n)
  show ?thesis
    using assms(1-6) u f t
    by (cases t') (auto simp: n prv_fill_item_def node_of_item_def loc_string_def cmd_defs smlAllocSource_def
        smlAllocPcdata_def convert_to_meta_def extract_from_meta_def Let_def item_zero_def)
qed

theorem item_round_trip_witness:
  "\<exists>it. prv_fill_item item_zero \<lparr>node_uri = Some ''./A/B'', node_format = Some ''chr'', node_type = None,
      data_size = 2, data_buffer = Some ''ok''\<rparr> \<lparr>mem = []\<rparr> = (Val (OMADM_SYNCML_ERROR_SUCCESS, it), \<lparr>mem = []\<rparr>) \<and>
    node_of_item (Some (it\<lparr>it_target := it_source it\<rparr>)) \<lparr>mem = []\<rparr> =
      (Val \<lparr>node_uri = Some ''./A/B'', node_format = Some ''chr'', node_type = None, data_size = 2,
        data_buffer = Some ''ok''\<rparr>, \<lparr>mem = []\<rparr>)"
  by (rule item_round_trip [where u = "''./A/B''" and f = "''chr''" and b = "''ok''"]) auto

text \<open>
  An Add or a Replace whose item has no data, as an Add of an interior node may have none,
  dereferences a null pointer.
\<close>

theorem command_without_data_undefined:
  assumes "it_data it = None"
  shows "fst (add_node (Some it) s) = Ub \<and> fst (replace_node (Some it) s) = Ub"
proof -
  have "fst (node_of_item (Some it) s) = Ub"
    using assms
    by (auto simp: node_of_item_def loc_string_def extract_from_meta_def cmd_defs no_err
        split: prod.splits outcome.splits option.splits pcdata.splits)
  then show ?thesis
    by (cases "node_of_item (Some it) s") (simp add: add_node_def replace_node_def cmd_defs)
qed

theorem command_without_data_undefined_witness:
  "fst (add_node (Some (item_zero\<lparr>it_target := Some (Some (pc_text ''./A''))\<rparr>)) sample_session) = Ub"
  using command_without_data_undefined [of "item_zero\<lparr>it_target := Some (Some (pc_text ''./A''))\<rparr>" sample_session]
  by (simp add: item_zero_def)

section \<open>The walk over a subtree ends\<close>

text \<open>\<open>limit_is L\<close>: the limit on the length of a URI, which no operation changes.\<close>

definition limit_is :: "16 word \<Rightarrow> ('w, 'z) mo_env_scheme \<Rightarrow> bool" where
  "limit_is L s \<longleftrightarrow> max_total_len (MOs s) = L"

lemma limit_same: "MOs t = MOs s \<Longrightarrow> limit_is L s \<Longrightarrow> limit_is L t"
  by (simp add: limit_is_def)

interpretation limit: tree_frame "limit_is L" for L
  by unfold_locales (simp add: limit_is_def same_setting_def)

lemma drawn_fill_item [keeps_rules]: "keeps (drawn e) (prv_fill_item it n)"
  unfolding prv_fill_item_def Let_def by (intro keeps_rules)

lemma drawn_add_item [keeps_rules]: "keeps (drawn e) (prv_add_item_to_list it l)"
  unfolding prv_add_item_to_list_def by (intro keeps_rules)

lemma drawn_add_fetched [keeps_rules]: "keeps (drawn e) (add_fetched n l)"
  unfolding add_fetched_def by (intro keeps_rules)

lemma drawn_child_uris [keeps_rules]: "keeps (drawn e) (child_uris u n)"
  unfolding child_uris_def by (intro keeps_rules)

lemma build_uris_longer:
  "build_uris b ns h = (Some us, h') \<Longrightarrow> u \<in> set us \<Longrightarrow> length b < length u"
proof (induction ns arbitrary: h us)
  case (Cons n ns)
  then show ?case
    by (auto simp: str_cat_3_def split: prod.splits option.splits dest!: malloc_SomeD)
qed simp

lemma child_uris_longer:
  assumes "child_uris u n s = (Val us, t)" and "c \<in> set us"
  shows "length u < length c"
proof -
  have "build_uris u ns h = (Some l, h') \<Longrightarrow> c \<in> set l \<Longrightarrow> length u < length c" for ns h l h'
    by (rule build_uris_longer)
  then show ?thesis
    using assms
    by (auto simp: child_uris_def cmd_val strArray_buildChildList_def Let_def
        split: option.splits if_splits prod.splits)
qed

lemma get_within_limit:
  assumes "dmtree_get (Some (node_at u)) s = (Val n, t)" and "limit_is L s" and "L \<noteq> 0"
  shows "length u \<le> unat L"
proof -
  obtain a b s' where "momgr_validate_uri (Some u) True True s = (Val (a, b), s')"
    using assms(1) by (auto simp: dmtree_get_def node_at_def node_zero_def cmd_val)
  then show ?thesis
    using uri_validate_val assms(2,3) unfolding momgr_validate_uri_def limit_is_def too_long_def
    by fastforce
qed

text \<open>The walk never asks for more fuel than the limit on the length of a URI leaves.\<close>

definition walk_ends :: "16 word \<Rightarrow> (('w, 'z) mo_env_scheme, 'a option) cmd \<Rightarrow> bool" where
  "walk_ends L m \<longleftrightarrow> keeps (limit_is L) m \<and> (\<forall>s. limit_is L s \<longrightarrow> fst (m s) \<noteq> Val None)"

lemma walk_FAIL:
  "keeps (limit_is L) m \<Longrightarrow> (\<And>s a t. limit_is L s \<Longrightarrow> m s = (Val a, t) \<Longrightarrow> walk_ends L (k a)) \<Longrightarrow>
     walk_ends L (DMC_FAIL m k)"
  unfolding walk_ends_def keeps_def DMC_FAIL_def by (fastforce split: prod.splits outcome.splits)

lemma walk_on:
  "walk_ends L m \<Longrightarrow> (\<And>x. walk_ends L (k (Some x))) \<Longrightarrow> walk_ends L (DMC_FAIL m k)"
  by (rule walk_FAIL) (force simp: walk_ends_def)+

lemma walk_try:
  "keeps (limit_is L) m \<Longrightarrow> (\<And>e. walk_ends L (k (Inl e))) \<Longrightarrow>
     (\<And>s a t. limit_is L s \<Longrightarrow> m s = (Val a, t) \<Longrightarrow> walk_ends L (k (Inr a))) \<Longrightarrow> walk_ends L (try_code m k)"
  unfolding walk_ends_def keeps_def try_code_def by (fastforce split: prod.splits outcome.splits)

lemma walk_ret: "walk_ends L (ret (Some a))"
  by (simp add: walk_ends_def keeps_ret) (simp add: cmd_defs)

lemma walk_below:
  fixes k :: "string list \<Rightarrow> sml_items \<Rightarrow> (('w, 'z) dmtree_t_scheme, sml_items option) cmd"
  assumes k: "\<And>us l. (\<forall>c \<in> set us. length u < length c) \<Longrightarrow> length u \<le> unat L \<Longrightarrow> walk_ends L (k us l)"
    and L: "L \<noteq> 0"
  shows "walk_ends L (try_code (dmtree_get (Some (node_at u))) (\<lambda>r. case r of
    Inl code \<Rightarrow> ret (Some l)
  | Inr node \<Rightarrow> DMC_FAIL (add_fetched node l) (\<lambda>l. DMC_FAIL (child_uris u node) (\<lambda>us. k us l))))"
proof (rule walk_try [OF limit.frame_get]; unfold sum.case)
  fix s :: "('w, 'z) dmtree_t_scheme" and n t
  assume s: "limit_is L s" and g: "dmtree_get (Some (node_at u)) s = (Val n, t)"
  show "walk_ends L (DMC_FAIL (add_fetched n l) (\<lambda>l. DMC_FAIL (child_uris u n) (\<lambda>us. k us l)))"
    by (intro walk_FAIL limit.frame_drawn drawn_add_fetched drawn_child_uris k ballI)
      (use child_uris_longer get_within_limit [OF g s L] in blast)+
qed (rule walk_ret)

lemma subtree_walk_ends:
  "unat L + 2 \<le> length u + f \<Longrightarrow> f \<noteq> 0 \<Longrightarrow> L \<noteq> 0 \<Longrightarrow>
     walk_ends L (prv_get_tree_to_list f u l :: (('w, 'z) dmtree_t_scheme, sml_items option) cmd)"
  "\<forall>u \<in> set us. unat L + 2 \<le> length u + f \<Longrightarrow> us = [] \<or> f \<noteq> 0 \<Longrightarrow> L \<noteq> 0 \<Longrightarrow>
     walk_ends L (get_trees_to_list f us l :: (('w, 'z) dmtree_t_scheme, sml_items option) cmd)"
proof (induction f u l and f us l rule: prv_get_tree_to_list_get_trees_to_list.induct)
  case (2 fuel uri l)
  have k: "walk_ends L (get_trees_to_list fuel us l :: (('w, 'z) dmtree_t_scheme, sml_items option) cmd)"
    if "\<forall>c \<in> set us. length uri < length c" and "length uri \<le> unat L" for us l
    by (rule 2(1)) (use 2(2,4) that in fastforce)+
  show ?case
    unfolding prv_get_tree_to_list.simps
    by (rule walk_FAIL)
      (auto simp: allocating_val walk_ret k 2(4) intro!: keeps_rules walk_below
        split: option.split dest!: malloc_SomeD)
next
  case (4 fuel u us l)
  have "walk_ends L (prv_get_tree_to_list fuel u l :: (('w, 'z) dmtree_t_scheme, sml_items option) cmd)"
    using 4 by simp
  moreover have "walk_ends L (get_trees_to_list fuel us x :: (('w, 'z) dmtree_t_scheme, sml_items option) cmd)" for x
    using 4 by simp
  ultimately show ?case
    unfolding get_trees_to_list.simps
    by (intro walk_FAIL) (auto simp: walk_ends_def split: option.splits)
qed (simp_all add: walk_ret)



end
