(* ===== verification/Workspace.thy ===== *)
theory Workspace
  imports Dm_Prelude
begin

text \<open>
  An instance of the toolkit and its buffer (\<^verbatim>\<open>mgrinstancemgr.c\<close>, built with \<^verbatim>\<open>NOWSM\<close>: the
  identifier of an instance is its address, and each instance has one buffer for the message that is
  received and the one that is built).

  Pointers into the buffer are offsets from its start, and sizes are the \<^verbatim>\<open>long\<close> they are in the
  code.  No offset nears the bounds of the type, since a buffer is at most as large as the memory.
\<close>

abbreviation SML_ERR_OK :: int where "SML_ERR_OK \<equiv> 0"
abbreviation SML_ERR_NOT_ENOUGH_SPACE :: int where "SML_ERR_NOT_ENOUGH_SPACE \<equiv> 0x11"
abbreviation SML_ERR_WRONG_USAGE :: int where "SML_ERR_WRONG_USAGE \<equiv> 0x13"
abbreviation SML_ERR_WRONG_PARAM :: int where "SML_ERR_WRONG_PARAM \<equiv> 0x20"
abbreviation SML_ERR_MGR_INVALID_INSTANCE_INFO :: int where "SML_ERR_MGR_INVALID_INSTANCE_INFO \<equiv> 0x1002"
abbreviation SML_ERR_XLT_BUF_ERR :: int where "SML_ERR_XLT_BUF_ERR \<equiv> 0x2002"

section \<open>Instances\<close>

datatype SmlEncoding_t = SML_UNDEF | SML_WBXML | SML_XML

text \<open>
  Of the callbacks only whether they are set is kept: the table is an argument of what calls them.
  The user data is the session itself.
\<close>

record ('e, 'd) InstanceInfo_t =
  instanceBuffer :: "8 word list"
  readLocked :: bool
  writeLocked :: bool
  readPointer :: int
  writePointer :: int
  outgoingMsgStart :: "int option"
  incomingMsgStart :: "int option"
  maxOutgoingSize :: int
  has_callbacks :: bool
  inst_encoding :: "SmlEncoding_t option"
  encoderState :: "'e option"
  decoderState :: "'d option"

definition instanceBufSiz :: "('e, 'd, 'z) InstanceInfo_t_scheme \<Rightarrow> int" where
  "instanceBufSiz i = int (length (instanceBuffer i))"

text \<open>The operations take the identifier of the instance, which can be null.\<close>

definition on_instance ::
  "('i, 'a) cmd \<Rightarrow> ('i option, 'a) cmd" where
  "on_instance m pInstanceInfo =
     (case pInstanceInfo of
        None \<Rightarrow> (Err SML_ERR_MGR_INVALID_INSTANCE_INFO, None)
      | Some i \<Rightarrow> (case m i of (r, i) \<Rightarrow> (r, Some i)))"

section \<open>Creation\<close>

text \<open>The callbacks and the options are copied; without callbacks, or with an undefined encoding, nothing is.\<close>

definition smlSetCallbacks ::
  "bool \<Rightarrow> ('e, 'd) InstanceInfo_t \<Rightarrow> 'z heap_scheme \<Rightarrow> (int \<times> ('e, 'd) InstanceInfo_t) \<times> 'z heap_scheme" where
  "smlSetCallbacks pCallbacks i h =
     (if \<not> pCallbacks then ((SML_ERR_WRONG_USAGE, i), h)
      else case malloc () h of
        (None, h) \<Rightarrow> ((SML_ERR_NOT_ENOUGH_SPACE, i), h)
      | (Some _, h) \<Rightarrow> ((SML_ERR_OK, i\<lparr>has_callbacks := True\<rparr>), h))"

definition setInstanceOptions ::
  "SmlEncoding_t \<Rightarrow> ('e, 'd) InstanceInfo_t \<Rightarrow> 'z heap_scheme \<Rightarrow> (int \<times> ('e, 'd) InstanceInfo_t) \<times> 'z heap_scheme" where
  "setInstanceOptions enc i h =
     (if enc = SML_UNDEF then ((SML_ERR_WRONG_USAGE, i), h)
      else case malloc () h of
        (None, h) \<Rightarrow> ((SML_ERR_NOT_ENOUGH_SPACE, i), h)
      | (Some _, h) \<Rightarrow> ((SML_ERR_OK, i\<lparr>inst_encoding := Some enc\<rparr>), h))"

text \<open>
  The result is the code and the identifier.  \<open>fresh\<close> is what the allocated buffer holds.  The
  structure of the instance is cleared even when it could not be allocated; when the callbacks or the
  options cannot be set the code is still the one of a success.
\<close>

definition smlInitInstance ::
  "(nat \<Rightarrow> 8 word list) \<Rightarrow> bool \<Rightarrow> SmlEncoding_t \<Rightarrow> nat \<Rightarrow> int \<Rightarrow>
     ('z heap_scheme, int \<times> ('e, 'd) InstanceInfo_t option) cmd" where
  "smlInitInstance fresh pCallbacks enc workspaceSize maxOut h =
     (if workspaceSize = 0 then (Val (SML_ERR_WRONG_USAGE, None), h)
      else case malloc () h of
        (None, h) \<Rightarrow> (Ub, h)
      | (Some _, h) \<Rightarrow>
          (let i = \<lparr>instanceBuffer = [], readLocked = False, writeLocked = False, readPointer = 0, writePointer = 0,
             outgoingMsgStart = None, incomingMsgStart = None, maxOutgoingSize = maxOut, has_callbacks = False,
             inst_encoding = None, encoderState = None, decoderState = None\<rparr> in
           case malloc (fresh workspaceSize) h of
             (None, h) \<Rightarrow> (Val (SML_ERR_NOT_ENOUGH_SPACE, Some i), h)
           | (Some b, h) \<Rightarrow>
               (case smlSetCallbacks pCallbacks (i\<lparr>instanceBuffer := b\<rparr>) h of
                  ((rc, i), h) \<Rightarrow>
                    if rc \<noteq> SML_ERR_OK then (Val (SML_ERR_OK, Some i), h)
                    else case setInstanceOptions enc i h of
                      ((_, i), h) \<Rightarrow> (Val (SML_ERR_OK, Some i), h))))"

definition smlTerminateInstance :: "('e, 'd) InstanceInfo_t option \<Rightarrow> int" where
  "smlTerminateInstance pInstanceInfo = 
     (case pInstanceInfo of None \<Rightarrow> SML_ERR_MGR_INVALID_INSTANCE_INFO | Some _ \<Rightarrow> SML_ERR_OK)"

text \<open>The encoding is one of the options, which are dereferenced even where an instance has none.\<close>

definition smlGetEncoding :: "(('e, 'd) InstanceInfo_t, SmlEncoding_t) cmd" where
  "smlGetEncoding i = (case inst_encoding i of None \<Rightarrow> (Ub, i) | Some enc \<Rightarrow> (Val enc, i))"

definition smlSetEncoding :: "SmlEncoding_t \<Rightarrow> (('e, 'd) InstanceInfo_t, unit) cmd" where
  "smlSetEncoding enc i =
     (if enc = SML_UNDEF then (Err SML_ERR_WRONG_USAGE, i)
      else case inst_encoding i of None \<Rightarrow> (Ub, i) | Some _ \<Rightarrow> (Val (), i\<lparr>inst_encoding := Some enc\<rparr>))"

section \<open>The buffer\<close>

definition mgrResetWorkspace :: "('e, 'd) InstanceInfo_t \<Rightarrow> ('e, 'd) InstanceInfo_t" where
  "mgrResetWorkspace i = i\<lparr>readPointer := 0, writePointer := 0, outgoingMsgStart := None, incomingMsgStart := None\<rparr>"

text \<open>The result is the position and the size.\<close>

definition smlLockReadBuffer :: "(('e, 'd) InstanceInfo_t, int \<times> int) cmd" where
  "smlLockReadBuffer i =
     (if readLocked i then (Err SML_ERR_WRONG_USAGE, i)
      else (Val (readPointer i, writePointer i - readPointer i), i\<lparr>readLocked := True\<rparr>))"

definition smlUnlockReadBuffer :: "int \<Rightarrow> (('e, 'd) InstanceInfo_t, unit) cmd" where
  "smlUnlockReadBuffer processedBytes i =
     (if \<not> readLocked i then (Err SML_ERR_WRONG_USAGE, i)
      else if readPointer i + processedBytes > writePointer i then (Err SML_ERR_WRONG_USAGE, i)
      else (Val (), i\<lparr>readPointer := readPointer i + processedBytes, readLocked := False\<rparr>))"

definition smlSetMaxOutgoingSize :: "int \<Rightarrow> (('e, 'd) InstanceInfo_t, unit) cmd" where
  "smlSetMaxOutgoingSize n i = (Val (), i\<lparr>maxOutgoingSize := n\<rparr>)"

definition smlSetOutgoingBegin :: "(('e, 'd) InstanceInfo_t, unit) cmd" where
  "smlSetOutgoingBegin i = (Val (), i\<lparr>outgoingMsgStart := Some (writePointer i)\<rparr>)"

definition smlReadOutgoingAgain :: "(('e, 'd) InstanceInfo_t, unit) cmd" where
  "smlReadOutgoingAgain i =
     (case outgoingMsgStart i of
        None \<Rightarrow> (Err SML_ERR_WRONG_USAGE, i)
      | Some p \<Rightarrow> (Val (), i\<lparr>readPointer := p\<rparr>))"

text \<open>The test of the read pointer against null never fires: an instance has a buffer.\<close>

definition smlPeekMessageBuffer :: "bool \<Rightarrow> (('e, 'd) InstanceInfo_t, int \<times> int) cmd" where
  "smlPeekMessageBuffer outgoing i =
     (case (if outgoing then outgoingMsgStart i
            else case incomingMsgStart i of Some p \<Rightarrow> Some p | None \<Rightarrow> Some (readPointer i)) of
        None \<Rightarrow> (Err SML_ERR_WRONG_USAGE, i)
      | Some message \<Rightarrow>
          if message \<ge> writePointer i then (Err SML_ERR_WRONG_USAGE, i)
          else (Val (message, writePointer i - message), i))"

text \<open>A buffer with nothing to read is reset; the start of an outgoing message moves with the write pointer.\<close>

definition reset_empty :: "('e, 'd) InstanceInfo_t \<Rightarrow> ('e, 'd) InstanceInfo_t" where
  "reset_empty i =
     (if readPointer i = writePointer i then
        (let ogs = (outgoingMsgStart i = Some (writePointer i)); i = mgrResetWorkspace i in
         if ogs then i\<lparr>outgoingMsgStart := Some (writePointer i)\<rparr> else i)
      else i)"

definition free_size :: "('e, 'd) InstanceInfo_t \<Rightarrow> int" where
  "free_size i =
     (case outgoingMsgStart i of
        None \<Rightarrow> instanceBufSiz i - writePointer i
      | Some start \<Rightarrow>
          if maxOutgoingSize i \<noteq> 0 \<and> start < writePointer i then
            (let freeSize = maxOutgoingSize i - (writePointer i - start) in
             if writePointer i + freeSize > instanceBufSiz i then instanceBufSiz i - writePointer i else freeSize)
          else instanceBufSiz i - writePointer i)"

definition smlLockWriteBuffer :: "(('e, 'd) InstanceInfo_t, int \<times> int) cmd" where
  "smlLockWriteBuffer i =
     (if writeLocked i then (Err SML_ERR_WRONG_USAGE, i)
      else let i = reset_empty i in (Val (writePointer i, free_size i), i\<lparr>writeLocked := True\<rparr>))"

definition smlUnlockWriteBuffer :: "int \<Rightarrow> (('e, 'd) InstanceInfo_t, unit) cmd" where
  "smlUnlockWriteBuffer writtenBytes i =
     (if \<not> writeLocked i then (Err SML_ERR_WRONG_USAGE, i)
      else if writtenBytes > 0 \<and> writePointer i + writtenBytes > instanceBufSiz i then (Err SML_ERR_WRONG_USAGE, i)
      else
        (Val (), i\<lparr>writePointer := writePointer i + (if writtenBytes > 0 then writtenBytes else 0),
                   writeLocked := False\<rparr>))"

text \<open>What a caller copies into the buffer and out of it: outside of the buffer the access is undefined.\<close>

definition in_buffer :: "int \<Rightarrow> int \<Rightarrow> ('e, 'd) InstanceInfo_t \<Rightarrow> bool" where
  "in_buffer p n i \<longleftrightarrow> 0 \<le> p \<and> 0 \<le> n \<and> p + n \<le> instanceBufSiz i"

definition put_bytes :: "int \<Rightarrow> 8 word list \<Rightarrow> (('e, 'd) InstanceInfo_t, unit) cmd" where
  "put_bytes p bs i =
     (if in_buffer p (int (length bs)) i
      then (Val (), i\<lparr>instanceBuffer := take (nat p) (instanceBuffer i) @ bs @
                        drop (nat p + length bs) (instanceBuffer i)\<rparr>)
      else (Ub, i))"

definition get_bytes :: "int \<Rightarrow> int \<Rightarrow> (('e, 'd) InstanceInfo_t, 8 word list) cmd" where
  "get_bytes p n i =
     (if in_buffer p n i then (Val (take (nat n) (drop (nat p) (instanceBuffer i))), i) else (Ub, i))"

section \<open>The buffer as a queue of bytes\<close>

text \<open>What is to be read, and whether the pointers are in order.\<close>

definition unread :: "('e, 'd) InstanceInfo_t \<Rightarrow> 8 word list" where
  "unread i = take (nat (writePointer i - readPointer i)) (drop (nat (readPointer i)) (instanceBuffer i))"

definition well_placed :: "('e, 'd) InstanceInfo_t \<Rightarrow> bool" where
  "well_placed i \<longleftrightarrow> 0 \<le> readPointer i \<and> readPointer i \<le> writePointer i \<and> writePointer i \<le> instanceBufSiz i \<and>
     pred_option (\<lambda>p. 0 \<le> p \<and> p \<le> writePointer i) (outgoingMsgStart i) \<and>
     pred_option (\<lambda>p. 0 \<le> p \<and> p \<le> writePointer i) (incomingMsgStart i)"

lemmas buffer_defs = smlLockReadBuffer_def smlUnlockReadBuffer_def smlLockWriteBuffer_def smlUnlockWriteBuffer_def
  reset_empty_def mgrResetWorkspace_def put_bytes_def get_bytes_def in_buffer_def instanceBufSiz_def Let_def

lemma length_unread: "well_placed i \<Longrightarrow> int (length (unread i)) = writePointer i - readPointer i"
  by (auto simp: unread_def well_placed_def instanceBufSiz_def)

text \<open>Every operation that is given no negative count keeps the pointers in order.\<close>

lemma keeps_well_placed:
  "keeps well_placed smlLockReadBuffer" "0 \<le> n \<Longrightarrow> keeps well_placed (smlUnlockReadBuffer n)"
  "keeps well_placed (smlSetMaxOutgoingSize m)" "keeps well_placed smlSetOutgoingBegin"
  "keeps well_placed smlReadOutgoingAgain" "keeps well_placed (smlPeekMessageBuffer b)"
  "keeps well_placed smlLockWriteBuffer" "keeps well_placed (smlUnlockWriteBuffer n)"
  "keeps well_placed (put_bytes p bs)" "keeps well_placed (get_bytes p n)"
  by (auto simp: keeps_def buffer_defs well_placed_def smlSetMaxOutgoingSize_def smlSetOutgoingBegin_def
      smlReadOutgoingAgain_def smlPeekMessageBuffer_def pred_option_def split: option.split)

definition open_for_write :: "('e, 'd) InstanceInfo_t \<Rightarrow> bool" where
  "open_for_write i \<longleftrightarrow> well_placed i \<and> \<not> writeLocked i \<and> \<not> readLocked i \<and> maxOutgoingSize i = 0"

text \<open>A caller that writes into the buffer, and one that takes what is in it.\<close>

definition send_bytes :: "8 word list \<Rightarrow> (('e, 'd) InstanceInfo_t, unit) cmd" where
  "send_bytes bs =
     DMC_FAIL smlLockWriteBuffer (\<lambda>(p, n).
     DMC_FAIL (put_bytes p bs) (\<lambda>_. smlUnlockWriteBuffer (int (length bs))))"

definition take_bytes :: "(('e, 'd) InstanceInfo_t, 8 word list) cmd" where
  "take_bytes =
     DMC_FAIL smlLockReadBuffer (\<lambda>(p, n).
     DMC_FAIL (get_bytes p n) (\<lambda>bs.
     DMC_FAIL (smlUnlockReadBuffer n) (\<lambda>_. ret bs)))"

definition room :: "('e, 'd) InstanceInfo_t \<Rightarrow> int" where
  "room i = instanceBufSiz i - (if readPointer i = writePointer i then 0 else writePointer i)"

lemma unread_empty: "well_placed i \<Longrightarrow> readPointer i = writePointer i \<longleftrightarrow> unread i = []"
  using length_unread [of i] by auto

lemma unread_at:
  "writePointer i = int w \<Longrightarrow> readPointer i = int r \<Longrightarrow> unread i = take (w - r) (drop r (instanceBuffer i))"
  by (simp add: unread_def nat_diff_distrib')

text \<open>The buffer after a write: \<open>bs\<close> comes after what is there, from the start where nothing is.\<close>

definition appended :: "8 word list \<Rightarrow> ('e, 'd) InstanceInfo_t \<Rightarrow> ('e, 'd) InstanceInfo_t" where
  "appended bs i =
     (let k = reset_empty i; w = nat (writePointer k) in
      k\<lparr>instanceBuffer := take w (instanceBuffer k) @ bs @ drop (w + length bs) (instanceBuffer k),
        writePointer := writePointer k + int (length bs), writeLocked := False\<rparr>)"

lemma reset_empty_facts:
  assumes "open_for_write i"
  shows "well_placed (reset_empty i)" "instanceBuffer (reset_empty i) = instanceBuffer i"
    "unread (reset_empty i) = unread i" "room i = instanceBufSiz (reset_empty i) - writePointer (reset_empty i)"
    "readPointer (reset_empty i) = writePointer (reset_empty i) \<longrightarrow> writePointer (reset_empty i) = 0"
    "writeLocked (reset_empty i) = False" "readLocked (reset_empty i) = False" "maxOutgoingSize (reset_empty i) = 0"
  using assms
  by (auto simp: open_for_write_def well_placed_def reset_empty_def mgrResetWorkspace_def Let_def unread_def room_def
      instanceBufSiz_def)

lemma write_steps:
  assumes "open_for_write i" and "int (length bs) \<le> room i"
  defines "k \<equiv> reset_empty i"
  shows "smlLockWriteBuffer i = (Val (writePointer k, room i), k\<lparr>writeLocked := True\<rparr>)"
    and "put_bytes (writePointer k) bs (k\<lparr>writeLocked := True\<rparr>) =
      (Val (), (appended bs i)\<lparr>writePointer := writePointer k, writeLocked := True\<rparr>)"
    and "smlUnlockWriteBuffer (int (length bs)) ((appended bs i)\<lparr>writePointer := writePointer k, writeLocked := True\<rparr>) =
      (Val (), appended bs i)"
proof -
  note k = reset_empty_facts [OF assms(1), folded k_def]
  have w: "0 \<le> writePointer k" using k(1) by (auto simp: well_placed_def)
  have n: "nat (writePointer k) + length bs \<le> length (instanceBuffer k)"
    using assms(2) k(4) w by (simp add: instanceBufSiz_def)
  have m: "writePointer k + int (length bs) \<le> int (length (instanceBuffer k))"
    using assms(2) k(4) by (simp add: instanceBufSiz_def)
  have f: "free_size k = room i" using k(4,8) by (simp add: free_size_def split: option.split)
  show "smlLockWriteBuffer i = (Val (writePointer k, room i), k\<lparr>writeLocked := True\<rparr>)"
    using assms(1) f by (simp add: smlLockWriteBuffer_def Let_def open_for_write_def k_def)
  show "put_bytes (writePointer k) bs (k\<lparr>writeLocked := True\<rparr>) =
      (Val (), (appended bs i)\<lparr>writePointer := writePointer k, writeLocked := True\<rparr>)"
    using w n by (simp add: put_bytes_def in_buffer_def instanceBufSiz_def appended_def Let_def k_def)
  show "smlUnlockWriteBuffer (int (length bs)) ((appended bs i)\<lparr>writePointer := writePointer k, writeLocked := True\<rparr>) =
      (Val (), appended bs i)"
    using w n m by (simp add: smlUnlockWriteBuffer_def appended_def Let_def k_def [symmetric] instanceBufSiz_def)
qed

lemma appended_facts:
  assumes "open_for_write i" and "int (length bs) \<le> room i"
  shows "open_for_write (appended bs i)" and "unread (appended bs i) = unread i @ bs"
    and "room (appended bs i) = room i - int (length bs)"
proof -
  let ?k = "reset_empty i" and ?j = "appended bs i"
  note k = reset_empty_facts [OF assms(1)]
  obtain w where w: "writePointer ?k = int w" using k(1) by (metis well_placed_def nonneg_int_cases order_trans)
  obtain r where r: "readPointer ?k = int r" using k(1) by (metis well_placed_def nonneg_int_cases)
  have le: "r \<le> w" "w + length bs \<le> length (instanceBuffer ?k)"
    using k(1,4) assms(2) w r by (auto simp: well_placed_def instanceBufSiz_def)
  let ?b = "take w (instanceBuffer ?k) @ bs @ drop (w + length bs) (instanceBuffer ?k)"
  have j: "?j = ?k\<lparr>instanceBuffer := ?b, writePointer := int (w + length bs), writeLocked := False\<rparr>"
    by (simp add: appended_def Let_def w)
  have "unread ?j = take (w + length bs - r) (drop r ?b)"
    using r by (simp add: j unread_at [where w = "w + length bs" and r = r])
  also have "\<dots> = take (w - r) (drop r (instanceBuffer ?k)) @ bs"
    using le by (simp add: drop_take)
  also have "take (w - r) (drop r (instanceBuffer ?k)) = unread i"
    using unread_at [OF w r] k(3) by simp
  finally show "unread ?j = unread i @ bs" .
  show "open_for_write ?j"
    using k le w r by (auto simp: j open_for_write_def well_placed_def instanceBufSiz_def pred_option_def)
  show "room ?j = room i - int (length bs)"
    using k le w r by (auto simp: j room_def instanceBufSiz_def)
qed

lemma send_bytes_spec:
  assumes "open_for_write i" and "int (length bs) \<le> room i"
  shows "send_bytes bs i = (Val (), appended bs i)"
  using write_steps [OF assms] by (simp add: send_bytes_def DMC_FAIL_def)

lemma take_bytes_spec:
  assumes "open_for_write i"
  shows "\<exists>j. take_bytes i = (Val (unread i), j) \<and> open_for_write j \<and> unread j = [] \<and> room i \<le> room j"
  using assms
  by (auto simp: take_bytes_def DMC_FAIL_def smlLockReadBuffer_def get_bytes_def in_buffer_def smlUnlockReadBuffer_def
      open_for_write_def well_placed_def instanceBufSiz_def unread_def room_def ret_def)

section \<open>A queue of bytes\<close>

text \<open>
  The contract: what is written comes after what is there, a reader takes all, and a writer that
  stays within the room is not refused.
\<close>

locale byte_queue =
  fixes sound :: "'s \<Rightarrow> bool" and content :: "'s \<Rightarrow> 8 word list" and space :: "'s \<Rightarrow> int"
    and put :: "8 word list \<Rightarrow> ('s, unit) cmd" and get :: "('s, 8 word list) cmd"
  assumes put: "sound s \<Longrightarrow> int (length bs) \<le> space s \<Longrightarrow>
      \<exists>t. put bs s = (Val (), t) \<and> sound t \<and> content t = content s @ bs \<and> space t = space s - int (length bs)"
    and get: "sound s \<Longrightarrow> \<exists>t. get s = (Val (content s), t) \<and> sound t \<and> content t = [] \<and> space s \<le> space t"
begin

fun put_all :: "8 word list list \<Rightarrow> ('s, unit) cmd" where
  "put_all [] = ret ()"
| "put_all (bs # bss) = DMC_FAIL (put bs) (\<lambda>_. put_all bss)"

lemma put_all_spec:
  "sound s \<Longrightarrow> int (length (concat bss)) \<le> space s \<Longrightarrow>
     \<exists>t. put_all bss s = (Val (), t) \<and> sound t \<and> content t = content s @ concat bss \<and>
       space t = space s - int (length (concat bss))"
proof (induction bss arbitrary: s)
  case (Cons bs bss)
  then obtain t where t: "put bs s = (Val (), t)" "sound t" "content t = content s @ bs"
    "space t = space s - int (length bs)"
    using put [of s bs] by auto
  then obtain u where "put_all bss t = (Val (), u)" "sound u" "content u = content t @ concat bss"
    "space u = space t - int (length (concat bss))"
    using Cons.IH [of t] Cons.prems(2) by auto
  then show ?case using t by (auto simp: DMC_FAIL_def)
qed (simp add: ret_def)

lemma through:
  assumes "sound s" and "content s = []" and "int (length (concat bss)) \<le> space s"
  shows "\<exists>t. DMC_FAIL (put_all bss) (\<lambda>_. get) s = (Val (concat bss), t) \<and> sound t \<and> content t = []"
proof -
  obtain t where "put_all bss s = (Val (), t)" "sound t" "content t = concat bss"
    using put_all_spec [OF assms(1,3)] assms(2) by auto
  then show ?thesis using get [of t] by (auto simp: DMC_FAIL_def)
qed

end

interpretation buffer: byte_queue open_for_write unread room send_bytes take_bytes
  by unfold_locales (use send_bytes_spec appended_facts in blast, rule take_bytes_spec)

end
