(* ===== verification/Callbacks.thy ===== *)
theory Callbacks
  imports Tree_Cmds Workspace
begin

text \<open>
  The callbacks the library registers with the toolkit (\<^verbatim>\<open>dmcore/src/callbacks.c\<close>): one per
  element of a received message.  Each returns a code of the toolkit and leaves its answers in the
  list of elements to send.
\<close>

section \<open>Received elements\<close>

text \<open>The fields the callbacks read of the header of a message and of a status.\<close>

record sml_sync_hdr =
  hd_msgID :: "pcdata option"
  hd_target :: "pcdata option option"
  hd_source :: "pcdata option option"
  hd_respURI :: "pcdata option"
  hd_cred :: "sml_cred option"

text \<open>A challenge is a pointer to its meta information.\<close>

record received_status =
  rx_cmdRef :: "pcdata option"
  rx_msgRef :: "pcdata option"
  rx_data :: "pcdata option"
  rx_chal :: "pcdata option option"

section \<open>Sequences and authentication\<close>

text \<open>The tests at the head of the callbacks for commands.\<close>

definition skipped :: "('w, 'z) internals_t_scheme \<Rightarrow> bool" where
  "skipped s \<longleftrightarrow> sequence s \<noteq> Null \<and> seq_code s \<noteq> OMADM_SYNCML_ERROR_NOT_MODIFIED \<and> seq_code s \<noteq> OMADM_SYNCML_ERROR_SUCCESS"

definition aborted :: "('w, 'z) internals_t_scheme \<Rightarrow> bool" where
  "aborted s \<longleftrightarrow> sequence s \<noteq> Null \<and> seq_code s = OMADM_SYNCML_ERROR_NOT_MODIFIED"

text \<open>
  A command that is neither skipped nor from a server that is not authenticated goes on with
  \<open>treat\<close>; the others are answered here, if at all.
\<close>

definition answer :: "int \<Rightarrow> SmlProtoElement_t \<times> pcdata option \<Rightarrow> (('w, 'z) internals_t_scheme, unit) cmd" where
  "answer code command =
     DMC_FAIL (create_status code (Some command)) (\<lambda>statusP. add_element (new_element (Status statusP)))"

definition if_accepted ::
  "SmlProtoElement_t \<times> pcdata option \<Rightarrow> (('w, 'z) internals_t_scheme, int) cmd \<Rightarrow>
     (('w, 'z) internals_t_scheme, int) cmd" where
  "if_accepted command treat s =
     (if skipped s then (Val SML_ERR_OK, s)
      else if srv_auth s \<noteq> OMADM_SYNCML_ERROR_AUTHENTICATION_ACCEPTED
      then DMC_FAIL (answer (srv_auth s) command) (\<lambda>_. ret SML_ERR_OK) s
      else treat s)"

text \<open>The status of one item of a command; a null item is dereferenced.\<close>

definition answer_item ::
  "int \<Rightarrow> SmlProtoElement_t \<times> pcdata option \<Rightarrow> sml_item option \<Rightarrow> (('w, 'z) internals_t_scheme, unit) cmd" where
  "answer_item code command item =
     DMC_FAIL (create_status code (Some command)) (\<lambda>statusP.
     case item of
       None \<Rightarrow> lift Ub
     | Some it \<Rightarrow>
         DMC_FAIL (add_target_ref statusP (it_target it)) (\<lambda>statusP.
         add_element (new_element (Status statusP))))"

section \<open>Commands\<close>

definition do_item ::
  "SmlProtoElement_t \<Rightarrow> sml_item option \<Rightarrow> (('w, 'z) internals_t_scheme, int) cmd" where
  "do_item type item =
     (case type of
        SML_PE_ADD \<Rightarrow> add_node item
      | SML_PE_COPY \<Rightarrow> copy_node item
      | SML_PE_DELETE \<Rightarrow> delete_node item
      | SML_PE_REPLACE \<Rightarrow> replace_node item
      | _ \<Rightarrow> ret OMADM_SYNCML_ERROR_COMMAND_NOT_IMPLEMENTED)"

text \<open>
  The loops over the items of a command.  A sequence that the user has aborted answers each item
  without treating it.
\<close>

definition unless_aborted ::
  "(('w, 'z) internals_t_scheme, int) cmd \<Rightarrow> (('w, 'z) internals_t_scheme, int) cmd" where
  "unless_aborted treat s = (if aborted s then (Val OMADM_SYNCML_ERROR_NOT_EXECUTED, s) else treat s)"

fun item_loop ::
  "(sml_item option \<Rightarrow> (('w, 'z) internals_t_scheme, int) cmd) \<Rightarrow> SmlProtoElement_t \<times> pcdata option \<Rightarrow>
     sml_items \<Rightarrow> (('w, 'z) internals_t_scheme, unit) cmd" where
  "item_loop treat command [] = ret ()"
| "item_loop treat command (item # next) =
     DMC_FAIL (unless_aborted (treat item)) (\<lambda>code.
     DMC_FAIL (answer_item code command item) (\<lambda>_.
     item_loop treat command next))"

definition prv_do_generic_cmd_cb ::
  "pcdata option \<Rightarrow> sml_generic \<Rightarrow> (('w, 'z) internals_t_scheme, int) cmd" where
  "prv_do_generic_cmd_cb cmdID cmdP =
     if_accepted (gc_type cmdP, cmdID)
       (DMC_FAIL (item_loop (do_item (gc_type cmdP)) (gc_type cmdP, cmdID) (gc_items cmdP)) (\<lambda>_. ret SML_ERR_OK))"

definition prv_exec_cmd_cb ::
  "pcdata option \<Rightarrow> sml_generic \<Rightarrow> (('w, 'z) internals_t_scheme, int) cmd" where
  "prv_exec_cmd_cb cmdID execP =
     if_accepted (SML_PE_EXEC, cmdID)
       (DMC_FAIL (item_loop (\<lambda>item. exec_node item (gc_correlator execP)) (SML_PE_EXEC, cmdID) (gc_items execP))
         (\<lambda>_. ret SML_ERR_OK))"

text \<open>The items fetched so far are the list of the results, in order.\<close>

definition get_item ::
  "sml_item option \<Rightarrow> sml_items \<Rightarrow> (('w, 'z) internals_t_scheme, int \<times> sml_items) cmd" where
  "get_item item results =
     DMC_FAIL (allocating smlAllocItemList) (\<lambda>newCell.
     case newCell of
       None \<Rightarrow> ret (OMADM_SYNCML_ERROR_COMMAND_FAILED, results)
     | Some newItem \<Rightarrow>
         DMC_FAIL (get_node item newItem) (\<lambda>(code, newItem).
         ret (code, if code = OMADM_SYNCML_ERROR_SUCCESS then results @ [Some newItem] else results)))"

fun get_loop ::
  "SmlProtoElement_t \<times> pcdata option \<Rightarrow> sml_items \<Rightarrow> sml_items \<Rightarrow> (('w, 'z) internals_t_scheme, sml_items) cmd" where
  "get_loop command [] results = ret results"
| "get_loop command (item # next) results =
     DMC_FAIL (\<lambda>s. if aborted s then (Val (OMADM_SYNCML_ERROR_NOT_EXECUTED, results), s)
                   else get_item item results s) (\<lambda>(code, results).
     DMC_FAIL (answer_item code command item) (\<lambda>_.
     get_loop command next results))"

text \<open>The results are allocated first, and their identifiers filled in; without items they are dropped.\<close>

definition treat_get ::
  "pcdata option \<Rightarrow> sml_items \<Rightarrow> (('w, 'z) internals_t_scheme, int) cmd" where
  "treat_get cmdID itemList =
     DMC_FAIL (allocating smlAllocResults) (\<lambda>resultP.
     case resultP of
       None \<Rightarrow> ret SML_ERR_NOT_ENOUGH_SPACE
     | Some resultP \<Rightarrow>
         DMC_FAIL (case cmdID of None \<Rightarrow> lift Ub | Some i \<Rightarrow> set_pcdata_pcdata i) (\<lambda>cmdRef.
         DMC_FAIL (\<lambda>s. allocating (smlString2Pcdata (reply_ref s)) s) (\<lambda>msgRef.
         DMC_FAIL (get_loop (SML_PE_GET, cmdID) itemList []) (\<lambda>results.
         DMC_FAIL (if results = [] then ret ()
                   else add_element (new_element (Results
                     (resultP\<lparr>rs_cmdRef := cmdRef, rs_msgRef := msgRef, rs_items := results\<rparr>)))) (\<lambda>_.
         ret SML_ERR_OK)))))"

definition prv_get_cmd_cb ::
  "pcdata option \<Rightarrow> sml_items \<Rightarrow> (('w, 'z) internals_t_scheme, int) cmd" where
  "prv_get_cmd_cb cmdID itemList = if_accepted (SML_PE_GET, cmdID) (treat_get cmdID itemList)"

section \<open>Start and end of messages, sequences and atomic commands\<close>

text \<open>
  The credentials of the header are checked against the account, which is dereferenced even when
  it has no credentials; the challenge replaces the stored nonce.
\<close>

definition check_header_cred ::
  "byte list \<Rightarrow> byte list \<Rightarrow> sml_cred option \<Rightarrow> (('w, 'z) internals_t_scheme, pcdata option) cmd" where
  "check_header_cred junk nonce cred s =
     (case cred of
        None \<Rightarrow> (Val None, s)
      | Some credP \<Rightarrow>
          (case account s of
             None \<Rightarrow> (Ub, s)
           | Some a \<Rightarrow>
               DMC_FAIL (check_credentials junk credP (toClientCred a)) (\<lambda>code s.
               DMC_FAIL (get_challenge nonce (toClientCred a)) (\<lambda>(challengeP, authP).
               DMC_FAIL (set_account (\<lambda>a. a\<lparr>toClientCred := Some authP\<rparr>)) (\<lambda>_.
               DMC_FAIL (store_nonce False) (\<lambda>_.
               ret challengeP))) (s\<lparr>srv_auth := code\<rparr>)) s))"

definition prv_start_message_cb ::
  "byte list \<Rightarrow> byte list \<Rightarrow> sml_sync_hdr \<Rightarrow> (('w, 'z) internals_t_scheme, int) cmd" where
  "prv_start_message_cb junk nonce headerP s =
     DMC_FAIL (smlPcdata2String (hd_msgID headerP)) (\<lambda>reply s.
     DMC_FAIL (check_header_cred junk nonce (hd_cred headerP)) (\<lambda>challengeP.
     DMC_FAIL (smlPcdata2String (hd_respURI headerP)) (\<lambda>dataStr.
     DMC_FAIL (case dataStr of None \<Rightarrow> ret () | Some uri \<Rightarrow> set_new_uri uri) (\<lambda>_ s.
     DMC_FAIL (create_status (srv_auth s) None) (\<lambda>statusP.
     DMC_FAIL (add_target_ref (statusP\<lparr>st_chal := challengeP\<rparr>) (hd_target headerP)) (\<lambda>statusP.
     DMC_FAIL (add_source_ref statusP (hd_source headerP)) (\<lambda>statusP.
     DMC_FAIL (add_element (new_element (Status statusP))) (\<lambda>_.
     ret SML_ERR_OK)))) s))) (s\<lparr>reply_ref := reply\<rparr>)) (s\<lparr>sequence := Null, seq_code := 0\<rparr>)"

definition prv_end_message_cb :: "(('w, 'z) internals_t_scheme, int) cmd" where
  "prv_end_message_cb = ret SML_ERR_OK"

definition prv_start_atomic_cb :: "pcdata option \<Rightarrow> (('w, 'z) internals_t_scheme, int) cmd" where
  "prv_start_atomic_cb cmdID s =
     (if srv_auth s \<noteq> OMADM_SYNCML_ERROR_AUTHENTICATION_ACCEPTED
      then DMC_FAIL (answer (srv_auth s) (SML_PE_ATOMIC_START, cmdID)) (\<lambda>_. ret SML_ERR_OK) s
      else (Val SML_ERR_OK, s))"

definition prv_end_atomic_cb :: "(('w, 'z) internals_t_scheme, int) cmd" where
  "prv_end_atomic_cb = ret SML_ERR_OK"

text \<open>
  The start of the sequence is kept and then freed through the parameter, which is the same pointer;
  the end of the sequence makes its status from what is kept.
\<close>

definition prv_start_sequence_cb :: "pcdata option \<Rightarrow> (('w, 'z) internals_t_scheme, int) cmd" where
  "prv_start_sequence_cb cmdID s =
     (let s = s\<lparr>sequence := Live cmdID,
            seq_code := (if srv_auth s = OMADM_SYNCML_ERROR_AUTHENTICATION_ACCEPTED
                         then OMADM_SYNCML_ERROR_SUCCESS else srv_auth s)\<rparr> in
      (Val SML_ERR_OK, s\<lparr>sequence := release (sequence s)\<rparr>))"

definition prv_end_sequence_cb :: "(('w, 'z) internals_t_scheme, int) cmd" where
  "prv_end_sequence_cb s =
     DMC_FAIL (lift (read_pointer (sequence s))) (\<lambda>sequenceP.
     DMC_FAIL (create_status (seq_code s) (map_option (Pair SML_PE_SEQUENCE_START) sequenceP)) (\<lambda>statusP.
     DMC_FAIL (add_element (new_element (Status statusP))) (\<lambda>_ s.
     (Val SML_ERR_OK, s\<lparr>sequence := Null, seq_code := 0\<rparr>)))) s"

section \<open>Alerts\<close>

text \<open>
  The call of the user interface.  The buffer has room for \<open>max_resp_len\<close> characters and a
  terminator; the sum of the two is an \<^verbatim>\<open>int\<close>, and a negative size is one no allocation
  provides.  The result is the code, the request and the answer; a request that could not be made
  leaves the last two null.
\<close>

definition alloc_answer :: "32 word \<Rightarrow> ('z heap_scheme, unit option) cmd" where
  "alloc_answer n =
     (if sint n = INT_MAX then lift Ub
      else if sint n + 1 < 0 then ret None
      else allocating (malloc ()))"

definition ask_user ::
  "sml_alert \<Rightarrow> (dmclt_ui_t \<Rightarrow> 'w \<Rightarrow> (int \<times> string option) \<times> 'w) \<Rightarrow>
     (('w, 'z) internals_t_scheme, int \<times> dmclt_ui_t option \<times> string option) cmd" where
  "ask_user alertP cb =
     DMC_FAIL (get_ui_from_sml (Some alertP)) (\<lambda>dmcAlertP.
     case dmcAlertP of
       None \<Rightarrow> ret (OMADM_SYNCML_ERROR_COMMAND_FAILED, None, None)
     | Some ui \<Rightarrow>
         DMC_FAIL (alloc_answer (max_resp_len ui)) (\<lambda>buffer.
         case buffer of
           None \<Rightarrow> ret (OMADM_SYNCML_ERROR_COMMAND_FAILED, Some ui, None)
         | Some _ \<Rightarrow>
             DMC_FAIL (allocating (on_world (cb ui))) (\<lambda>(code, reply) s.
             if (case reply of None \<Rightarrow> False | Some r \<Rightarrow> int (length r) > sint (max_resp_len ui)) then (Ub, s)
             else
               (Val (code, Some ui, reply),
                if sequence s \<noteq> Null \<and> ui_type ui = DMCLT_UI_TYPE_CONFIRM then s\<lparr>seq_code := code\<rparr> else s))))"

definition treat_alert ::
  "sml_alert \<Rightarrow> (('w, 'z) internals_t_scheme, int \<times> dmclt_ui_t option \<times> string option) cmd" where
  "treat_alert alertP s =
     (if aborted s then (Val (OMADM_SYNCML_ERROR_NOT_EXECUTED, None, None), s)
      else if srv_auth s \<noteq> OMADM_SYNCML_ERROR_AUTHENTICATION_ACCEPTED then (Val (srv_auth s, None, None), s)
      else case alert_cb s of
        None \<Rightarrow> (Val (OMADM_SYNCML_ERROR_OPTIONAL_FEATURE_NOT_SUPPORTED, None, None), s)
      | Some cb \<Rightarrow> ask_user alertP cb s)"

definition wants_input :: "dmclt_ui_type_t \<Rightarrow> bool" where
  "wants_input t \<longleftrightarrow>
     t = DMCLT_UI_TYPE_USER_INPUT \<or> t = DMCLT_UI_TYPE_USER_CHOICE \<or> t = DMCLT_UI_TYPE_USER_MULTICHOICE"

text \<open>
  The answer goes into the status of a successful request for input.  With the code of a success
  the request is dereferenced; a buffer the callback has not written is read.
\<close>

definition add_reply ::
  "int \<Rightarrow> dmclt_ui_t option \<Rightarrow> string option \<Rightarrow> sml_status \<Rightarrow> ('z heap_scheme, sml_status) cmd" where
  "add_reply code dmcAlertP reply statusP =
     (if code \<noteq> OMADM_SYNCML_ERROR_SUCCESS then ret statusP
      else case dmcAlertP of
        None \<Rightarrow> lift Ub
      | Some ui \<Rightarrow>
          if \<not> wants_input (ui_type ui) then ret statusP
          else
            DMC_FAIL (allocating smlAllocItemList) (\<lambda>l.
            case l of
              None \<Rightarrow> ret statusP
            | Some it \<Rightarrow>
                (case reply of
                   None \<Rightarrow> lift Ub
                 | Some r \<Rightarrow>
                     DMC_FAIL (allocating (smlString2Pcdata (Some r))) (\<lambda>d.
                     ret (statusP\<lparr>st_items := [Some (it\<lparr>it_data := d\<rparr>)]\<rparr>)))))"

definition prv_alert_cmd_cb ::
  "pcdata option \<Rightarrow> sml_alert \<Rightarrow> (('w, 'z) internals_t_scheme, int) cmd" where
  "prv_alert_cmd_cb cmdID alertP s =
     (if skipped s then (Val SML_ERR_OK, s)
      else
        DMC_FAIL (treat_alert alertP) (\<lambda>(code, dmcAlertP, reply).
        DMC_FAIL (create_status code (Some (SML_PE_ALERT, cmdID))) (\<lambda>statusP.
        DMC_FAIL (add_reply code dmcAlertP reply statusP) (\<lambda>statusP.
        DMC_FAIL (add_element (new_element (Status statusP))) (\<lambda>_.
        DMC_FAIL (case dmcAlertP of None \<Rightarrow> ret () | Some ui \<Rightarrow> lift (free_dmclt_alert ui)) (\<lambda>_.
        ret SML_ERR_OK))))) s)"

section \<open>Statuses\<close>

text \<open>A status of a command: what happens to the cell that waits for it.\<close>

definition command_status :: "32 word \<Rightarrow> string \<Rightarrow> string \<Rightarrow> (('w, 'z) internals_t_scheme, unit) cmd" where
  "command_status code cmdRef msgRef =
     DMC_FAIL (retrieve_element cmdRef msgRef) (\<lambda>cellP.
     case cellP of
       None \<Rightarrow> ret ()
     | Some c \<Rightarrow>
         if sint code = OMADM_SYNCML_ERROR_IN_PROGRESS then put_back_element c
         else if sint code = OMADM_SYNCML_ERROR_INVALID_CREDENTIALS \<or>
                 sint code = OMADM_SYNCML_ERROR_MISSING_CREDENTIALS then add_element (element c)
         else ret ())"

text \<open>
  A challenge for the client: its type and nonce become those of the credentials for the server,
  whose old nonce is freed.
\<close>

definition take_challenge :: "pcdata option \<Rightarrow> (('w, 'z) internals_t_scheme, unit) cmd" where
  "take_challenge meta =
     DMC_FAIL (get_from_chal_meta meta True) (\<lambda>(type, newNonce) s.
     if type = DMCLT_AUTH_TYPE_UNKNOWN then (Val (), s)
     else case account s of
       None \<Rightarrow> (Ub, s)
     | Some a \<Rightarrow>
         (case toServerCred a of
            None \<Rightarrow> (Ub, s)
          | Some cred \<Rightarrow>
              DMC_FAIL (lift (read_field (ad_data cred))) (\<lambda>_.
              DMC_FAIL (set_account (\<lambda>a. a\<lparr>toServerCred :=
                  Some (cred\<lparr>ad_type := Is type, ad_data := Is newNonce\<rparr>)\<rparr>)) (\<lambda>_.
              store_nonce True)) s))"

definition header_status :: "32 word \<Rightarrow> pcdata option option \<Rightarrow> (('w, 'z) internals_t_scheme, unit) cmd" where
  "header_status code chal s =
     (case chal of None \<Rightarrow> ret () | Some meta \<Rightarrow> take_challenge meta) (s\<lparr>clt_auth := sint code\<rparr>)"

definition prv_status_cmd_cb :: "received_status \<Rightarrow> (('w, 'z) internals_t_scheme, int) cmd" where
  "prv_status_cmd_cb statusP =
     DMC_FAIL (smlPcdata2String (rx_cmdRef statusP)) (\<lambda>cmdRef.
     case cmdRef of
       None \<Rightarrow> ret SML_ERR_WRONG_PARAM
     | Some cmdRef \<Rightarrow>
         DMC_FAIL (smlPcdata2String (rx_msgRef statusP)) (\<lambda>msgRef.
         case msgRef of
           None \<Rightarrow> ret SML_ERR_WRONG_PARAM
         | Some msgRef \<Rightarrow>
             DMC_FAIL (pcdata_to_int (rx_data statusP)) (\<lambda>code.
             DMC_FAIL (if cmdRef \<noteq> ''0'' then command_status code cmdRef msgRef
                       else header_status code (rx_chal statusP)) (\<lambda>_.
             ret SML_ERR_OK))))"

definition prv_handle_error_cb :: "(('w, 'z) internals_t_scheme, int) cmd" where
  "prv_handle_error_cb = ret SML_ERR_OK"

definition prv_transmit_chunk_cb :: "(('w, 'z) internals_t_scheme, int) cmd" where
  "prv_transmit_chunk_cb = ret SML_ERR_OK"

section \<open>Commands that are not treated\<close>

text \<open>\<open>calm e s\<close>: since \<open>e\<close> only statuses were added to those to send, and memory was drawn.\<close>

definition calm :: "('w, 'z) internals_t_scheme \<Rightarrow> ('w, 'z) internals_t_scheme \<Rightarrow> bool" where
  "calm e s \<longleftrightarrow> (\<exists>l m. s = e\<lparr>elem_list := l, mem := m\<rparr>)"

lemma calm_refl [simp]: "calm s s"
  unfolding calm_def by (rule exI [of _ "elem_list s"], rule exI [of _ "mem s"]) simp

lemma calm_intro: "s = e\<lparr>elem_list := l, mem := m\<rparr> \<Longrightarrow> calm e s"
  unfolding calm_def by blast

lemma calm_trans: "calm a b \<Longrightarrow> calm b c \<Longrightarrow> calm a c"
  unfolding calm_def by (elim exE) (simp, blast)

lemma calmD:
  assumes "calm e s"
  shows "world s = world e" "MOs s = MOs e" "account s = account e" "old_elem s = old_elem e"
    "reply_ref s = reply_ref e" "srv_auth s = srv_auth e" "clt_auth s = clt_auth e" "alert_cb s = alert_cb e"
    "sequence s = sequence e" "seq_code s = seq_code e" "session_state s = session_state e"
  using assms by (auto simp: calm_def)

lemma drawn_calm: "drawn s t \<Longrightarrow> calm s t"
  unfolding drawn_def calm_def
  by (rule exI [of _ "elem_list s"], rule exI [of _ "mem t"]) (cases s; cases t; simp)

lemma keeps_calm_drawn: "(\<And>e. keeps (drawn e) m) \<Longrightarrow> keeps (calm e) m"
  by (erule drawn_keeps) (metis drawn_calm calm_trans)

lemma drawn_create_status [keeps_rules]: "keeps (drawn e) (create_status c p)"
  unfolding create_status_def by (intro keeps_rules)

lemma drawn_add_refs [keeps_rules]: "keeps (drawn e) (add_target_ref st t)" "keeps (drawn e) (add_source_ref st t)"
  unfolding add_target_ref_def add_source_ref_def by (intro keeps_rules)+

lemma calm_add_element: "keeps (calm e) (add_element el)"
proof (rule keepsI)
  fix s assume s: "calm e s"
  obtain r t where m: "malloc \<lparr>element = el, msg_id = None\<rparr> s = (r, t)" by fastforce
  have "calm e t" using keepsD [OF keeps_calm_drawn [OF drawn_malloc] s m] .
  then show "calm e (snd (add_element el s))"
    using m by (cases e) (auto simp: add_element_def calm_def split: option.split)
qed

lemma calm_statuses [keeps_rules]:
  "keeps (calm e) (create_status c p)" "keeps (calm e) (add_target_ref st t)" "keeps (calm e) (add_element el)"
  "keeps (calm e) (answer c cmd)" "keeps (calm e) (answer_item c cmd it)"
proof -
  show c: "keeps (calm e) (create_status c p)" and t: "keeps (calm e) (add_target_ref st t)" for p st t
    by (intro keeps_calm_drawn keeps_rules)+
  show "keeps (calm e) (answer c cmd)" "keeps (calm e) (answer_item c cmd it)"
    unfolding answer_def answer_item_def by (intro keeps_rules c t calm_add_element)+
qed (rule calm_add_element)

text \<open>A server that is not accepted, or a sequence that is skipped or that the user has aborted.\<close>

definition blocked :: "('w, 'z) internals_t_scheme \<Rightarrow> bool" where
  "blocked s \<longleftrightarrow> srv_auth s \<noteq> OMADM_SYNCML_ERROR_AUTHENTICATION_ACCEPTED \<or> skipped s \<or> aborted s"

lemma calm_tests: "calm e s \<Longrightarrow> aborted s = aborted e \<and> skipped s = skipped e \<and> blocked s = blocked e"
  by (auto simp: calm_def aborted_def skipped_def blocked_def)

lemma calm_if_accepted:
  assumes "aborted e \<Longrightarrow> keeps (calm e) m" and "blocked e" and "calm e s"
  shows "calm e (snd (if_accepted cmd m s))"
proof -
  have k: "keeps (calm e) (DMC_FAIL (answer c cmd) (\<lambda>_. ret SML_ERR_OK))" for c
    by (intro keeps_rules)
  show ?thesis
    using assms calm_tests [OF assms(3)] calmD(6) [OF assms(3)] k
    by (auto simp: if_accepted_def keeps_def blocked_def)
qed

lemma calm_item_loop:
  assumes "aborted e"
  shows "keeps (calm e) (item_loop treat cmd its)"
proof (induction its)
  case (Cons it its)
  have "keeps (calm e) (unless_aborted (treat it))"
    using assms by (auto simp: keeps_def unless_aborted_def dest: calm_tests)
  then show ?case unfolding item_loop.simps by (intro keeps_rules Cons)
qed (simp add: keeps_ret)

lemma calm_get_loop:
  assumes "aborted e"
  shows "keeps (calm e) (get_loop cmd its rs)"
proof (induction its arbitrary: rs)
  case (Cons it its)
  have "keeps (calm e) (\<lambda>s. if aborted s then (Val (OMADM_SYNCML_ERROR_NOT_EXECUTED, rs), s) else get_item it rs s)"
    using assms by (auto simp: keeps_def dest: calm_tests)
  then show ?case unfolding get_loop.simps by (intro keeps_FAIL keeps_prod calm_statuses Cons)
qed (simp add: keeps_ret)

lemma blocked_generic: "blocked e \<Longrightarrow> calm e s \<Longrightarrow> calm e (snd (prv_do_generic_cmd_cb i c s))"
  unfolding prv_do_generic_cmd_cb_def
  by (rule calm_if_accepted) (intro keeps_FAIL calm_item_loop keeps_ret)

lemma blocked_exec: "blocked e \<Longrightarrow> calm e s \<Longrightarrow> calm e (snd (prv_exec_cmd_cb i c s))"
  unfolding prv_exec_cmd_cb_def
  by (rule calm_if_accepted) (intro keeps_FAIL calm_item_loop keeps_ret)

lemma calm_treat_get:
  assumes "aborted e"
  shows "keeps (calm e) (treat_get i its)"
proof -
  have "keeps (calm e) (\<lambda>s. allocating (smlString2Pcdata (reply_ref s)) s)"
    by (rule keepsI) (rule keepsD [OF keeps_calm_drawn [OF keeps_allocating [OF drawn_string2pcdata]] _ prod.collapse [symmetric]])
  then show ?thesis
    unfolding treat_get_def
    by (intro keeps_FAIL keeps_option keeps_if keeps_ret keeps_lift calm_add_element calm_get_loop assms
        keeps_calm_drawn [OF keeps_allocating [OF drawn_allocators(9)]] keeps_calm_drawn [OF drawn_set_pcdata])
qed

lemma blocked_get: "blocked e \<Longrightarrow> calm e s \<Longrightarrow> calm e (snd (prv_get_cmd_cb i its s))"
  unfolding prv_get_cmd_cb_def by (rule calm_if_accepted) (rule calm_treat_get)

lemma drawn_add_reply [keeps_rules]: "keeps (drawn e) (add_reply c ui r st)"
  unfolding add_reply_def by (intro keeps_rules)

lemma blocked_alert:
  assumes "blocked e" and "calm e s"
  shows "calm e (snd (prv_alert_cmd_cb i a s))"
proof (cases "skipped s")
  case False
  let ?k = "\<lambda>(code, dmcAlertP, reply).
    DMC_FAIL (create_status code (Some (SML_PE_ALERT, i))) (\<lambda>statusP.
    DMC_FAIL (add_reply code dmcAlertP reply statusP) (\<lambda>statusP.
    DMC_FAIL (add_element (new_element (Status statusP))) (\<lambda>_.
    DMC_FAIL (case dmcAlertP of None \<Rightarrow> ret () | Some ui \<Rightarrow> lift (free_dmclt_alert ui)) (\<lambda>_.
    ret SML_ERR_OK))))"
  have k: "keeps (calm e) (?k x)" for x
    by (cases x) (auto intro!: keeps_FAIL calm_statuses keeps_calm_drawn [OF drawn_add_reply] keeps_option keeps_ret keeps_lift)
  have "fst (treat_alert a s) = Val x \<or> True" for x by simp
  have "\<exists>x. treat_alert a s = (Val x, s)"
    using False assms calm_tests [OF assms(2)] calmD(6) [OF assms(2)] by (auto simp: treat_alert_def blocked_def)
  then obtain x where "treat_alert a s = (Val x, s)" ..
  then show ?thesis
    using k [of x] assms(2) False by (simp add: prv_alert_cmd_cb_def DMC_FAIL_def keeps_def)
qed (use assms(2) in \<open>simp add: prv_alert_cmd_cb_def\<close>)

lemma calm_atomic: "calm e s \<Longrightarrow> calm e (snd (prv_start_atomic_cb i s))"
proof -
  assume "calm e s"
  moreover have "keeps (calm e) (DMC_FAIL (answer c cmd) (\<lambda>_. ret SML_ERR_OK))" for c cmd
    by (intro keeps_FAIL calm_statuses keeps_ret)
  ultimately show ?thesis by (auto simp: prv_start_atomic_cb_def keeps_def)
qed

section \<open>What commands leave alone\<close>

text \<open>The operations on the tree that the items of a message ask for, in the state of a session.\<close>

locale item_frame = tree_frame I for I :: "('w, 'z) internals_t_scheme \<Rightarrow> bool"
begin

lemmas frame_parts [keeps_rules] =
  frame_drawn [OF drawn_pcdata2string] frame_drawn [OF drawn_from_meta]

lemma frame_loc [keeps_rules]: "keeps I (loc_string t)" "keeps I (node_of_item it)"
  unfolding loc_string_def node_of_item_def by (intro keeps_rules)+

lemma frame_convert [keeps_rules]: "keeps I m \<Longrightarrow> keeps I (PRV_CONVERT_CODE m)"
  unfolding PRV_CONVERT_CODE_def by (intro keeps_rules)

lemma frame_do_item [keeps_rules]: "keeps I (do_item ty it)"
  unfolding do_item_def add_node_def copy_node_def delete_node_def replace_node_def
  by (cases ty; simp; intro keeps_rules)

lemma frame_exec_item [keeps_rules]: "keeps I (exec_node it c)"
  unfolding exec_node_def by (intro keeps_rules)

lemma frame_store_nonce [keeps_rules]: "keeps I (store_nonce b)"
  unfolding store_nonce_def
  by (intro keeps_rules; rule keepsI; auto split: option.split)

end

text \<open>
  What holds of a session whatever is to be sent, and whatever the user answered, is kept by the
  callbacks for commands.
\<close>

locale command_frame = item_frame I for I :: "('w, 'z) internals_t_scheme \<Rightarrow> bool" +
  assumes sends: "I s \<Longrightarrow> I (s\<lparr>elem_list := l\<rparr>)" and answered: "I s \<Longrightarrow> I (s\<lparr>seq_code := c\<rparr>)"
begin

lemma frame_add_element [keeps_rules]: "keeps I (add_element el)"
proof (rule keepsI)
  fix s assume s: "I s"
  obtain r t where m: "malloc \<lparr>element = el, msg_id = None\<rparr> s = (r, t)" by fastforce
  have "I t" using keepsD [OF frame_malloc s m] .
  then show "I (snd (add_element el s))"
    using m sends by (simp add: add_element_def split: option.split)
qed

lemma frame_statuses [keeps_rules]:
  "keeps I (create_status c p)" "keeps I (answer c cmd)" "keeps I (answer_item c cmd it)"
proof -
  show c: "keeps I (create_status c p)" for c p
    by (rule frame_drawn) (rule drawn_create_status)
  have t: "keeps I (add_target_ref st t)" for st t
    by (rule frame_drawn) (rule drawn_add_refs)
  show "keeps I (answer c cmd)" "keeps I (answer_item c cmd it)"
    unfolding answer_def answer_item_def by (intro keeps_rules c t)+
qed

lemma frame_if_accepted: "keeps I m \<Longrightarrow> keeps I (if_accepted cmd m)"
  unfolding if_accepted_def [abs_def]
  by (intro keeps_if_at keeps_now) (auto intro!: keepsI keepsD [OF keeps_FAIL [OF frame_statuses(2) keeps_ret] _ prod.collapse [symmetric]])

lemma frame_unless_aborted: "keeps I m \<Longrightarrow> keeps I (unless_aborted m)"
  unfolding unless_aborted_def [abs_def] by (intro keeps_if_at keeps_now)

lemma frame_item_loop [keeps_rules]:
  assumes "\<And>it. keeps I (treat it)"
  shows "keeps I (item_loop treat cmd its)"
proof (induction its)
  case (Cons it its)
  then show ?case unfolding item_loop.simps by (intro keeps_FAIL frame_unless_aborted frame_statuses assms)
qed (simp add: keeps_ret)

lemma frame_generic_cb: "keeps I (prv_do_generic_cmd_cb i c)"
  unfolding prv_do_generic_cmd_cb_def by (intro frame_if_accepted keeps_FAIL frame_item_loop keeps_ret frame_do_item)

lemma frame_exec_cb: "keeps I (prv_exec_cmd_cb i c)"
  unfolding prv_exec_cmd_cb_def by (intro frame_if_accepted keeps_FAIL frame_item_loop keeps_ret frame_exec_item)

lemma frame_fill [keeps_rules]: "keeps I (prv_fill_item it n)"
  by (rule frame_drawn) (rule drawn_fill_item)

lemma frame_get_item [keeps_rules]: "keeps I (get_item it rs)"
  unfolding get_item_def get_node_def prv_get_node_def
  by (intro keeps_rules frame_drawn [OF drawn_allocators(3)])

lemma frame_get_loop: "keeps I (get_loop cmd its rs)"
proof (induction its arbitrary: rs)
  case (Cons it its)
  then show ?case unfolding get_loop.simps
    by (intro keeps_FAIL keeps_prod frame_statuses keeps_if_at keeps_now frame_get_item)
qed (simp add: keeps_ret)

lemma frame_get_cb: "keeps I (prv_get_cmd_cb i its)"
proof -
  have "keeps I (\<lambda>s. allocating (smlString2Pcdata (reply_ref s)) s)"
    by (rule keepsI) (rule keepsD [OF frame_drawn [OF keeps_allocating [OF drawn_string2pcdata]] _ prod.collapse [symmetric]])
  then show ?thesis
    unfolding prv_get_cmd_cb_def treat_get_def
    by (intro frame_if_accepted keeps_FAIL keeps_option keeps_if keeps_ret keeps_lift frame_add_element frame_get_loop
        frame_drawn [OF keeps_allocating [OF drawn_allocators(9)]] frame_drawn [OF drawn_set_pcdata])
qed

lemma frame_ask_user: "keeps I (ask_user a cb)"
proof -
  have a: "keeps I (\<lambda>s. if b then (Ub, s) else (Val x, if c s then s\<lparr>seq_code := k\<rparr> else s))" for b x c k
    using answered by (simp add: keeps_def)
  show ?thesis
    unfolding ask_user_def alloc_answer_def
    by (intro keeps_FAIL keeps_option keeps_ret keeps_if keeps_prod keeps_lift keeps_allocating frame_on_world frame_malloc a
        frame_drawn [OF drawn_ui])
qed

lemma frame_alert_cb: "keeps I (prv_alert_cmd_cb i a)"
proof -
  have t: "keeps I (treat_alert a)"
    unfolding treat_alert_def [abs_def] by (intro keeps_if_at keeps_now keeps_option_at frame_ask_user; simp add: keeps_def)
  have r: "keeps I (add_reply c ui r st)" for c ui r st
    by (rule frame_drawn) (rule drawn_add_reply)
  show ?thesis
    unfolding prv_alert_cmd_cb_def [abs_def]
    by (intro keeps_if_at keeps_now keeps_FAIL keeps_prod keeps_option keeps_ret keeps_lift t r frame_statuses frame_add_element)
qed

lemma frame_start_atomic: "keeps I (prv_start_atomic_cb i)"
  unfolding prv_start_atomic_cb_def [abs_def]
  by (intro keeps_if_at keeps_now) (auto intro!: keepsI keepsD [OF keeps_FAIL [OF frame_statuses(2) keeps_ret] _ prod.collapse [symmetric]])

end

section \<open>Every item is answered\<close>

text \<open>\<open>listed l r s\<close>: the elements to send are \<open>l\<close>, the message is \<open>r\<close>, and memory is plenty.\<close>

definition listed :: "elemCell_t list \<Rightarrow> string \<Rightarrow> ('w, 'z) internals_t_scheme \<Rightarrow> bool" where
  "listed l r s \<longleftrightarrow> elem_list s = l \<and> reply_ref s = Some r \<and> mem s = []"

interpretation listed: item_frame "listed l r" for l r
proof unfold_locales
  fix s t :: "('w, 'z) internals_t_scheme"
  assume s: "same_setting s t" "listed l r s"
  then have "mo_env.more t = mo_env.more s" "mem t = []"
    by (auto simp: same_setting_def listed_def)
  then show "listed l r t" using s(2) by (cases s; cases t) (simp add: listed_def)
qed

text \<open>
  \<open>answers r i ty code it c\<close>: the cell holds a status of the item with that code, for command \<open>i\<close> of
  message \<open>r\<close>.
\<close>

definition answers ::
  "string \<Rightarrow> string \<Rightarrow> SmlProtoElement_t \<Rightarrow> int \<Rightarrow> sml_item option \<Rightarrow> elemCell_t \<Rightarrow> bool" where
  "answers r i ty code it c \<longleftrightarrow>
     (\<exists>st it'. el_body (element c) = Status st \<and> it = Some it' \<and> st_msgRef st = pc_text r \<and>
        st_cmdRef st = pc_text i \<and> st_cmd st = pc_text (proto_as_string ty) \<and>
        st_data st = pc_text (print_int (word_of_int code)) \<and>
        (\<forall>u. it_target it' = Some (Some (pc_text u)) \<and> u \<noteq> [] \<longrightarrow> st_targetRef st = Some (pc_text u)))"

lemma set_pcdata_text [simp]:
  "plenty s \<Longrightarrow> u \<noteq> [] \<Longrightarrow> set_pcdata_pcdata (pc_text u) s = (Val (pc_text u), s)"
  by (simp add: set_pcdata_pcdata_def pc_text_def copy_content_def)

lemma create_status_text:
  assumes "plenty s" and "reply_ref s = Some r" and "i \<noteq> []"
  shows "\<exists>st. create_status code (Some (ty, Some (pc_text i))) s = (Val st, s) \<and> st_cmdRef st = pc_text i \<and>
    st_msgRef st = pc_text r \<and> st_cmd st = pc_text (proto_as_string ty) \<and>
    st_data st = pc_text (print_int (word_of_int code)) \<and> st_chal st = None \<and> st_items st = []"
  using assms
  by (simp add: create_status_def smlAllocStatus_def set_pcdata_string_def set_pcdata_int_def cmd_defs
      pc_text_def [of r] pc_text_def [of "proto_as_string _"] pc_text_def [of "print_int _"])

lemma target_ref_text:
  assumes "add_target_ref st t s = (Val st', s')" and "plenty s"
  shows "s' = s \<and> (\<exists>x. st' = st\<lparr>st_targetRef := x\<rparr>) \<and>
    (\<forall>u. t = Some (Some (pc_text u)) \<and> u \<noteq> [] \<longrightarrow> st_targetRef st' = Some (pc_text u))"
proof -
  have "s' = s" by (rule plenty_same [OF drawn_add_refs(1) assms(2,1)])
  moreover have "\<exists>x. st' = st\<lparr>st_targetRef := x\<rparr>"
    using assms(1) by (auto simp: add_target_ref_def cmd_val split: option.splits intro: exI [of _ "st_targetRef st"])
  moreover have "st_targetRef st' = Some (pc_text u)" if "t = Some (Some (pc_text u))" "u \<noteq> []" for u
    using assms that by (auto simp: add_target_ref_def smlAllocTargetRefList_def cmd_defs)
  ultimately show ?thesis by blast
qed

text \<open>
  \<open>each_answered treat r i ty its s cs t\<close>: from state \<open>s\<close> the items are treated one after the other,
  and after each a cell is added that answers it with the very code of its treatment; \<open>cs\<close> are these
  cells and \<open>t\<close> is the last state.  The items of a sequence that the user has aborted are not treated
  and have the code NOT_EXECUTED (\<open>unless_aborted\<close>).
\<close>

inductive each_answered ::
  "(sml_item option \<Rightarrow> (('w, 'z) internals_t_scheme, int) cmd) \<Rightarrow> string \<Rightarrow> string \<Rightarrow> SmlProtoElement_t \<Rightarrow>
     sml_items \<Rightarrow> ('w, 'z) internals_t_scheme \<Rightarrow> elemCell_t list \<Rightarrow> ('w, 'z) internals_t_scheme \<Rightarrow> bool"
  for treat r i ty
where
  answered_none: "each_answered treat r i ty [] s [] s"
| answered_next:
    "unless_aborted (treat it) s = (Val code, s1) \<Longrightarrow> answers r i ty code it c \<Longrightarrow>
     each_answered treat r i ty its (s1\<lparr>elem_list := elem_list s1 @ [c]\<rparr>) cs t \<Longrightarrow>
     each_answered treat r i ty (it # its) s (c # cs) t"

inductive_cases each_answered_NilE: "each_answered treat r i ty [] s cs t"
inductive_cases each_answered_ConsE: "each_answered treat r i ty (it # its) s cs t"

lemma each_answered_length: "each_answered treat r i ty its s cs t \<Longrightarrow> length cs = length its"
  by (induction rule: each_answered.induct) simp_all

lemma answer_item_listed:
  assumes "listed l r s" and "i \<noteq> []" and "answer_item code (ty, Some (pc_text i)) it s = (Val (), t)"
  shows "\<exists>c. t = s\<lparr>elem_list := l @ [c]\<rparr> \<and> listed (l @ [c]) r t \<and> answers r i ty code it c"
proof -
  have s: "plenty s" "reply_ref s = Some r" "elem_list s = l" using assms(1) by (simp_all add: listed_def)
  obtain st where st: "create_status code (Some (ty, Some (pc_text i))) s = (Val st, s)" "st_cmdRef st = pc_text i"
    "st_msgRef st = pc_text r" "st_cmd st = pc_text (proto_as_string ty)"
    "st_data st = pc_text (print_int (word_of_int code))"
    using create_status_text [OF s(1,2) assms(2)] by blast
  obtain it' st' s' where it: "it = Some it'" and t: "add_target_ref st (it_target it') s = (Val st', s')"
    and a: "add_element (new_element (Status st')) s' = (Val (), t)"
    using assms(3) st(1) by (auto simp: answer_item_def cmd_val split: option.splits)
  note t = target_ref_text [OF t s(1)]
  show ?thesis
    using t a s st it
    by (auto simp: add_element_def listed_def answers_def new_element_def
        intro!: exI [of _ "\<lparr>element = new_element (Status st'), msg_id = None\<rparr>"])
qed

lemma item_loop_listed:
  assumes "\<And>l it. keeps (listed l r) (treat it)" and "i \<noteq> []"
  shows "listed l r s \<Longrightarrow> item_loop treat (ty, Some (pc_text i)) its s = (Val (), t) \<Longrightarrow>
    \<exists>cs. listed (l @ cs) r t \<and> each_answered treat r i ty its s cs t"
proof (induction its arbitrary: l s)
  case Nil
  then show ?case by (auto simp: cmd_defs intro: answered_none intro!: exI [of _ "[]"])
next
  case (Cons it its)
  obtain c s1 s2 where u: "unless_aborted (treat it) s = (Val c, s1)"
    and a: "answer_item c (ty, Some (pc_text i)) it s1 = (Val (), s2)"
    and l: "item_loop treat (ty, Some (pc_text i)) its s2 = (Val (), t)"
    using Cons.prems(2) by (auto simp: cmd_val)
  have s1: "listed l r s1"
    using u Cons.prems(1) keepsD [OF assms(1)] by (auto simp: unless_aborted_def split: if_splits)
  from answer_item_listed [OF this assms(2) a] obtain x
    where x: "s2 = s1\<lparr>elem_list := l @ [x]\<rparr>" "listed (l @ [x]) r s2" "answers r i ty c it x" by blast
  from Cons.IH [OF x(2) l] obtain cs where "listed ((l @ [x]) @ cs) r t" "each_answered treat r i ty its s2 cs t" by blast
  moreover have "elem_list s1 = l" using s1 by (simp add: listed_def)
  ultimately show ?case using x(1) answered_next [of treat it s c s1 r i ty x, OF u x(3)] by (intro exI [of _ "x # cs"]) simp
qed

text \<open>
  C22. While no allocation fails, and outside a sequence that is skipped, every item of an Add, Copy,
  Delete or Replace of an accepted server is answered, in order, by exactly one status, which carries
  the code that the treatment of the item has returned and names the message, the command and the
  target of the item.
\<close>

theorem every_item_answered:
  assumes "plenty s" and "reply_ref s = Some r" and "i \<noteq> []" and "\<not> skipped s"
    and "srv_auth s = OMADM_SYNCML_ERROR_AUTHENTICATION_ACCEPTED"
    and "prv_do_generic_cmd_cb (Some (pc_text i)) c s = (Val code, t)"
  shows "\<exists>cs. elem_list t = elem_list s @ cs \<and>
    each_answered (do_item (gc_type c)) r i (gc_type c) (gc_items c) s cs t"
proof -
  have s: "listed (elem_list s) r s" using assms(1,2) by (simp add: listed_def)
  have l: "item_loop (do_item (gc_type c)) (gc_type c, Some (pc_text i)) (gc_items c) s = (Val (), t)"
  proof -
    have "DMC_FAIL (item_loop (do_item (gc_type c)) (gc_type c, Some (pc_text i)) (gc_items c)) (\<lambda>_. ret SML_ERR_OK) s =
        (Val code, t)"
      using assms(6) by (simp only: prv_do_generic_cmd_cb_def if_accepted_def assms(4,5) simp_thms if_False)
    then show ?thesis unfolding DMC_FAIL_val ret_val by auto
  qed
  from item_loop_listed [OF listed.frame_do_item assms(3) s l] obtain cs
    where "listed (elem_list s @ cs) r t"
      and "each_answered (do_item (gc_type c)) r i (gc_type c) (gc_items c) s cs t" by blast
  then show ?thesis by (auto simp: listed_def)
qed

section \<open>The client answers a challenge\<close>

text \<open>\<open>held a c s\<close>: the account is \<open>a\<close>, the last code for the client is \<open>c\<close>, and memory is plenty.\<close>

definition held :: "accountDesc_t option \<Rightarrow> int \<Rightarrow> ('w, 'z) internals_t_scheme \<Rightarrow> bool" where
  "held a c s \<longleftrightarrow> account s = a \<and> clt_auth s = c \<and> mem s = []"

interpretation held: item_frame "held a c" for a c
proof unfold_locales
  fix s t :: "('w, 'z) internals_t_scheme"
  assume s: "same_setting s t" "held a c s"
  then have "mo_env.more t = mo_env.more s" "mem t = []"
    by (auto simp: same_setting_def held_def)
  then show "held a c t" using s(2) by (cases s; cases t) (simp add: held_def)
qed

text \<open>
  C23. While no allocation fails: after a status of the header with a challenge for basic or for digest
  authentication, whose nonce is not empty, the next credentials of the client are of that type and
  carry the digest over the nonce of the challenge; but a nonce whose length is two modulo three (eight
  bytes, for one) is lost, and the digest is then over an empty nonce.
\<close>

theorem client_answers_challenge:
  assumes "plenty s" and "account s = Some a" and "toServerCred a = Some cred" and "ad_data cred = Is old"
    and "ad_name cred = Is (Some name)" and "ad_secret cred = Is (Some secret)"
    and "t \<in> {DMCLT_AUTH_TYPE_BASIC, DMCLT_AUTH_TYPE_DIGEST}" and "nonce \<noteq> []"
    and "length junk = 64" and "md5_sized name secret nonce" and "CHR 0x00 \<notin> set m"
    and "prv_status_cmd_cb \<lparr>rx_cmdRef = Some (pc_text ''0''), rx_msgRef = Some (pc_text m),
      rx_data = Some (pc_text (print_int code)), rx_chal = Some (Some (chal_meta t nonce))\<rparr> s = (Val r, u)"
  shows "clt_auth u = sint code \<and> (\<exists>a'. account u = Some a' \<and>
    get_credentials junk (toServerCred a') u =
      (Val (Some (made_cred t (digest_for t name secret (if length nonce mod 3 = 2 then [] else nonce)))), u))"
proof -
  let ?s1 = "s\<lparr>clt_auth := sint code\<rparr>" and ?n = "kept_nonce nonce"
  obtain b where b: "get_from_chal_meta (Some (chal_meta t nonce)) True ?s1 = (Val (t, b), ?s1)"
    "content b = ?n" "len b = length ?n"
    using read_any_challenge [of ?s1 nonce t] assms(1,7,8) by auto
  let ?cred = "cred\<lparr>ad_type := Is t, ad_data := Is b\<rparr>"
  let ?a = "a\<lparr>toServerCred := Some ?cred\<rparr>"
  have "has_bytes b" using b(2,3) by (auto simp: has_bytes_def content_def split: option.splits)
      (metis length_take min.cobounded1)
  then have f: "Credentials.fields ?cred t name secret b" using assms(5,6) by (simp add: Credentials.fields_def)
  have "t \<noteq> DMCLT_AUTH_TYPE_UNKNOWN" using assms(7) by auto
  moreover have "smlPcdata2String (Some (pc_text ''0'')) s = (Val (Some ''0''), s)"
    "smlPcdata2String (Some (pc_text m)) s = (Val (Some m), s)"
    using pc_text_read [OF assms(1)] assms(11) by simp_all
  ultimately have "fst (store_nonce True (?s1\<lparr>account := Some ?a\<rparr>)) = Val () \<and>
      u = snd (store_nonce True (?s1\<lparr>account := Some ?a\<rparr>))"
    using assms(2-4,12) b(1) read_print_int [OF assms(1), of code]
    by (auto simp: prv_status_cmd_cb_def header_status_def take_challenge_def set_account_def DMC_FAIL_def
        ret_def lift_def split: prod.splits outcome.splits)
  moreover have "held (Some ?a) (sint code) (?s1\<lparr>account := Some ?a\<rparr>)" using assms(1) by (simp add: held_def)
  ultimately have u: "held (Some ?a) (sint code) u"
    using held.frame_store_nonce by (auto simp: keeps_def)
  have "md5_sized name secret ?n" using assms(10) by (simp add: md5_sized_def kept_nonce_def)
  then have "get_credentials junk (Some ?cred) u = (Val (Some (made_cred t (digest_for t name secret ?n))), u)"
    using get_credentials_plenty [OF _ f assms(9)] assms(7) b(2) u by (auto simp: held_def)
  then show ?thesis using u by (simp add: held_def kept_nonce_def)
qed

section \<open>Witnesses\<close>

text \<open>A session with an accepted server, and a delete that has no target.\<close>

definition open_session :: "nat internals_t" where
  "open_session = sample_session\<lparr>srv_auth := OMADM_SYNCML_ERROR_AUTHENTICATION_ACCEPTED,
     account := Some (account_zero\<lparr>acc_dmtree_uri := Some ''./a'',
       toServerCred := Some (sample_auth DMCLT_AUTH_TYPE_DIGEST)\<rparr>)\<rparr>"

definition sample_delete :: sml_generic where
  "sample_delete = \<lparr>gc_type = SML_PE_DELETE,
     gc_items = [Some (item_zero\<lparr>it_target := Some (Some (pc_text ''./b''))\<rparr>)], gc_correlator = None\<rparr>"

theorem every_item_answered_witness:
  "\<exists>code s1 cell. elem_list (snd (prv_do_generic_cmd_cb (Some (pc_text ''3'')) sample_delete open_session)) = [cell] \<and>
     do_item SML_PE_DELETE (hd (gc_items sample_delete)) open_session = (Val code, s1) \<and>
     answers ''1'' ''3'' SML_PE_DELETE code (hd (gc_items sample_delete)) cell"
proof -
  let ?r = "prv_do_generic_cmd_cb (Some (pc_text ''3'')) sample_delete open_session"
  have "fst ?r = Val SML_ERR_OK" by code_simp
  then have r: "?r = (Val SML_ERR_OK, snd ?r)" by (rule by_fst)
  have o: "plenty open_session" "reply_ref open_session = Some ''1''" "\<not> skipped open_session" "\<not> aborted open_session"
    "srv_auth open_session = OMADM_SYNCML_ERROR_AUTHENTICATION_ACCEPTED" "elem_list open_session = []"
    by (simp_all add: open_session_def sample_session_def session_over_def table_env_def skipped_def aborted_def)
  have d: "gc_items sample_delete = [hd (gc_items sample_delete)]" "gc_type sample_delete = SML_PE_DELETE"
    by (simp_all add: sample_delete_def)
  obtain cs where "elem_list (snd ?r) = cs"
    and "each_answered (do_item SML_PE_DELETE) ''1'' ''3'' SML_PE_DELETE [hd (gc_items sample_delete)] open_session cs (snd ?r)"
    using every_item_answered [OF o(1,2) _ o(3,5) r] o(6) d by auto
  then show ?thesis
    using o(4) by (auto simp: unless_aborted_def elim!: each_answered_ConsE each_answered_NilE)
qed

theorem client_answers_challenge_witness:
  "clt_auth (snd (prv_status_cmd_cb \<lparr>rx_cmdRef = Some (pc_text ''0''), rx_msgRef = Some (pc_text ''1''),
      rx_data = Some (pc_text (print_int 401)), rx_chal = Some (Some (chal_meta DMCLT_AUTH_TYPE_DIGEST [1, 2, 3]))\<rparr>
     open_session)) = 401"
proof -
  let ?r = "prv_status_cmd_cb \<lparr>rx_cmdRef = Some (pc_text ''0''), rx_msgRef = Some (pc_text ''1''),
      rx_data = Some (pc_text (print_int 401)), rx_chal = Some (Some (chal_meta DMCLT_AUTH_TYPE_DIGEST [1, 2, 3]))\<rparr>
     open_session"
  have "fst ?r = Val SML_ERR_OK" by code_simp
  then have r: "?r = (Val SML_ERR_OK, snd ?r)" by (rule by_fst)
  have "plenty open_session" "account open_session = Some (account_zero\<lparr>acc_dmtree_uri := Some ''./a'',
      toServerCred := Some (sample_auth DMCLT_AUTH_TYPE_DIGEST)\<rparr>)"
    by (simp_all add: open_session_def sample_session_def session_over_def table_env_def)
  from client_answers_challenge [OF this, of "sample_auth DMCLT_AUTH_TYPE_DIGEST"
      "\<lparr>buffer = Some [110], len = 1\<rparr>" "''usr''" "''pwd''" DMCLT_AUTH_TYPE_DIGEST "[1, 2, 3]"
      "replicate 64 0" "''1''" 401 SML_ERR_OK "snd ?r"] r
  show ?thesis by (simp add: sample_auth_def md5_sized_def)
qed

end
