(* ===== verification/Dispatcher.thy ===== *)
theory Dispatcher
  imports Callbacks
begin

text \<open>
  The toolkit's dispatcher (\<^verbatim>\<open>mgrcmddispatcher.c\<close>), with the callbacks of the library registered
  (\<open>get_callbacks\<close>).  The build defines \<^verbatim>\<open>NOWSM\<close> and the receive options for Atomic, Copy, Exec
  and Sequence, and no others.

  What the decoder makes of the workspace is an argument: the header or an error, the elements up to
  the end of the document or to an error, and how the body ends.
\<close>

abbreviation SML_ERR_COMMAND_NOT_HANDLED :: int where "SML_ERR_COMMAND_NOT_HANDLED \<equiv> 0x1003"
abbreviation SML_ERR_XLT_INVAL_PROTO_ELEM :: int where "SML_ERR_XLT_INVAL_PROTO_ELEM \<equiv> 0x2008"

section \<open>Decoded elements\<close>

text \<open>
  A generic command has its identifier and its own type: Add, Copy, Delete, Replace, Put or Move.
  The remaining types have no content the callbacks read.
\<close>

datatype decoded =
  Generic_cmd "pcdata option" sml_generic
| Alert_cmd "pcdata option" sml_alert
| Get_cmd "pcdata option" sml_items
| Exec_cmd "pcdata option" sml_generic
| Status_cmd received_status
| Atomic_start "pcdata option"
| Sequence_start "pcdata option"
| Other_element SmlProtoElement_t

fun cmdType :: "decoded \<Rightarrow> SmlProtoElement_t" where
  "cmdType (Generic_cmd i c) = gc_type c"
| "cmdType (Alert_cmd i a) = SML_PE_ALERT"
| "cmdType (Get_cmd i its) = SML_PE_GET"
| "cmdType (Exec_cmd i c) = SML_PE_EXEC"
| "cmdType (Status_cmd st) = SML_PE_STATUS"
| "cmdType (Atomic_start i) = SML_PE_ATOMIC_START"
| "cmdType (Sequence_start i) = SML_PE_SEQUENCE_START"
| "cmdType (Other_element t) = t"

record decoded_message =
  header :: "int + sml_sync_hdr"
  body :: "decoded list"
  ending :: "int + bool"

section \<open>Callbacks\<close>

record 's SmlCallbacks_t =
  startMessageFunc :: "(sml_sync_hdr \<Rightarrow> ('s, int) cmd) option"
  endMessageFunc :: "(bool \<Rightarrow> ('s, int) cmd) option"
  startSyncFunc :: "(decoded \<Rightarrow> ('s, int) cmd) option"
  endSyncFunc :: "(('s, int) cmd) option"
  startAtomicFunc :: "(pcdata option \<Rightarrow> ('s, int) cmd) option"
  endAtomicFunc :: "(('s, int) cmd) option"
  startSequenceFunc :: "(pcdata option \<Rightarrow> ('s, int) cmd) option"
  endSequenceFunc :: "(('s, int) cmd) option"
  addCmdFunc :: "(pcdata option \<Rightarrow> sml_generic \<Rightarrow> ('s, int) cmd) option"
  alertCmdFunc :: "(pcdata option \<Rightarrow> sml_alert \<Rightarrow> ('s, int) cmd) option"
  deleteCmdFunc :: "(pcdata option \<Rightarrow> sml_generic \<Rightarrow> ('s, int) cmd) option"
  getCmdFunc :: "(pcdata option \<Rightarrow> sml_items \<Rightarrow> ('s, int) cmd) option"
  putCmdFunc :: "(pcdata option \<Rightarrow> sml_generic \<Rightarrow> ('s, int) cmd) option"
  statusCmdFunc :: "(received_status \<Rightarrow> ('s, int) cmd) option"
  replaceCmdFunc :: "(pcdata option \<Rightarrow> sml_generic \<Rightarrow> ('s, int) cmd) option"
  copyCmdFunc :: "(pcdata option \<Rightarrow> sml_generic \<Rightarrow> ('s, int) cmd) option"
  execCmdFunc :: "(pcdata option \<Rightarrow> sml_generic \<Rightarrow> ('s, int) cmd) option"
  moveCmdFunc :: "(pcdata option \<Rightarrow> sml_generic \<Rightarrow> ('s, int) cmd) option"
  handleErrorFunc :: "(('s, int) cmd) option"
  transmitChunkFunc :: "(('s, int) cmd) option"

text \<open>The table of the library; the rest is null.\<close>

definition library_callbacks ::
  "byte list \<Rightarrow> byte list \<Rightarrow> (('w, 'z) internals_t_scheme) SmlCallbacks_t" where
  "library_callbacks junk nonce =
     \<lparr>startMessageFunc = Some (prv_start_message_cb junk nonce),
       endMessageFunc = Some (\<lambda>final. prv_end_message_cb),
       startSyncFunc = None, endSyncFunc = None,
       startAtomicFunc = Some prv_start_atomic_cb, endAtomicFunc = Some prv_end_atomic_cb,
       startSequenceFunc = Some prv_start_sequence_cb, endSequenceFunc = Some prv_end_sequence_cb,
       addCmdFunc = Some prv_do_generic_cmd_cb, alertCmdFunc = Some prv_alert_cmd_cb,
       deleteCmdFunc = Some prv_do_generic_cmd_cb, getCmdFunc = Some prv_get_cmd_cb, putCmdFunc = None,
       statusCmdFunc = Some prv_status_cmd_cb, replaceCmdFunc = Some prv_do_generic_cmd_cb,
       copyCmdFunc = Some prv_do_generic_cmd_cb, execCmdFunc = Some prv_exec_cmd_cb, moveCmdFunc = None,
       handleErrorFunc = Some prv_handle_error_cb, transmitChunkFunc = Some prv_transmit_chunk_cb\<rparr>"

definition get_callbacks ::
  "byte list \<Rightarrow> byte list \<Rightarrow> 'h heap_scheme \<Rightarrow>
     (('w, 'z) internals_t_scheme) SmlCallbacks_t option \<times> 'h heap_scheme" where
  "get_callbacks junk nonce = malloc (library_callbacks junk nonce)"

section \<open>Dispatching\<close>

text \<open>A callback that is missing, or a content that does not fit the type of the element.\<close>

definition handled :: "'f option \<Rightarrow> ('f \<Rightarrow> ('s, int) cmd) \<Rightarrow> ('s, int) cmd" where
  "handled func k = (case func of None \<Rightarrow> ret SML_ERR_COMMAND_NOT_HANDLED | Some f \<Rightarrow> k f)"

definition with_generic :: "decoded \<Rightarrow> (pcdata option \<Rightarrow> sml_generic \<Rightarrow> ('s, int) cmd) \<Rightarrow> ('s, int) cmd" where
  "with_generic d f = (case d of Generic_cmd i c \<Rightarrow> f i c | Exec_cmd i c \<Rightarrow> f i c | _ \<Rightarrow> lift Ub)"

text \<open>The switch over the type of the element.\<close>

definition dispatch :: "'s SmlCallbacks_t \<Rightarrow> decoded \<Rightarrow> ('s, int) cmd" where
  "dispatch callbacks d =
     (case cmdType d of
        SML_PE_ADD \<Rightarrow> handled (addCmdFunc callbacks) (with_generic d)
      | SML_PE_ALERT \<Rightarrow>
          handled (alertCmdFunc callbacks) (\<lambda>f. case d of Alert_cmd i a \<Rightarrow> f i a | _ \<Rightarrow> lift Ub)
      | SML_PE_DELETE \<Rightarrow> handled (deleteCmdFunc callbacks) (with_generic d)
      | SML_PE_PUT \<Rightarrow> handled (putCmdFunc callbacks) (with_generic d)
      | SML_PE_GET \<Rightarrow>
          handled (getCmdFunc callbacks) (\<lambda>f. case d of Get_cmd i its \<Rightarrow> f i its | _ \<Rightarrow> lift Ub)
      | SML_PE_STATUS \<Rightarrow>
          handled (statusCmdFunc callbacks) (\<lambda>f. case d of Status_cmd st \<Rightarrow> f st | _ \<Rightarrow> lift Ub)
      | SML_PE_SYNC_START \<Rightarrow> handled (startSyncFunc callbacks) (\<lambda>f. f d)
      | SML_PE_SYNC_END \<Rightarrow> handled (endSyncFunc callbacks) (\<lambda>f. f)
      | SML_PE_REPLACE \<Rightarrow> handled (replaceCmdFunc callbacks) (with_generic d)
      | SML_PE_FINAL \<Rightarrow> ret SML_ERR_OK
      | SML_PE_SEQUENCE_START \<Rightarrow>
          handled (startSequenceFunc callbacks) (\<lambda>f. case d of Sequence_start i \<Rightarrow> f i | _ \<Rightarrow> lift Ub)
      | SML_PE_SEQUENCE_END \<Rightarrow> handled (endSequenceFunc callbacks) (\<lambda>f. f)
      | SML_PE_ATOMIC_START \<Rightarrow>
          handled (startAtomicFunc callbacks) (\<lambda>f. case d of Atomic_start i \<Rightarrow> f i | _ \<Rightarrow> lift Ub)
      | SML_PE_ATOMIC_END \<Rightarrow> handled (endAtomicFunc callbacks) (\<lambda>f. f)
      | SML_PE_COPY \<Rightarrow> handled (copyCmdFunc callbacks) (with_generic d)
      | SML_PE_MOVE \<Rightarrow> handled (moveCmdFunc callbacks) (with_generic d)
      | SML_PE_EXEC \<Rightarrow> handled (execCmdFunc callbacks) (with_generic d)
      | _ \<Rightarrow> ret SML_ERR_XLT_INVAL_PROTO_ELEM)"

text \<open>
  \<open>next_step\<close> takes one step of the decoder: the next element, the end of the document
  or an error.  The loop of \<open>process_message\<close> ends with the document, or with the first code that is
  not OK.
\<close>

datatype decoder_step = Element decoded | End_of_document bool | Decode_error int

definition next_step :: "'s SmlCallbacks_t \<Rightarrow> decoder_step \<Rightarrow> ('s, int) cmd" where
  "next_step callbacks st =
     (case st of
        Decode_error rc \<Rightarrow> ret rc
      | End_of_document final \<Rightarrow> handled (endMessageFunc callbacks) (\<lambda>f. f final)
      | Element d \<Rightarrow> dispatch callbacks d)"

fun process_loop :: "'s SmlCallbacks_t \<Rightarrow> decoded list \<Rightarrow> int + bool \<Rightarrow> ('s, int) cmd" where
  "process_loop callbacks [] fin =
     next_step callbacks (case fin of Inl rc \<Rightarrow> Decode_error rc | Inr final \<Rightarrow> End_of_document final)"
| "process_loop callbacks (d # ds) fin =
     DMC_FAIL (next_step callbacks (Element d)) (\<lambda>rc.
     if rc = SML_ERR_OK then process_loop callbacks ds fin else ret rc)"

definition start_step :: "'s SmlCallbacks_t \<Rightarrow> int + sml_sync_hdr \<Rightarrow> ('s, int) cmd" where
  "start_step callbacks h =
     (case h of
        Inl rc \<Rightarrow> ret rc
      | Inr pContent \<Rightarrow> handled (startMessageFunc callbacks) (\<lambda>f. f pContent))"

definition process_message :: "'s SmlCallbacks_t option \<Rightarrow> decoded_message \<Rightarrow> ('s, int) cmd" where
  "process_message callbacks m =
     (case callbacks of
        None \<Rightarrow> ret SML_ERR_COMMAND_NOT_HANDLED
      | Some callbacks \<Rightarrow>
          DMC_FAIL (start_step callbacks (header m)) (\<lambda>rc.
          if rc \<noteq> SML_ERR_OK then ret rc
          else process_loop callbacks (body m) (ending m)))"

section \<open>A server that is not accepted\<close>

text \<open>
  \<open>untouched e s\<close>: since \<open>e\<close> nothing of the session has changed but the two lists of elements, the
  last code for the client, the state of the sequence, and what is left of the allocator's schedule.
\<close>

definition untouched :: "('w, 'z) internals_t_scheme \<Rightarrow> ('w, 'z) internals_t_scheme \<Rightarrow> bool" where
  "untouched e s \<longleftrightarrow>
     (\<exists>l old c q k m. s = e\<lparr>elem_list := l, old_elem := old, clt_auth := c, sequence := q, seq_code := k, mem := m\<rparr>)"

lemma untouchedI:
  "s = e\<lparr>elem_list := l, old_elem := old, clt_auth := c, sequence := q, seq_code := k, mem := m\<rparr> \<Longrightarrow> untouched e s"
  unfolding untouched_def by blast

lemma untouched_refl [simp]: "untouched e e"
  by (rule untouchedI [where l = "elem_list e" and old = "old_elem e" and c = "clt_auth e" and q = "sequence e" and k = "seq_code e" and m = "mem e"]) simp

lemma untouched_trans: "untouched a b \<Longrightarrow> untouched b c \<Longrightarrow> untouched a c"
  unfolding untouched_def by (elim exE) (simp, blast)

lemma untouched_same: "untouched e s \<Longrightarrow> srv_auth s = srv_auth e"
  by (auto simp: untouched_def)

lemma untouched_update [simp]:
  assumes "untouched e s"
  shows "untouched e (s\<lparr>old_elem := old\<rparr>)" "untouched e (s\<lparr>clt_auth := c\<rparr>)"
    "untouched e (s\<lparr>sequence := q, seq_code := k\<rparr>)"
proof -
  have t: "untouched e (s\<lparr>elem_list := l, old_elem := old, clt_auth := c, sequence := q, seq_code := k, mem := m\<rparr>)"
    for l old c q k m
    by (rule untouched_trans [OF assms untouchedI [OF refl]])
  show "untouched e (s\<lparr>old_elem := old\<rparr>)"
    using t [where l = "elem_list s" and old = old and c = "clt_auth s" and q = "sequence s" and k = "seq_code s" and m = "mem s"] by simp
  show "untouched e (s\<lparr>clt_auth := c\<rparr>)"
    using t [where l = "elem_list s" and old = "old_elem s" and c = c and q = "sequence s" and k = "seq_code s" and m = "mem s"] by simp
  show "untouched e (s\<lparr>sequence := q, seq_code := k\<rparr>)"
    using t [where l = "elem_list s" and old = "old_elem s" and c = "clt_auth s" and q = q and k = k and m = "mem s"] by simp
qed

lemma calm_untouched: "calm e s \<Longrightarrow> untouched e s"
proof -
  assume "calm e s"
  then obtain l m where "s = e\<lparr>elem_list := l, mem := m\<rparr>" by (auto simp: calm_def)
  then have "s = e\<lparr>elem_list := l, old_elem := old_elem e, clt_auth := clt_auth e, sequence := sequence e,
      seq_code := seq_code e, mem := m\<rparr>" by simp
  then show ?thesis by (rule untouchedI)
qed

lemma keeps_untouched: "(\<And>e. keeps (calm e) m) \<Longrightarrow> keeps (untouched e) m"
  unfolding keeps_def by (metis calm_refl calm_untouched untouched_trans)

lemma untouched_drawn: "(\<And>e. keeps (drawn e) m) \<Longrightarrow> keeps (untouched e) m"
  by (rule keeps_untouched) (rule keeps_calm_drawn)

text \<open>An element that is no status with a challenge.\<close>

definition no_challenge :: "decoded \<Rightarrow> bool" where
  "no_challenge d \<longleftrightarrow> (case d of Status_cmd st \<Rightarrow> rx_chal st = None | _ \<Rightarrow> True)"

lemma drawn_retrieve_loop [keeps_rules]: "keeps (drawn e) (retrieve_loop cs c i)"
proof (induction cs)
  case (Cons x xs)
  then show ?case unfolding retrieve_loop.simps by (intro keeps_rules)
qed (simp add: keeps_ret)

lemma untouched_retrieve: "keeps (untouched e) (retrieve_element c m)"
proof (rule keepsI)
  fix s assume s: "untouched e s"
  have k: "keeps (untouched e) (DMC_FAIL (retrieve_loop cs c i) (\<lambda>(r, rest) s. (Val r, s\<lparr>old_elem := rest\<rparr>)))" for cs i
    by (intro keeps_FAIL [OF untouched_drawn [OF drawn_retrieve_loop]]) (auto simp: keeps_def split: prod.splits)
  show "untouched e (snd (retrieve_element c m s))"
  proof (cases "ref_number m")
    case (Val i)
    then show ?thesis
      using k [of "old_elem s" i] s by (simp add: retrieve_element_def DMC_FAIL_def lift_def keeps_def)
  qed (use s in \<open>simp_all add: retrieve_element_def DMC_FAIL_def lift_def\<close>)
qed

lemma untouched_status:
  assumes "rx_chal st = None"
  shows "keeps (untouched e) (prv_status_cmd_cb st)"
proof -
  have "keeps (untouched e) (put_back_element c)" for c
    by (auto simp: keeps_def put_back_element_def)
  then have c: "keeps (untouched e) (command_status n c m)" for n c m
    unfolding command_status_def
    by (intro keeps_FAIL untouched_retrieve keeps_option keeps_if keeps_ret keeps_untouched [OF calm_add_element])
  have h: "keeps (untouched e) (header_status n None)" for n
    by (auto simp: keeps_def header_status_def ret_def)
  show ?thesis
    unfolding prv_status_cmd_cb_def assms
    by (intro keeps_FAIL keeps_option keeps_if keeps_ret c h untouched_drawn [OF drawn_pcdata2string]
        untouched_drawn [OF drawn_pcdata_to_int])
qed

lemma blocked_untouched:
  assumes "\<And>e s. blocked e \<Longrightarrow> calm e s \<Longrightarrow> calm e (snd (f s))" and "untouched e s"
    and "srv_auth e \<noteq> OMADM_SYNCML_ERROR_AUTHENTICATION_ACCEPTED"
  shows "untouched e (snd (f s))"
proof -
  have "blocked s" using assms(2,3) untouched_same [OF assms(2)] by (simp add: blocked_def)
  then have "calm s (snd (f s))" by (rule assms(1)) simp
  then show ?thesis using assms(2) calm_untouched untouched_trans by blast
qed

lemma start_sequence_eq:
  "prv_start_sequence_cb i s = (Val SML_ERR_OK, s\<lparr>sequence := Freed,
     seq_code := (if srv_auth s = OMADM_SYNCML_ERROR_AUTHENTICATION_ACCEPTED then OMADM_SYNCML_ERROR_SUCCESS
                  else srv_auth s)\<rparr>)"
  by (simp add: prv_start_sequence_cb_def release_def)

lemma dispatch_refused:
  assumes "untouched e s" and "srv_auth e \<noteq> OMADM_SYNCML_ERROR_AUTHENTICATION_ACCEPTED" and "no_challenge d"
  shows "untouched e (snd (dispatch (library_callbacks junk nonce) d s))"
proof -
  note b = blocked_untouched [OF _ assms(1,2)]
  have seq: "untouched e (snd (prv_start_sequence_cb i s))" for i
    using untouched_update(3) [OF assms(1)] by (simp add: start_sequence_eq)
  have "keeps (untouched e) (DMC_FAIL (lift p) (\<lambda>x. DMC_FAIL (create_status c (map_option (Pair ty) x)) (\<lambda>st.
      DMC_FAIL (add_element (new_element (Status st))) (\<lambda>_ s. (Val SML_ERR_OK, s\<lparr>sequence := Null, seq_code := 0\<rparr>)))))"
    for c p and ty :: SmlProtoElement_t
    by (intro keeps_FAIL keeps_lift keeps_untouched [OF calm_statuses(1)] keeps_untouched [OF calm_statuses(3)]
        keeps_untouched [OF calm_add_element])
      (simp add: keeps_def)
  then have fin: "untouched e (snd (prv_end_sequence_cb s))"
    using assms(1) by (simp add: prv_end_sequence_cb_def keeps_def)
  have at: "untouched e (snd (prv_start_atomic_cb i s))" for i
    by (rule b) (rule calm_atomic)
  show ?thesis
  proof (cases d)
    case (Status_cmd st)
    then show ?thesis
      using untouched_status [of st e] assms(1,3)
      by (simp add: dispatch_def library_callbacks_def handled_def no_challenge_def keeps_def)
  next
    case (Generic_cmd i c)
    then show ?thesis
      using assms(1) b [OF blocked_generic [where i = i and c = c]] seq fin at b [OF blocked_exec [where i = i and c = c]]
      by (cases "gc_type c") (simp_all add: dispatch_def library_callbacks_def handled_def with_generic_def
          ret_def lift_def prv_end_atomic_cb_def)
  next
    case (Other_element t)
    then show ?thesis
      using assms(1) seq fin
      by (cases t) (simp_all add: dispatch_def library_callbacks_def handled_def with_generic_def
          ret_def lift_def prv_end_atomic_cb_def)
  qed (use assms(1) at seq b [OF blocked_alert] b [OF blocked_get] b [OF blocked_exec] in
      \<open>simp_all add: dispatch_def library_callbacks_def handled_def with_generic_def\<close>)
qed


section \<open>Sequences\<close>

text \<open>A status changes the waiting elements, the account and the verdict on the client.\<close>

locale status_frame = command_frame I for I :: "('w, 'z) internals_t_scheme \<Rightarrow> bool" +
  assumes waiting: "I s \<Longrightarrow> I (s\<lparr>old_elem := l\<rparr>)" and credentials: "I s \<Longrightarrow> I (s\<lparr>account := a\<rparr>)"
    and verdict: "I s \<Longrightarrow> I (s\<lparr>clt_auth := c\<rparr>)"
begin

lemma frame_set_account: "keeps I (set_account f)"
  using credentials by (auto simp: keeps_def set_account_def split: option.split)

lemma frame_take_challenge: "keeps I (take_challenge m)"
  unfolding take_challenge_def
  by (intro keeps_FAIL frame_drawn [OF drawn_from_chal_meta] keeps_prod keeps_if_at keeps_now keeps_option_at
      keeps_option keeps_lift frame_set_account frame_store_nonce)

lemma frame_retrieve: "keeps I (retrieve_element c m)"
proof -
  have "keeps I (\<lambda>s. DMC_FAIL (retrieve_loop (old_elem s) c i) (\<lambda>(r, rest) s. (Val r, s\<lparr>old_elem := rest\<rparr>)) s)" for i
  proof (rule keepsI)
    fix s assume s: "I s"
    have "keeps I (DMC_FAIL (retrieve_loop cs c i) (\<lambda>(r, rest) s. (Val r, s\<lparr>old_elem := rest\<rparr>)))" for cs
      using waiting
      by (intro keeps_FAIL [OF frame_drawn [OF drawn_retrieve_loop]]) (auto simp: keeps_def split: prod.splits)
    then show "I (snd (DMC_FAIL (retrieve_loop (old_elem s) c i) (\<lambda>(r, rest) s. (Val r, s\<lparr>old_elem := rest\<rparr>)) s))"
      using s by (simp add: keeps_def)
  qed
  then show ?thesis
    unfolding retrieve_element_def by (intro keeps_FAIL keeps_lift)
qed

lemma frame_status_cb: "keeps I (prv_status_cmd_cb st)"
proof -
  have p: "keeps I (put_back_element c)" for c
    using waiting by (simp add: keeps_def put_back_element_def)
  have h: "keeps I (header_status n x)" for n x
    using verdict frame_take_challenge by (auto simp: header_status_def keeps_def ret_def split: option.split)
  show ?thesis
    unfolding prv_status_cmd_cb_def command_status_def
    by (intro keeps_FAIL keeps_option keeps_if keeps_ret keeps_lift p h frame_retrieve frame_add_element
        frame_drawn [OF drawn_pcdata2string] frame_drawn [OF drawn_pcdata_to_int])
qed

end

interpretation in_seq: status_frame "\<lambda>s. sequence s = Freed"
proof unfold_locales
  fix s t :: "('w, 'z) internals_t_scheme"
  assume "same_setting s t" "sequence s = Freed"
  then show "sequence t = Freed" by (cases s; cases t) (simp add: same_setting_def)
qed simp_all

lemma end_of_freed [simp]: "sequence s = Freed \<Longrightarrow> prv_end_sequence_cb s = (Ub, s)"
  by (simp add: prv_end_sequence_cb_def read_pointer_def DMC_FAIL_def lift_def)

lemma in_seq_dispatch:
  assumes "sequence s = Freed" and "dispatch (library_callbacks junk nonce) d s = (r, t)"
  shows "sequence t = Freed"
proof -
  note k = in_seq.frame_generic_cb in_seq.frame_exec_cb in_seq.frame_get_cb in_seq.frame_alert_cb in_seq.frame_start_atomic
    in_seq.frame_status_cb
  show ?thesis
    using assms keepsD [OF k(1) assms(1)] keepsD [OF k(2) assms(1)] keepsD [OF k(3) assms(1)]
      keepsD [OF k(4) assms(1)] keepsD [OF k(5) assms(1)] keepsD [OF k(6) assms(1)]
    by (cases d)
      (auto simp: dispatch_def library_callbacks_def handled_def with_generic_def ret_def lift_def Let_def
        start_sequence_eq prv_end_atomic_cb_def split: SmlProtoElement_t.splits)
qed

lemma sequence_end_undefined:
  fixes s :: "('w, 'z) internals_t_scheme"
  shows "sequence s = Freed \<Longrightarrow>
    fst (process_loop (library_callbacks junk nonce) ds (Inr final) s) = Val SML_ERR_OK \<Longrightarrow>
    fst (process_loop (library_callbacks junk nonce) (ds @ Other_element SML_PE_SEQUENCE_END # ds') fin s) = Ub"
proof (induction ds arbitrary: s)
  case Nil
  then show ?case
    by (simp add: next_step_def dispatch_def handled_def library_callbacks_def DMC_FAIL_def)
next
  case (Cons d ds)
  obtain r t where d: "dispatch (library_callbacks junk nonce) d s = (r, t)" by fastforce
  then have r: "r = Val SML_ERR_OK" and t: "fst (process_loop (library_callbacks junk nonce) ds (Inr final) t) = Val SML_ERR_OK"
    using Cons.prems(2) by (cases r; auto simp: next_step_def DMC_FAIL_def ret_def split: if_splits)+
  show ?case
    using d r Cons.IH [OF in_seq_dispatch [OF Cons.prems(1) d] t] by (simp add: next_step_def DMC_FAIL_def)
qed

text \<open>
  C32. The start of a sequence is freed when it has been kept, and the status at the end of the sequence
  is made from it: when the start and the elements of a sequence have been processed without an error,
  its end is undefined behaviour, whatever follows.
\<close>

theorem sequence_never_completes:
  assumes "fst (process_loop (library_callbacks junk nonce) (Sequence_start i # ds) (Inr final) s) = Val SML_ERR_OK"
  shows "fst (process_loop (library_callbacks junk nonce)
    (Sequence_start i # ds @ Other_element SML_PE_SEQUENCE_END # ds') fin s) = Ub"
proof -
  obtain t where t: "dispatch (library_callbacks junk nonce) (Sequence_start i) s = (Val SML_ERR_OK, t)" "sequence t = Freed"
    by (auto simp: dispatch_def handled_def library_callbacks_def start_sequence_eq)
  then have "fst (process_loop (library_callbacks junk nonce) ds (Inr final) t) = Val SML_ERR_OK"
    using assms by (simp add: next_step_def DMC_FAIL_def)
  from sequence_end_undefined [OF t(2) this] show ?thesis using t(1) by (simp add: next_step_def DMC_FAIL_def)
qed

section \<open>Credentials nobody can check\<close>

lemma chal_meta_no_err: "get_from_chal_meta m False h \<noteq> (Err e, h')"
  by (auto simp: get_from_chal_meta_def cmd_defs Let_def no_err split: option.splits pcdata.splits prod.splits outcome.splits)

lemma null_credentials:
  assumes "account s = Some a" and "toClientCred a = None"
  shows "fst (check_header_cred junk nonce (Some c) s) = Ub"
proof -
  have e: "check_credentials junk c None h \<noteq> (Err x, h')" for x h h'
    by (auto simp: check_credentials_def DMC_FAIL_val DMC_FAIL_def ret_def lift_def no_err chal_meta_no_err
        split: prod.splits outcome.splits option.splits)
  show ?thesis
    using assms e
    by (auto simp: check_header_cred_def get_challenge_def DMC_FAIL_def lift_def split: prod.split outcome.split)
qed

text \<open>
  C33. The start of a session accepts a server for which the account has no credentials; credentials in
  the header of its message are checked against a null pointer.
\<close>

theorem unexpected_credentials_crash:
  assumes "hd_cred h = Some c" and "account s = Some a" and "toClientCred a = None"
  shows "fst (prv_start_message_cb junk nonce h s) = Ub"
proof -
  let ?s = "s\<lparr>sequence := Null, seq_code := 0\<rparr>"
  obtain r t where m: "smlPcdata2String (hd_msgID h) ?s = (r, t)" by fastforce
  show ?thesis
  proof (cases r)
    case (Val x)
    have "drawn ?s t" by (rule keepsD [OF drawn_pcdata2string drawn_refl m])
    then have "account (t\<lparr>reply_ref := x\<rparr>) = Some a"
      using drawn_calm [of ?s t] calmD(3) [of ?s t] assms(2) by simp
    from null_credentials [OF this assms(3)] show ?thesis
      using assms(1) by (simp add: prv_start_message_cb_def FAIL_at [of "smlPcdata2String (hd_msgID h)", OF m [unfolded Val]] FAIL_Ub)
  qed (use m in \<open>simp_all add: prv_start_message_cb_def DMC_FAIL_def no_err\<close>)
qed

section \<open>Witnesses\<close>

definition sample_header :: sml_sync_hdr where
  "sample_header = \<lparr>hd_msgID = Some (pc_text ''1''), hd_target = None, hd_source = None, hd_respURI = None,
     hd_cred = Some \<lparr>cred_meta = None, cred_data = None\<rparr>\<rparr>"

theorem unexpected_credentials_crash_witness:
  "fst (prv_start_message_cb [] [] sample_header (sample_session\<lparr>account := Some account_zero\<rparr>)) = Ub"
  by (rule unexpected_credentials_crash [of _ "\<lparr>cred_meta = None, cred_data = None\<rparr>" _ account_zero])
    (simp_all add: sample_header_def account_zero_def)

theorem sequence_never_completes_witness:
  "fst (process_loop (library_callbacks [] [])
     [Sequence_start (Some (pc_text ''3'')),
      Generic_cmd (Some (pc_text ''4'')) \<lparr>gc_type = SML_PE_DELETE, gc_items = [text_item ''./a''], gc_correlator = None\<rparr>,
      Other_element SML_PE_SEQUENCE_END] (Inr True) sample_session) = Ub"
proof -
  let ?d = "Generic_cmd (Some (pc_text ''4'')) \<lparr>gc_type = SML_PE_DELETE, gc_items = [text_item ''./a''], gc_correlator = None\<rparr>"
  have "fst (process_loop (library_callbacks [] []) [Sequence_start (Some (pc_text ''3'')), ?d] (Inr True) sample_session) =
      Val SML_ERR_OK"
    by code_simp
  from sequence_never_completes [OF this, of "[]" "Inr True"] show ?thesis by simp
qed


section \<open>What a message leaves alone\<close>

text \<open>What holds whatever the header says and wherever a sequence begins is kept by every callback.\<close>

locale message_frame = status_frame I for I :: "('w, 'z) internals_t_scheme \<Rightarrow> bool" +
  assumes sequenced: "I s \<Longrightarrow> I (s\<lparr>sequence := b, seq_code := c\<rparr>)"
    and replied: "I s \<Longrightarrow> I (s\<lparr>reply_ref := r\<rparr>)" and judged: "I s \<Longrightarrow> I (s\<lparr>srv_auth := c\<rparr>)"
begin

lemma frame_new_uri: "keeps I (set_new_uri uri)"
proof (rule keepsI)
  fix s assume s: "I s"
  obtain r t where m: "strdup uri s = (r, t)" by fastforce
  have "I t" by (rule keepsD [OF frame_malloc s m])
  then show "I (snd (set_new_uri uri s))"
    using s m credentials by (simp add: set_new_uri_def split: option.split)
qed

lemma frame_header_cred: "keeps I (check_header_cred junk nonce cr)"
  unfolding check_header_cred_def [abs_def]
  by (intro keeps_option_at keeps_option keeps_now keeps_FAIL frame_drawn [OF drawn_check_credentials]
      keeps_before [where f = "srv_auth_update _"] judged keeps_prod keeps_ret frame_set_account frame_store_nonce
      frame_drawn [OF drawn_get_challenge])

lemma frame_start_message: "keeps I (prv_start_message_cb junk nonce h)"
  unfolding prv_start_message_cb_def [abs_def]
  by (intro keeps_before [where f = "\<lambda>s. s\<lparr>sequence := _, seq_code := _\<rparr>"] sequenced
      keeps_before [where f = "reply_ref_update _"] replied keeps_FAIL frame_drawn [OF drawn_pcdata2string]
      frame_header_cred keeps_option keeps_ret frame_new_uri
      keeps_at [where g = srv_auth and m = "\<lambda>c. DMC_FAIL (create_status c None) _"]
      frame_statuses frame_drawn [OF drawn_add_refs(1)] frame_drawn [OF drawn_add_refs(2)] frame_add_element)

lemma frame_sequence: "keeps I (prv_start_sequence_cb i)" "keeps I prv_end_sequence_cb"
proof -
  show "keeps I (prv_start_sequence_cb i)"
    by (rule keepsI) (simp add: start_sequence_eq sequenced)
  have u: "keeps I (\<lambda>s. (Val c, s\<lparr>sequence := Null, seq_code := 0\<rparr>))" for c :: int
    by (rule keepsI) (simp add: sequenced)
  have "keeps I (DMC_FAIL (lift p) (\<lambda>x. DMC_FAIL (create_status c (map_option (Pair ty) x)) (\<lambda>st.
      DMC_FAIL (add_element (new_element (Status st))) (\<lambda>_ s. (Val SML_ERR_OK, s\<lparr>sequence := Null, seq_code := 0\<rparr>)))))"
    for c p and ty :: SmlProtoElement_t
    by (intro keeps_FAIL keeps_lift frame_statuses frame_add_element u)
  then show "keeps I prv_end_sequence_cb"
    unfolding prv_end_sequence_cb_def [abs_def] by (simp add: keeps_def)
qed

lemma frame_with_generic: "(\<And>i c. keeps I (f i c)) \<Longrightarrow> keeps I (with_generic d f)"
  unfolding with_generic_def by (cases d) (simp_all add: keeps_lift)

lemma frame_dispatch: "keeps I (dispatch (library_callbacks junk nonce) d)"
proof -
  have "keeps I (case d of Alert_cmd i a \<Rightarrow> prv_alert_cmd_cb i a | _ \<Rightarrow> lift Ub)"
    "keeps I (case d of Get_cmd i its \<Rightarrow> prv_get_cmd_cb i its | _ \<Rightarrow> lift Ub)"
    "keeps I (case d of Status_cmd st \<Rightarrow> prv_status_cmd_cb st | _ \<Rightarrow> lift Ub)"
    "keeps I (case d of Atomic_start i \<Rightarrow> prv_start_atomic_cb i | _ \<Rightarrow> lift Ub)"
    "keeps I (case d of Sequence_start i \<Rightarrow> prv_start_sequence_cb i | _ \<Rightarrow> lift Ub)"
    by (cases d; simp add: keeps_lift frame_alert_cb frame_get_cb frame_status_cb frame_start_atomic frame_sequence)+
  then show ?thesis
    by (cases "cmdType d") (simp_all add: dispatch_def library_callbacks_def handled_def keeps_ret
        frame_with_generic frame_generic_cb frame_exec_cb frame_sequence prv_end_atomic_cb_def)
qed

end

end
