(* ===== verification/Instance_Ops.thy ===== *)
theory Instance_Ops
  imports Dispatcher Workspace
begin

text \<open>
  What the toolkit does with an instance: it builds messages (\<^verbatim>\<open>mgrcmdbuilder.c\<close>) and processes
  those received (\<^verbatim>\<open>mgrcmddispatcher.c\<close>), through the buffer of \<open>Workspace\<close>.

  The encoder and the decoder (\<^verbatim>\<open>xlt\<close>) are a parameter: a record of their entry points.  An
  encoder is given the room there is and returns the bytes it writes; a decoder is given the bytes
  to read and returns how many it took.  Both allocate.  Bytes an encoder has written before it fails
  are left in the buffer, behind the write pointer, where nothing reads them.
\<close>

section \<open>The session and its instance\<close>

text \<open>The header of a message that is built: its meta information holds the size of a message.\<close>

record sml_out_hdr =
  oh_version :: pcdata
  oh_proto :: pcdata
  oh_sessionID :: pcdata
  oh_msgID :: pcdata
  oh_target :: pcdata
  oh_source :: pcdata
  oh_cred :: "sml_cred option"
  oh_maxmsgsize :: "pcdata option option"

record ('e, 'd) translator =
  xltEncInit :: "SmlEncoding_t \<Rightarrow> sml_out_hdr option \<Rightarrow> int \<Rightarrow> (heap, 8 word list \<times> 'e) cmd"
  xltEncAppend :: "'e \<Rightarrow> SmlProtoElement_t \<Rightarrow> basicElement_t \<Rightarrow> int \<Rightarrow> (heap, 8 word list \<times> 'e) cmd"
  xltEncTerminate :: "'e \<Rightarrow> bool \<Rightarrow> int \<Rightarrow> (heap, 8 word list) cmd"
  xltDecInit :: "SmlEncoding_t \<Rightarrow> 8 word list \<Rightarrow> (heap, int \<times> 'd \<times> sml_sync_hdr) cmd"
  xltDecNext :: "'d \<Rightarrow> 8 word list \<Rightarrow> (heap, int \<times> 'd \<times> (decoded + bool)) cmd"

text \<open>
  A session and the instance it refers to.  The callbacks act on the session alone, the buffer
  operations on the instance alone.
\<close>

record ('w, 'e, 'd) client_t =
  session :: "'w internals_t"
  smlH :: "('e, 'd) InstanceInfo_t option"

definition on_session :: "('w internals_t, 'a) cmd \<Rightarrow> (('w, 'e, 'd) client_t, 'a) cmd" where
  "on_session m c = (case m (session c) of (r, s) \<Rightarrow> (r, c\<lparr>session := s\<rparr>))"

definition on_smlH :: "(('e, 'd) InstanceInfo_t, 'a) cmd \<Rightarrow> (('w, 'e, 'd) client_t, 'a) cmd" where
  "on_smlH m c = (case on_instance m (smlH c) of (r, i) \<Rightarrow> (r, c\<lparr>smlH := i\<rparr>))"

definition on_heap :: "(heap, 'a) cmd \<Rightarrow> ('z heap_scheme, 'a) cmd" where
  "on_heap m h = (case m \<lparr>mem = mem h\<rparr> of (r, k) \<Rightarrow> (r, h\<lparr>mem := mem k\<rparr>))"

abbreviation translating :: "(heap, 'a) cmd \<Rightarrow> (('w, 'e, 'd) client_t, 'a) cmd" where
  "translating m \<equiv> on_session (on_heap m)"

text \<open>A null instance is the error of every call.\<close>

definition instance_of :: "(('w, 'e, 'd) client_t, ('e, 'd) InstanceInfo_t) cmd" where
  "instance_of = on_smlH (\<lambda>i. (Val i, i))"

definition set_instance ::
  "(('e, 'd) InstanceInfo_t \<Rightarrow> ('e, 'd) InstanceInfo_t) \<Rightarrow> (('w, 'e, 'd) client_t, unit) cmd" where
  "set_instance f = on_smlH (\<lambda>i. (Val (), f i))"

text \<open>A call whose code is ignored.\<close>

definition ignoring :: "('s, 'a) cmd \<Rightarrow> ('s, unit) cmd" where
  "ignoring m s = (case m s of (Ub, s) \<Rightarrow> (Ub, s) | (_, s) \<Rightarrow> (Val (), s))"

definition failing :: "int \<Rightarrow> ('s, 'a) cmd" where
  "failing rc s = (Err rc, s)"

section \<open>Building a message\<close>

text \<open>The write lock, which is released without a write when it cannot be had.\<close>

definition lock_write :: "(('w, 'e, 'd) client_t, int \<times> int) cmd" where
  "lock_write =
     try_code (on_smlH smlLockWriteBuffer) (\<lambda>r.
     case r of
       Inl rc \<Rightarrow> DMC_FAIL (ignoring (on_smlH (smlUnlockWriteBuffer 0))) (\<lambda>_. failing rc)
     | Inr pn \<Rightarrow> ret pn)"

definition drop_encoder :: "int \<Rightarrow> (('w, 'e, 'd) client_t, 'a) cmd" where
  "drop_encoder rc =
     DMC_FAIL (ignoring (on_smlH (smlUnlockWriteBuffer 0))) (\<lambda>_.
     DMC_FAIL (set_instance (\<lambda>i. i\<lparr>encoderState := None\<rparr>)) (\<lambda>_. failing rc))"

text \<open>The bytes of the encoder, and the end of the write access.\<close>

definition written :: "int \<Rightarrow> 8 word list \<Rightarrow> (('w, 'e, 'd) client_t, unit) cmd" where
  "written p bs =
     DMC_FAIL (on_smlH (put_bytes p bs)) (\<lambda>_. on_smlH (smlUnlockWriteBuffer (int (length bs))))"

definition encoded :: "int \<Rightarrow> 8 word list \<times> 'e \<Rightarrow> (('w, 'e, 'd) client_t, unit) cmd" where
  "encoded p w =
     DMC_FAIL (set_instance (\<lambda>i. i\<lparr>encoderState := Some (snd w)\<rparr>)) (\<lambda>_. written p (fst w))"

definition smlStartMessageExt ::
  "('e, 'd) translator \<Rightarrow> sml_out_hdr option \<Rightarrow> (('w, 'e, 'd) client_t, unit) cmd" where
  "smlStartMessageExt T pContent =
     DMC_FAIL instance_of (\<lambda>_.
     DMC_FAIL (on_smlH smlSetOutgoingBegin) (\<lambda>_.
     DMC_FAIL lock_write (\<lambda>(p, n).
     DMC_FAIL instance_of (\<lambda>i.
     case inst_encoding i of
       None \<Rightarrow> lift Ub
     | Some enc \<Rightarrow>
         try_code (translating (xltEncInit T enc pContent n)) (\<lambda>r.
         case r of
           Inl rc \<Rightarrow> drop_encoder rc
         | Inr w \<Rightarrow> encoded p w)))))"

text \<open>
  A full buffer is reported to the callback, and the element is encoded once more.  Without that
  callback the access ends with nothing written, and the code is the one of a success.
\<close>

definition mgrCreateNextCommand ::
  "('e, 'd) translator \<Rightarrow> ('w internals_t) SmlCallbacks_t \<Rightarrow> SmlProtoElement_t \<Rightarrow> basicElement_t \<Rightarrow>
     (('w, 'e, 'd) client_t, unit) cmd" where
  "mgrCreateNextCommand T cbs type pContent =
     DMC_FAIL instance_of (\<lambda>i.
     case encoderState i of
       None \<Rightarrow> failing SML_ERR_MGR_INVALID_INSTANCE_INFO
     | Some e \<Rightarrow>
         DMC_FAIL lock_write (\<lambda>(p, n).
         try_code (translating (xltEncAppend T e type pContent n)) (\<lambda>r.
         case r of
           Inr w \<Rightarrow> encoded p w
         | Inl rc \<Rightarrow>
             if rc \<noteq> SML_ERR_XLT_BUF_ERR then drop_encoder rc
             else if \<not> has_callbacks i then lift Ub
             else case transmitChunkFunc cbs of
               None \<Rightarrow> on_smlH (smlUnlockWriteBuffer 0)
             | Some f \<Rightarrow>
                 DMC_FAIL (ignoring (on_smlH (smlUnlockWriteBuffer 0))) (\<lambda>_.
                 DMC_FAIL (on_session f) (\<lambda>_.
                 DMC_FAIL (on_smlH smlLockWriteBuffer) (\<lambda>(p, n).
                 try_code (translating (xltEncAppend T e type pContent n)) (\<lambda>r.
                 case r of
                   Inr w \<Rightarrow> encoded p w
                 | Inl rc \<Rightarrow> drop_encoder rc)))))))"

definition smlEndMessage :: "('e, 'd) translator \<Rightarrow> bool \<Rightarrow> (('w, 'e, 'd) client_t, unit) cmd" where
  "smlEndMessage T final =
     DMC_FAIL instance_of (\<lambda>i.
     case encoderState i of
       None \<Rightarrow> failing SML_ERR_MGR_INVALID_INSTANCE_INFO
     | Some e \<Rightarrow>
         DMC_FAIL lock_write (\<lambda>(p, n).
         try_code (translating (xltEncTerminate T e final n)) (\<lambda>r.
         case r of
           Inl rc \<Rightarrow> drop_encoder rc
         | Inr bs \<Rightarrow>
             DMC_FAIL (set_instance (\<lambda>i. i\<lparr>encoderState := None\<rparr>)) (\<lambda>_. written p bs))))"

section \<open>Processing a message\<close>

text \<open>The read lock, which is released without progress when it cannot be had.\<close>

definition lock_read :: "(('w, 'e, 'd) client_t, int \<times> int) cmd" where
  "lock_read =
     try_code (on_smlH smlLockReadBuffer) (\<lambda>r.
     case r of
       Inl rc \<Rightarrow> DMC_FAIL (ignoring (on_smlH (smlUnlockReadBuffer 0))) (\<lambda>_. failing rc)
     | Inr pn \<Rightarrow> ret pn)"

text \<open>The end of a message that is not processed further: what is left of it is lost.\<close>

definition drop_decoder :: "int \<Rightarrow> (('w, 'e, 'd) client_t, 'a) cmd" where
  "drop_decoder rc =
     DMC_FAIL (ignoring (on_smlH (smlUnlockReadBuffer 0))) (\<lambda>_.
     DMC_FAIL (set_instance (\<lambda>i. mgrResetWorkspace (i\<lparr>decoderState := None\<rparr>))) (\<lambda>_. failing rc))"

text \<open>A callback that may be missing; its code is an error unless it is OK.\<close>

definition calling :: "('w internals_t, int) cmd \<Rightarrow> (('w, 'e, 'd) client_t, unit) cmd" where
  "calling f = DMC_FAIL (on_session f) (\<lambda>rc. if rc = SML_ERR_OK then ret () else failing rc)"

definition mgrProcessStartMessage ::
  "('e, 'd) translator \<Rightarrow> ('w internals_t) SmlCallbacks_t \<Rightarrow> (('w, 'e, 'd) client_t, unit) cmd" where
  "mgrProcessStartMessage T cbs =
     DMC_FAIL lock_read (\<lambda>(p, n).
     DMC_FAIL (set_instance (\<lambda>i. i\<lparr>incomingMsgStart := Some p\<rparr>)) (\<lambda>_.
     DMC_FAIL (on_smlH (get_bytes p n)) (\<lambda>bs.
     DMC_FAIL instance_of (\<lambda>i.
     case inst_encoding i of
       None \<Rightarrow> lift Ub
     | Some enc \<Rightarrow>
         try_code (translating (xltDecInit T enc bs)) (\<lambda>r.
         case r of
           Inl rc \<Rightarrow> drop_decoder rc
         | Inr (k, d, pContent) \<Rightarrow>
             DMC_FAIL (set_instance (\<lambda>i. i\<lparr>decoderState := Some d\<rparr>)) (\<lambda>_.
             DMC_FAIL (on_smlH (smlUnlockReadBuffer k)) (\<lambda>_.
             case startMessageFunc cbs of
               None \<Rightarrow> failing SML_ERR_COMMAND_NOT_HANDLED
             | Some f \<Rightarrow>
                 try_code (calling (f pContent)) (\<lambda>r. case r of Inl rc \<Rightarrow> drop_decoder rc | Inr _ \<Rightarrow> ret ()))))))))"

definition mgrProcessNextCommand ::
  "('e, 'd) translator \<Rightarrow> ('w internals_t) SmlCallbacks_t \<Rightarrow> (('w, 'e, 'd) client_t, unit) cmd" where
  "mgrProcessNextCommand T cbs =
     DMC_FAIL lock_read (\<lambda>(p, n).
     DMC_FAIL (on_smlH (get_bytes p n)) (\<lambda>bs.
     DMC_FAIL instance_of (\<lambda>i.
     case decoderState i of
       None \<Rightarrow> lift Ub
     | Some d \<Rightarrow>
         try_code (translating (xltDecNext T d bs)) (\<lambda>r.
         case r of
           Inl rc \<Rightarrow> drop_decoder rc
         | Inr (k, d, res) \<Rightarrow>
             DMC_FAIL (set_instance (\<lambda>i. i\<lparr>decoderState := Some d\<rparr>)) (\<lambda>_.
             try_code (on_smlH (smlUnlockReadBuffer k)) (\<lambda>r.
             case r of
               Inl rc \<Rightarrow> DMC_FAIL (ignoring (on_smlH (smlUnlockReadBuffer 0))) (\<lambda>_. failing rc)
             | Inr _ \<Rightarrow>
                 (case res of
                    Inr final \<Rightarrow>
                      DMC_FAIL (set_instance (\<lambda>i. i\<lparr>decoderState := None\<rparr>)) (\<lambda>_.
                      case endMessageFunc cbs of
                        None \<Rightarrow> failing SML_ERR_COMMAND_NOT_HANDLED
                      | Some f \<Rightarrow> calling (f final))
                  | Inl cmd \<Rightarrow> calling (dispatch cbs cmd))))))))"

text \<open>
  Nothing makes a decoder come to the end of a document, so the loop takes fuel; \<open>None\<close> says
  that it was used up.
\<close>

fun process_commands ::
  "('e, 'd) translator \<Rightarrow> ('w internals_t) SmlCallbacks_t \<Rightarrow> nat \<Rightarrow> (('w, 'e, 'd) client_t, unit option) cmd" where
  "process_commands T cbs 0 = ret None"
| "process_commands T cbs (Suc fuel) =
     try_code (mgrProcessNextCommand T cbs) (\<lambda>r.
     case r of
       Inl rc \<Rightarrow> drop_decoder rc
     | Inr _ \<Rightarrow>
         DMC_FAIL instance_of (\<lambda>i.
         if decoderState i = None then ret (Some ()) else process_commands T cbs fuel))"

definition smlProcessData ::
  "('e, 'd) translator \<Rightarrow> ('w internals_t) SmlCallbacks_t \<Rightarrow> nat \<Rightarrow> (('w, 'e, 'd) client_t, unit option) cmd" where
  "smlProcessData T cbs fuel =
     DMC_FAIL instance_of (\<lambda>i.
     if \<not> has_callbacks i then failing SML_ERR_COMMAND_NOT_HANDLED
     else
       DMC_FAIL (if decoderState i = None then mgrProcessStartMessage T cbs else ret ()) (\<lambda>_.
       process_commands T cbs fuel))"

section \<open>The message as the decoder reads it\<close>

text \<open>
  \<open>decodes_body T d bs ds fin\<close>: from the state \<open>d\<close> the decoder makes the elements \<open>ds\<close> of the
  bytes \<open>bs\<close>, while memory is plenty, and comes to the end of the document or to an error.
\<close>

inductive decodes_body ::
  "('e, 'd) translator \<Rightarrow> 'd \<Rightarrow> 8 word list \<Rightarrow> decoded list \<Rightarrow> int + bool \<Rightarrow> bool" for T where
  fails: "xltDecNext T d bs \<lparr>mem = []\<rparr> = (Err rc, \<lparr>mem = []\<rparr>) \<Longrightarrow> rc \<noteq> SML_ERR_OK \<Longrightarrow>
    decodes_body T d bs [] (Inl rc)"
| ends: "xltDecNext T d bs \<lparr>mem = []\<rparr> = (Val (int k, d', Inr final), \<lparr>mem = []\<rparr>) \<Longrightarrow> k \<le> length bs \<Longrightarrow>
    decodes_body T d bs [] (Inr final)"
| continues: "xltDecNext T d bs \<lparr>mem = []\<rparr> = (Val (int k, d', Inl e), \<lparr>mem = []\<rparr>) \<Longrightarrow> k \<le> length bs \<Longrightarrow>
    decodes_body T d' (drop k bs) ds fin \<Longrightarrow> decodes_body T d bs (e # ds) fin"

text \<open>The result of an abstract step as the code of the toolkit.\<close>

fun coded :: "'a \<Rightarrow> int outcome \<Rightarrow> 'a outcome" where
  "coded a (Val rc) = (if rc = SML_ERR_OK then Val a else Err rc)"
| "coded a (Err rc) = Err rc"
| "coded a Ub = Ub"

definition reading :: "'d \<Rightarrow> ('e, 'd) InstanceInfo_t \<Rightarrow> bool" where
  "reading d i \<longleftrightarrow> well_placed i \<and> \<not> readLocked i \<and> decoderState i = Some d"

definition idle :: "('e, 'd) InstanceInfo_t \<Rightarrow> bool" where
  "idle i \<longleftrightarrow> well_placed i \<and> \<not> readLocked i \<and> decoderState i = None"

lemmas lifting = on_smlH_def on_instance_def instance_of_def set_instance_def

lemma mem_same: "mem h = [] \<Longrightarrow> h\<lparr>mem := []\<rparr> = h"
  by (cases h) simp

lemma calling_at:
  "calling f \<lparr>session = s, smlH = h\<rparr> = (coded () (fst (f s)), \<lparr>session = snd (f s), smlH = h\<rparr>)"
  by (cases "f s"; cases "fst (f s)") (auto simp: calling_def on_session_def DMC_FAIL_def failing_def ret_def)

lemma translating_at:
  assumes "mem s = []" and "m \<lparr>mem = []\<rparr> = (r, \<lparr>mem = []\<rparr>)"
  shows "translating m \<lparr>session = s, smlH = h\<rparr> = (r, \<lparr>session = s, smlH = h\<rparr>)"
  using assms by (simp add: on_session_def on_heap_def mem_same)

lemma get_unread:
  assumes "well_placed i"
  shows "get_bytes (readPointer i) (writePointer i - readPointer i) (i\<lparr>readLocked := b, incomingMsgStart := p\<rparr>) =
    (Val (unread i), i\<lparr>readLocked := b, incomingMsgStart := p\<rparr>)"
    and "get_bytes (readPointer i) (writePointer i - readPointer i) (i\<lparr>readLocked := b\<rparr>) =
    (Val (unread i), i\<lparr>readLocked := b\<rparr>)"
  using assms by (auto simp: get_bytes_def in_buffer_def unread_def well_placed_def instanceBufSiz_def)

lemma lock_read_at:
  assumes "\<not> readLocked i"
  shows "lock_read \<lparr>session = s, smlH = Some i\<rparr> =
    (Val (readPointer i, writePointer i - readPointer i), \<lparr>session = s, smlH = Some (i\<lparr>readLocked := True\<rparr>)\<rparr>)"
  using assms by (simp add: lock_read_def try_code_def lifting smlLockReadBuffer_def ret_def)

definition dropped :: "('e, 'd) InstanceInfo_t \<Rightarrow> ('e, 'd) InstanceInfo_t" where
  "dropped i = mgrResetWorkspace (i\<lparr>readLocked := False, decoderState := None\<rparr>)"

lemma drop_decoder_at:
  "well_placed i \<Longrightarrow>
    drop_decoder rc \<lparr>session = s, smlH = Some i\<rparr> = (Err rc, \<lparr>session = s, smlH = Some (dropped i)\<rparr>)"
  by (cases i) (auto simp: drop_decoder_def ignoring_def DMC_FAIL_def lifting smlUnlockReadBuffer_def failing_def
      mgrResetWorkspace_def dropped_def well_placed_def)

lemma idle_dropped: "idle (dropped i)"
  by (simp add: idle_def dropped_def mgrResetWorkspace_def well_placed_def instanceBufSiz_def)

text \<open>The instance after a step of the decoder that took \<open>k\<close> bytes.\<close>

definition advanced :: "nat \<Rightarrow> 'd option \<Rightarrow> ('e, 'd) InstanceInfo_t \<Rightarrow> ('e, 'd) InstanceInfo_t" where
  "advanced k d i = i\<lparr>readPointer := readPointer i + int k, readLocked := False, decoderState := d\<rparr>"

lemma advanced_facts:
  assumes "well_placed i" and "k \<le> length (unread i)"
  shows "well_placed (advanced k d i)" and "unread (advanced k d i) = drop k (unread i)"
    and "\<not> readLocked (advanced k d i)" and "decoderState (advanced k d i) = d"
proof -
  have k: "int k \<le> writePointer i - readPointer i" using assms length_unread [OF assms(1)] by linarith
  then show "well_placed (advanced k d i)" using assms(1) by (simp add: well_placed_def advanced_def instanceBufSiz_def)
  obtain r where r: "readPointer i = int r" using assms(1) by (metis well_placed_def nonneg_int_cases)
  obtain w where w: "writePointer i = int w" using assms(1) by (metis well_placed_def nonneg_int_cases order_trans)
  have "unread (advanced k d i) = take (w - (r + k)) (drop (r + k) (instanceBuffer i))"
    using r w by (subst unread_at [where w = w and r = "r + k"]) (simp_all add: advanced_def)
  also have "\<dots> = drop k (unread i)"
    by (simp add: unread_at [OF w r] drop_take add.commute)
  finally show "unread (advanced k d i) = drop k (unread i)" .
qed (simp_all add: advanced_def)

lemma next_command_at:
  assumes "mem s = []" and "reading d i"
    and "xltDecNext T d (unread i) \<lparr>mem = []\<rparr> = (Val (int k, d', res), \<lparr>mem = []\<rparr>)" and "k \<le> length (unread i)"
  shows "mgrProcessNextCommand T cbs \<lparr>session = s, smlH = Some i\<rparr> =
    (case res of
       Inl e \<Rightarrow> calling (dispatch cbs e) \<lparr>session = s, smlH = Some (advanced k (Some d') i)\<rparr>
     | Inr final \<Rightarrow>
         (case endMessageFunc cbs of None \<Rightarrow> failing SML_ERR_COMMAND_NOT_HANDLED | Some f \<Rightarrow> calling (f final))
         \<lparr>session = s, smlH = Some (advanced k None i)\<rparr>)"
proof -
  have i: "well_placed i" "\<not> readLocked i" "decoderState i = Some d" using assms(2) by (auto simp: reading_def)
  have "int k \<le> writePointer i - readPointer i" using assms(4) length_unread [OF i(1)] by linarith
  then show ?thesis
    using i(3)
    by (simp add: translating_at [of s "xltDecNext T d (unread i)", OF assms(1,3)] mgrProcessNextCommand_def DMC_FAIL_def lock_read_at i(2) lifting get_unread [OF i(1)] try_code_def
        smlUnlockReadBuffer_def advanced_def split: sum.split) (cases i; simp)
qed

text \<open>The callbacks of the library keep memory plenty.\<close>

interpretation rich: message_frame "plenty :: ('w, 'z) internals_t_scheme \<Rightarrow> bool"
  by unfold_locales (auto simp: same_setting_def)

definition ended :: "int outcome \<Rightarrow> ('e, 'd) InstanceInfo_t \<Rightarrow> bool" where
  "ended r j \<longleftrightarrow> r = Ub \<or> idle j"

lemma process_failed:
  assumes "mgrProcessNextCommand T cbs \<lparr>session = s, smlH = Some i\<rparr> = (coded () r, \<lparr>session = t, smlH = Some j\<rparr>)"
    and "well_placed j" and "coded () r \<noteq> Val ()"
  shows "\<exists>k. process_commands T cbs (Suc fuel) \<lparr>session = s, smlH = Some i\<rparr> =
    (coded (Some ()) r, \<lparr>session = t, smlH = Some k\<rparr>) \<and> ended r k"
proof (cases "coded () r")
  case (Err rc)
  have "coded (Some ()) r = Err rc" using Err by (cases r) (auto split: if_splits)
  then show ?thesis using assms(1) Err by (simp add: try_code_def ended_def drop_decoder_at [OF assms(2)] idle_dropped)
next
  case Ub
  then have "r = Ub" by (cases r) (auto split: if_splits)
  then show ?thesis using assms(1) by (simp add: try_code_def ended_def)
qed (use assms(3) in simp)

lemma process_commands_refines:
  fixes s :: "'w internals_t"
  assumes "decodes_body T d bs ds fin"
  shows "plenty s \<Longrightarrow> reading d i \<Longrightarrow> unread i = bs \<Longrightarrow> length ds < fuel \<Longrightarrow>
    \<exists>j. process_commands T (library_callbacks junk nonce) fuel \<lparr>session = s, smlH = Some i\<rparr> =
      (coded (Some ()) (fst (process_loop (library_callbacks junk nonce) ds fin s)),
       \<lparr>session = snd (process_loop (library_callbacks junk nonce) ds fin s), smlH = Some j\<rparr>) \<and>
      ended (fst (process_loop (library_callbacks junk nonce) ds fin s)) j"
  using assms
proof (induction arbitrary: s i fuel rule: decodes_body.induct)
  case (fails d bs rc)
  obtain n where n: "fuel = Suc n" using fails.prems(4) by (cases fuel) auto
  have i: "well_placed i" "\<not> readLocked i" "decoderState i = Some d" using fails.prems(2) by (auto simp: reading_def)
  let ?i = "i\<lparr>readLocked := True\<rparr>"
  have w: "well_placed ?i" using i(1) by (simp add: well_placed_def instanceBufSiz_def)
  have "mgrProcessNextCommand T (library_callbacks junk nonce) \<lparr>session = s, smlH = Some i\<rparr> =
      (coded () (Val rc), \<lparr>session = s, smlH = Some (dropped ?i)\<rparr>)"
    using i(3) fails.hyps(2) fails.prems(3)
    by (simp add: drop_decoder_at [OF w] translating_at [of s "xltDecNext T d bs", OF fails.prems(1) fails.hyps(1)] mgrProcessNextCommand_def DMC_FAIL_def lock_read_at i(2) lifting get_unread [OF i(1)] try_code_def)
  from process_failed [OF this, of n] idle_dropped [of ?i] fails.hyps(2) show ?case
    unfolding n by (auto simp: next_step_def ret_def idle_def)
next
  case (ends d bs k d' final)
  obtain n where n: "fuel = Suc n" using ends.prems(4) by (cases fuel) auto
  have i: "well_placed i" using ends.prems(2) by (simp add: reading_def)
  have "mgrProcessNextCommand T (library_callbacks junk nonce) \<lparr>session = s, smlH = Some i\<rparr> =
      (Val (), \<lparr>session = s, smlH = Some (advanced k None i)\<rparr>)"
    using next_command_at [OF ends.prems(1,2), of T k d' "Inr final"] ends.hyps ends.prems(3)
    by (simp add: library_callbacks_def prv_end_message_cb_def calling_at ret_def)
  then show ?case
    unfolding n using advanced_facts [OF i, of k None] ends.hyps(2) ends.prems(3)
    by (simp add: try_code_def DMC_FAIL_def lifting ret_def next_step_def handled_def library_callbacks_def
        prv_end_message_cb_def ended_def idle_def)
next
  case (continues d bs k d' e ds fin)
  obtain n where n: "fuel = Suc n" "length ds < n" using continues.prems(4) by (cases fuel) auto
  let ?cbs = "library_callbacks junk nonce"
  let ?j = "advanced k (Some d') i"
  have i: "well_placed i" using continues.prems(2) by (simp add: reading_def)
  note a = advanced_facts [OF i, of k "Some d'"]
  have k: "k \<le> length (unread i)" using continues.hyps(2) continues.prems(3) by simp
  have j: "reading d' ?j" "unread ?j = drop k bs" using a k continues.prems(3) by (simp_all add: reading_def)
  obtain r t where d: "dispatch ?cbs e s = (r, t)" by fastforce
  have m: "mgrProcessNextCommand T ?cbs \<lparr>session = s, smlH = Some i\<rparr> =
      (coded () r, \<lparr>session = t, smlH = Some ?j\<rparr>)"
    using next_command_at [OF continues.prems(1,2), of T k d' "Inl e"] continues.hyps(1) continues.prems(3) k d
    by (simp add: calling_at)
  show ?case
  proof (cases "r = Val SML_ERR_OK")
    case True
    have "plenty t" by (rule keepsD [OF rich.frame_dispatch continues.prems(1) d])
    from continues.IH [OF this j n(2)] show ?thesis
      unfolding n using m d True j(1)
      by (auto simp: try_code_def DMC_FAIL_def lifting next_step_def reading_def)
  next
    case False
    then have "coded () r \<noteq> Val ()" by (cases r) auto
    from process_failed [OF m _ this] have "\<exists>k. process_commands T ?cbs fuel \<lparr>session = s, smlH = Some i\<rparr> =
        (coded (Some ()) r, \<lparr>session = t, smlH = Some k\<rparr>) \<and> ended r k"
      unfolding n using j(1) by (simp add: reading_def)
    then show ?thesis using d False by (cases r) (auto simp: next_step_def DMC_FAIL_def ret_def)
  qed
qed

text \<open>
  Through the buffer, and step by step, the toolkit does with a received message what the abstract
  processing does with its elements: same code, same session; and unless the execution is undefined
  the instance is ready for the next message.
\<close>

lemma message_processed:
  fixes s :: "'w internals_t"
  assumes "plenty s" and "well_placed i" and "\<not> readLocked i" and "decoderState i = None"
    and "has_callbacks i" and "inst_encoding i = Some enc"
    and "xltDecInit T enc (unread i) \<lparr>mem = []\<rparr> = (Val (int k, d, h), \<lparr>mem = []\<rparr>)" and "k \<le> length (unread i)"
    and "decodes_body T d (drop k (unread i)) ds fin" and "length ds < fuel"
    and "process_message (Some (library_callbacks junk nonce)) \<lparr>header = Inr h, body = ds, ending = fin\<rparr> s = (r, t)"
  shows "\<exists>j. smlProcessData T (library_callbacks junk nonce) fuel \<lparr>session = s, smlH = Some i\<rparr> =
    (coded (Some ()) r, \<lparr>session = t, smlH = Some j\<rparr>) \<and> ended r j"
proof -
  let ?cbs = "library_callbacks junk nonce :: 'w internals_t SmlCallbacks_t"
  let ?i = "i\<lparr>incomingMsgStart := Some (readPointer i)\<rparr>"
  let ?j = "advanced k (Some d) ?i"
  have w: "well_placed ?i" "unread ?i = unread i"
    using assms(2) by (simp_all add: well_placed_def instanceBufSiz_def unread_def)
  have k: "k \<le> length (unread ?i)" using assms(8) w(2) by simp
  have "int k \<le> writePointer i - readPointer i" using assms(8) length_unread [OF assms(2)] by linarith
  moreover obtain r0 u where st: "prv_start_message_cb junk nonce h s = (r0, u)" by fastforce
  ultimately have m: "mgrProcessStartMessage T ?cbs \<lparr>session = s, smlH = Some i\<rparr> =
      try_code (calling (prv_start_message_cb junk nonce h))
        (\<lambda>r. case r of Inl rc \<Rightarrow> drop_decoder rc | Inr _ \<Rightarrow> ret ()) \<lparr>session = s, smlH = Some ?j\<rparr>"
    using assms(6)
    by (simp add: translating_at [of s "xltDecInit T enc (unread i)", OF assms(1,7)] mgrProcessStartMessage_def
        DMC_FAIL_def lock_read_at assms(3) lifting get_unread [OF assms(2)] try_code_def smlUnlockReadBuffer_def
        library_callbacks_def advanced_def) (cases i; simp split: prod.split outcome.split)
  note a = advanced_facts [OF w(1) k, of "Some d"]
  have j: "reading d ?j" "unread ?j = drop k (unread i)" using a w(2) by (simp_all add: reading_def)
  have p: "smlProcessData T ?cbs fuel \<lparr>session = s, smlH = Some i\<rparr> =
      DMC_FAIL (mgrProcessStartMessage T ?cbs) (\<lambda>_. process_commands T ?cbs fuel) \<lparr>session = s, smlH = Some i\<rparr>"
    using assms(4,5) by (simp add: smlProcessData_def DMC_FAIL_def lifting)
  have q: "process_message (Some ?cbs) \<lparr>header = Inr h, body = ds, ending = fin\<rparr> s =
      (case r0 of Val rc \<Rightarrow> if rc \<noteq> SML_ERR_OK then (Val rc, u) else process_loop ?cbs ds fin u
       | Err e \<Rightarrow> (Err e, u) | Ub \<Rightarrow> (Ub, u))"
    using st by (simp add: process_message_def start_step_def handled_def library_callbacks_def DMC_FAIL_def ret_def
        split: outcome.split)
  show ?thesis
  proof (cases "r0 = Val SML_ERR_OK")
    case True
    have u: "plenty u" by (rule keepsD [OF rich.frame_start_message assms(1) st])
    have "mgrProcessStartMessage T ?cbs \<lparr>session = s, smlH = Some i\<rparr> = (Val (), \<lparr>session = u, smlH = Some ?j\<rparr>)"
      unfolding m using st True by (simp add: try_code_def calling_at ret_def)
    then have "smlProcessData T ?cbs fuel \<lparr>session = s, smlH = Some i\<rparr> =
        process_commands T ?cbs fuel \<lparr>session = u, smlH = Some ?j\<rparr>"
      unfolding p by (simp add: DMC_FAIL_def)
    moreover have "process_loop ?cbs ds fin u = (r, t)" using q True assms(11) by simp
    ultimately show ?thesis
      using process_commands_refines [OF assms(9) u j assms(10), of junk nonce] by auto
  next
    case False
    then have c: "coded () r0 \<noteq> Val ()" by (cases r0) auto
    have "r0 = r" "u = t" using q False assms(11) by (cases r0; simp split: if_splits)+
    moreover have "well_placed ?j" using j(1) by (simp add: reading_def)
    ultimately show ?thesis
      unfolding p using st False c
      by (cases r0) (auto simp: m DMC_FAIL_def try_code_def calling_at drop_decoder_at ended_def idle_dropped)
  qed
qed

text \<open>
  Processing comes to an end whenever the decoder takes at least a byte for each element, and no more
  than there are.
\<close>

definition decoder_progress :: "('e, 'd) translator \<Rightarrow> bool" where
  "decoder_progress T \<longleftrightarrow>
     (\<forall>enc bs h k d hd h'. xltDecInit T enc bs h = (Val (k, d, hd), h') \<longrightarrow> 0 \<le> k \<and> k \<le> int (length bs)) \<and>
     (\<forall>d bs h k d' e h'. xltDecNext T d bs h = (Val (k, d', Inl e), h') \<longrightarrow> 0 < k \<and> k \<le> int (length bs))"

lemma calling_smlH: "calling f \<lparr>session = s, smlH = h\<rparr> = (r, c) \<Longrightarrow> smlH c = h"
  by (simp add: calling_at) (metis client_t.select_convs(2))

lemma next_progress:
  assumes "decoder_progress T" and "well_placed i" and "\<not> readLocked i" and "decoderState i = Some d"
    and "mgrProcessNextCommand T cbs \<lparr>session = s, smlH = Some i\<rparr> = (Val (), c)"
  shows "\<exists>j. smlH c = Some j \<and> (decoderState j = None \<or>
    well_placed j \<and> \<not> readLocked j \<and> length (unread j) < length (unread i))"
proof -
  obtain x h where x: "xltDecNext T d (unread i) \<lparr>mem = mem s\<rparr> = (x, h)" by fastforce
  have e: "translating (xltDecNext T d (unread i)) \<lparr>session = s, smlH = g\<rparr> =
      (x, \<lparr>session = s\<lparr>mem := mem h\<rparr>, smlH = g\<rparr>)" for g
    using x by (simp add: on_session_def on_heap_def)
  note n = mgrProcessNextCommand_def DMC_FAIL_def lock_read_at assms(3,4) lifting get_unread [OF assms(2)] try_code_def
  show ?thesis
  proof (cases x)
    case (Val y)
    obtain k d' res where y: "y = (k, d', res)" by (metis surj_pair)
    show ?thesis
    proof (cases "readPointer i + k \<le> writePointer i")
      case True
      let ?i = "i\<lparr>readLocked := False, decoderState := Some d', readPointer := readPointer i + k\<rparr>"
      show ?thesis
      proof (cases res)
        case (Inl e0)
        have k: "0 < k" "k \<le> int (length (unread i))"
          using assms(1) x Val y Inl unfolding decoder_progress_def by blast+
        then obtain m where m: "k = int m" "0 < m" "m \<le> length (unread i)" 
          by (metis int_ops(1) less_imp_le nonneg_int_cases of_nat_less_iff of_nat_le_iff)
        have "calling (dispatch cbs e0) \<lparr>session = s\<lparr>mem := mem h\<rparr>, smlH = Some (advanced m (Some d') i)\<rparr> = (Val (), c)"
          using assms(5) Val y Inl True m(1)
          by (simp add: n e smlUnlockReadBuffer_def advanced_def) (cases i; simp)
        then have "smlH c = Some (advanced m (Some d') i)" by (rule calling_smlH)
        then show ?thesis using advanced_facts [OF assms(2) m(3), of "Some d'"] m(2,3) by simp
      next
        case (Inr final)
        then show ?thesis
          using assms(5) Val y True calling_smlH
          by (fastforce simp: n e smlUnlockReadBuffer_def failing_def split: option.splits)
      qed
    qed (use assms(5) Val y in \<open>simp add: n e smlUnlockReadBuffer_def failing_def ignoring_def split: if_splits\<close>)
  qed (use assms(5) in \<open>simp_all add: n e drop_decoder_def ignoring_def failing_def split: outcome.splits prod.splits\<close>)
qed

lemma commands_end:
  assumes "decoder_progress T"
  shows "well_placed i \<Longrightarrow> \<not> readLocked i \<Longrightarrow> decoderState i \<noteq> None \<Longrightarrow> length (unread i) < fuel \<Longrightarrow>
    fst (process_commands T cbs fuel \<lparr>session = s, smlH = Some i\<rparr>) \<noteq> Val None"
proof (induction fuel arbitrary: s i)
  case (Suc fuel)
  obtain d where d: "decoderState i = Some d" using Suc.prems(3) by auto
  obtain r c where m: "mgrProcessNextCommand T cbs \<lparr>session = s, smlH = Some i\<rparr> = (r, c)" by fastforce
  show ?case
  proof (cases r)
    case (Val u)
    then have "mgrProcessNextCommand T cbs \<lparr>session = s, smlH = Some i\<rparr> = (Val (), c)" using m by simp
    from next_progress [OF assms Suc.prems(1,2) d this] obtain j where j: "smlH c = Some j"
      "decoderState j = None \<or> well_placed j \<and> \<not> readLocked j \<and> length (unread j) < length (unread i)" by blast
    obtain t where c: "c = \<lparr>session = t, smlH = Some j\<rparr>" using j(1) by (cases c) simp
    show ?thesis
      using m Val j(2) Suc.IH [of j t] Suc.prems(4) unfolding c
      by (auto simp: try_code_def DMC_FAIL_def lifting ret_def)
  next
    case (Err e)
    then show ?thesis using m
      by (auto simp: try_code_def drop_decoder_def ignoring_def DMC_FAIL_def failing_def
          split: prod.split outcome.split)
  qed (use m in \<open>simp add: try_code_def\<close>)
qed simp

lemma start_progress:
  assumes "decoder_progress T" and "well_placed i" and "\<not> readLocked i"
    and "mgrProcessStartMessage T cbs \<lparr>session = s, smlH = Some i\<rparr> = (Val (), c)"
  shows "\<exists>j t. c = \<lparr>session = t, smlH = Some j\<rparr> \<and> well_placed j \<and> \<not> readLocked j \<and> decoderState j \<noteq> None \<and>
    length (unread j) \<le> length (unread i)"
proof -
  let ?i = "i\<lparr>incomingMsgStart := Some (readPointer i)\<rparr>"
  have w: "well_placed ?i" "unread ?i = unread i"
    using assms(2) by (simp_all add: well_placed_def instanceBufSiz_def unread_def)
  obtain enc where enc: "inst_encoding i = Some enc"
    using assms(4) by (cases "inst_encoding i")
      (auto simp: mgrProcessStartMessage_def DMC_FAIL_def lock_read_at assms(3) lifting get_unread [OF assms(2)] lift_def)
  obtain x h where x: "xltDecInit T enc (unread i) \<lparr>mem = mem s\<rparr> = (x, h)" by fastforce
  have e: "translating (xltDecInit T enc (unread i)) \<lparr>session = s, smlH = g\<rparr> =
      (x, \<lparr>session = s\<lparr>mem := mem h\<rparr>, smlH = g\<rparr>)" for g
    using x by (simp add: on_session_def on_heap_def)
  note n = mgrProcessStartMessage_def DMC_FAIL_def lock_read_at assms(3) lifting get_unread [OF assms(2)] try_code_def
  show ?thesis
  proof (cases x)
    case (Val y)
    obtain k d hd where y: "y = (k, d, hd)" by (metis surj_pair)
    have "0 \<le> k \<and> k \<le> int (length (unread i))"
      using assms(1) x Val y unfolding decoder_progress_def by blast
    then obtain m where m: "k = int m" "m \<le> length (unread i)" by (metis nonneg_int_cases of_nat_le_iff)
    then have le: "readPointer i + int m \<le> writePointer i" using length_unread [OF assms(2)] by linarith
    note a = advanced_facts [OF w(1), of m "Some d", unfolded w(2), OF m(2)]
    obtain f where f: "startMessageFunc cbs = Some f"
      using assms(4) Val y m(1) le enc
      by (cases "startMessageFunc cbs") (simp_all add: n e smlUnlockReadBuffer_def failing_def)
    have "try_code (calling (f hd)) (\<lambda>r. case r of Inl rc \<Rightarrow> drop_decoder rc | Inr x \<Rightarrow> ret x)
        \<lparr>session = s\<lparr>mem := mem h\<rparr>, smlH = Some (advanced m (Some d) ?i)\<rparr> = (Val (), c)"
      using assms(4) Val y m(1) le enc f
      by (simp add: n e smlUnlockReadBuffer_def advanced_def) (cases i; simp)
    then have "\<exists>t. c = \<lparr>session = t, smlH = Some (advanced m (Some d) ?i)\<rparr>"
      by (auto simp: try_code_def calling_at ret_def drop_decoder_def ignoring_def DMC_FAIL_def failing_def
          split: outcome.splits prod.splits)
    then show ?thesis using a by auto
  qed (use assms(4) enc in \<open>simp_all add: n e drop_decoder_def ignoring_def failing_def split: outcome.splits prod.splits\<close>)
qed

theorem processing_terminates:
  assumes "decoder_progress T" and "well_placed i" and "\<not> readLocked i" and "length (unread i) < fuel"
  shows "fst (smlProcessData T cbs fuel \<lparr>session = s, smlH = Some i\<rparr>) \<noteq> Val None"
proof (cases "has_callbacks i")
  case True
  show ?thesis
  proof (cases "decoderState i")
    case None
    obtain r c where m: "mgrProcessStartMessage T cbs \<lparr>session = s, smlH = Some i\<rparr> = (r, c)" by fastforce
    have p: "fst (smlProcessData T cbs fuel \<lparr>session = s, smlH = Some i\<rparr>) =
        fst (case r of Val _ \<Rightarrow> process_commands T cbs fuel c | Err e \<Rightarrow> (Err e, c) | Ub \<Rightarrow> (Ub, c))"
      using True None m by (simp add: smlProcessData_def DMC_FAIL_def lifting split: outcome.split)
    show ?thesis
    proof (cases r)
      case (Val u)
      from start_progress [OF assms(1-3), of cbs s c] m Val obtain j t where
        "c = \<lparr>session = t, smlH = Some j\<rparr>" "well_placed j" "\<not> readLocked j" "decoderState j \<noteq> None"
        "length (unread j) \<le> length (unread i)" by auto
      then show ?thesis using commands_end [OF assms(1), of j fuel cbs t] assms(4) p Val by simp
    qed (use p in simp_all)
  next
    case (Some d)
    then show ?thesis
      using commands_end [OF assms(1-3), of fuel cbs s] assms(4) True
      by (simp add: smlProcessData_def DMC_FAIL_def lifting ret_def)
  qed
qed (simp add: smlProcessData_def DMC_FAIL_def lifting failing_def)

section \<open>A decoder\<close>

text \<open>
  A translator with an alphabet of its own.  Any byte is the header, and after it a zero byte is the
  end of the document and every other byte the final flag; the header is written as a seven, and
  every element as a one.
\<close>

definition one_byte :: "8 word \<Rightarrow> int \<Rightarrow> (heap, 8 word list) cmd" where
  "one_byte b n h = (if n < 1 then (Err SML_ERR_XLT_BUF_ERR, h) else (Val [b], h))"

definition byte_translator :: "(unit, unit) translator" where
  "byte_translator =
     \<lparr>xltEncInit = \<lambda>enc hd n. DMC_FAIL (one_byte 7 n) (\<lambda>bs. ret (bs, ())),
      xltEncAppend = \<lambda>e t el n. DMC_FAIL (one_byte 1 n) (\<lambda>bs. ret (bs, ())),
      xltEncTerminate = \<lambda>e final. one_byte 0,
      xltDecInit = \<lambda>enc bs h.
        (case bs of [] \<Rightarrow> (Err 0x2012, h) | _ \<Rightarrow> (Val (1, (), sample_header\<lparr>hd_cred := None\<rparr>), h)),
      xltDecNext = \<lambda>d bs h.
        (case bs of
           [] \<Rightarrow> (Err 0x2012, h)
         | b # _ \<Rightarrow> (Val (1, (), if b = 0 then Inr True else Inl (Other_element SML_PE_FINAL)), h))\<rparr>"

definition sample_instance :: "(unit, unit) InstanceInfo_t" where
  "sample_instance = \<lparr>instanceBuffer = [7, 1, 0, 9], readLocked = False, writeLocked = False, readPointer = 0,
     writePointer = 3, outgoingMsgStart = None, incomingMsgStart = None, maxOutgoingSize = 0, has_callbacks = True,
     inst_encoding = Some SML_XML, encoderState = None, decoderState = None\<rparr>"

lemma sample_instance_facts:
  "well_placed sample_instance" "\<not> readLocked sample_instance" "decoderState sample_instance = None"
  "has_callbacks sample_instance" "inst_encoding sample_instance = Some SML_XML" "unread sample_instance = [7, 1, 0]"
  by (simp_all add: sample_instance_def well_placed_def instanceBufSiz_def unread_def)

lemma byte_progress: "decoder_progress byte_translator"
  by (auto simp: decoder_progress_def byte_translator_def split: list.splits if_splits)

lemma byte_body: "decodes_body byte_translator () [1, 0] [Other_element SML_PE_FINAL] (Inr True)"
proof (rule decodes_body.continues [of _ _ _ 1])
  show "decodes_body byte_translator () (drop 1 [1, 0]) [] (Inr True)"
    by (rule decodes_body.ends [of _ _ _ 1]) (simp_all add: byte_translator_def)
qed (simp_all add: byte_translator_def)

theorem processing_terminates_witness:
  "fst (smlProcessData byte_translator (library_callbacks [] []) 4 \<lparr>session = sample_session, smlH = Some sample_instance\<rparr>) \<noteq>
    Val None"
  using processing_terminates [OF byte_progress sample_instance_facts(1,2), of 4] by (simp add: sample_instance_facts)

end
