(* ===== verification/Client.thy ===== *)
theory Client
  imports Instance_Ops Package0
begin

text \<open>
  The interface of the library (\<^verbatim>\<open>dmcore/src/omadmclient.c\<close>): the life of a session and the
  packets that are exchanged.

  A handle is null or a session; the checks for null handles are those of \<open>on_handle\<close>.  The user
  data of the callback is part of the callback.
\<close>

datatype dmclt_err_t = DMCLT_ERR_NONE | DMCLT_ERR_END | DMCLT_ERR_INTERNAL | DMCLT_ERR_MEMORY | DMCLT_ERR_USAGE

record dmclt_buffer_t =
  pk_uri :: "string option"
  pk_auth_type :: dmclt_authType_t
  pk_auth_data :: "8 word list option"
  pk_length :: int
  pk_data :: "8 word list option"

definition packet_zero :: dmclt_buffer_t where
  "packet_zero = \<lparr>pk_uri = None, pk_auth_type = DMCLT_AUTH_TYPE_UNKNOWN, pk_auth_data = None, pk_length = 0,
     pk_data = None\<rparr>"

record dmclt_item_t =
  cl_source :: "string option"
  cl_target :: "string option"
  cl_type :: "string option"
  cl_format :: "string option"
  cl_data :: "string option"

abbreviation PRV_MAX_WORKSPACE_SIZE :: nat where "PRV_MAX_WORKSPACE_SIZE \<equiv> 40000"

definition on_handle :: "'a \<Rightarrow> ('c, 'a) cmd \<Rightarrow> ('c option, 'a) cmd" where
  "on_handle usage m sessionH =
     (case sessionH of
        None \<Rightarrow> (Val usage, None)
      | Some c \<Rightarrow> (case m c of (r, c) \<Rightarrow> (r, Some c)))"

section \<open>The first package\<close>

text \<open>
  The alert says who starts the session, and the Replace holds the nodes on the device.  \<open>fuel\<close>
  bounds the walk over the tree, and \<open>None\<close> says that it was used up.
\<close>

definition alert_code :: "State_t \<Rightarrow> string option" where
  "alert_code st =
     (case st of STATE_CLIENT_INIT \<Rightarrow> Some ''1201'' | STATE_SERVER_INIT \<Rightarrow> Some ''1200'' | _ \<Rightarrow> None)"

definition prvCreatePacket1 :: "nat \<Rightarrow> (('w, 'z) internals_t_scheme, unit option) cmd" where
  "prvCreatePacket1 fuel =
     DMC_FAIL (allocating smlAllocAlert) (\<lambda>alertP.
     case alertP of
       None \<Rightarrow> ret (Some ())
     | Some alertP \<Rightarrow>
         (\<lambda>s. case alert_code (session_state s) of
            None \<Rightarrow> (Val (Some ()), s)
          | Some code \<Rightarrow>
              DMC_FAIL (allocating (smlString2Pcdata (Some code))) (\<lambda>d.
              DMC_FAIL (get_device_info fuel) (\<lambda>r.
              case r of
                None \<Rightarrow> ret None
              | Some None \<Rightarrow> ret (Some ())
              | Some (Some replaceP) \<Rightarrow>
                  DMC_FAIL (add_element (new_element (Alert (alertP\<lparr>al_data := d, al_items := []\<rparr>)))) (\<lambda>_.
                  DMC_FAIL (add_element (new_element (Generic replaceP))) (\<lambda>_ s.
                  (Val (Some ()), s\<lparr>session_state := STATE_IN_SESSION\<rparr>))))) s))"

section \<open>The header of a message\<close>

definition smlAllocSyncHdr :: "'z heap_scheme \<Rightarrow> sml_out_hdr option \<times> 'z heap_scheme" where
  "smlAllocSyncHdr = alloc 9 \<lparr>oh_version = pc_empty, oh_proto = pc_empty, oh_sessionID = pc_empty, oh_msgID = pc_empty,
     oh_target = pc_empty, oh_source = pc_empty, oh_cred = None, oh_maxmsgsize = None\<rparr>"

definition smlAllocMetInfMetInf :: "'z heap_scheme \<Rightarrow> unit option \<times> 'z heap_scheme" where
  "smlAllocMetInfMetInf = alloc 1 ()"

text \<open>The meta information: none unless both of its blocks could be allocated.\<close>

definition header_meta :: "('z heap_scheme, pcdata option option) cmd" where
  "header_meta =
     DMC_FAIL (allocating smlAllocPcdata) (\<lambda>m.
     case m of
       None \<Rightarrow> ret None
     | Some _ \<Rightarrow>
         DMC_FAIL (allocating smlAllocMetInfMetInf) (\<lambda>i.
         case i of
           None \<Rightarrow> ret None
         | Some _ \<Rightarrow> DMC_FAIL (allocating (smlString2Pcdata (Some ''16384''))) (\<lambda>p. ret (Some p))))"

definition set_from_pointer :: "string option \<Rightarrow> ('z heap_scheme, pcdata) cmd" where
  "set_from_pointer str = (case str of None \<Rightarrow> lift Ub | Some t \<Rightarrow> allocating (set_pcdata_string t))"

definition wants_credentials :: "int \<Rightarrow> bool" where
  "wants_credentials c \<longleftrightarrow> c \<noteq> OMADM_SYNCML_ERROR_AUTHENTICATION_ACCEPTED \<and> c \<noteq> OMADM_SYNCML_ERROR_SUCCESS"

text \<open>The fields are those of the session \<open>s\<close> and its account.\<close>

definition fill_header ::
  "byte list \<Rightarrow> ('w, 'z) internals_t_scheme \<Rightarrow> accountDesc_t \<Rightarrow> sml_out_hdr \<Rightarrow>
     (('w, 'z) internals_t_scheme, sml_out_hdr) cmd" where
  "fill_header junk s a headerP =
     DMC_FAIL (allocating (set_pcdata_string ''1.2'')) (\<lambda>version.
     DMC_FAIL (allocating (set_pcdata_string ''DM/1.2'')) (\<lambda>proto.
     DMC_FAIL (allocating (set_pcdata_hex (session_id s))) (\<lambda>sid.
     DMC_FAIL (allocating (set_pcdata_int (message_id s))) (\<lambda>mid.
     DMC_FAIL (set_from_pointer (acc_server_uri a)) (\<lambda>target.
     DMC_FAIL (set_from_pointer (acc_id a)) (\<lambda>source.
     DMC_FAIL (if wants_credentials (clt_auth s) then get_credentials junk (toServerCred a) else ret None)
       (\<lambda>cred.
     DMC_FAIL header_meta (\<lambda>meta.
     ret (headerP\<lparr>oh_version := version, oh_proto := proto, oh_sessionID := sid, oh_msgID := mid,
       oh_target := target, oh_source := source, oh_cred := cred, oh_maxmsgsize := meta\<rparr>)))))))))"

definition prvGetHeader :: "byte list \<Rightarrow> (('w, 'z) internals_t_scheme, sml_out_hdr option) cmd" where
  "prvGetHeader junk =
     DMC_FAIL (allocating smlAllocSyncHdr) (\<lambda>headerP s.
     case headerP of
       None \<Rightarrow> (Val None, s)
     | Some headerP \<Rightarrow>
         (case account s of
            None \<Rightarrow> (Ub, s)
          | Some a \<Rightarrow> DMC_FAIL (fill_header junk s a headerP) (\<lambda>headerP. ret (Some headerP)) s))"

section \<open>Composing a message\<close>

text \<open>Each element gets the next number, and its cell the number of the message, in eight bits.\<close>

definition next_message :: "(('w, 'z) internals_t_scheme, unit) cmd" where
  "next_message s =
     (if sint (message_id s) = INT_MAX then (Ub, s)
      else (Val (), s\<lparr>message_id := message_id s + 1, command_id := 1\<rparr>))"

definition number_cell :: "nat \<Rightarrow> (('w, 'z) internals_t_scheme, basicElement_t) cmd" where
  "number_cell k s =
     (let cell = elem_list s ! k; n = command_id s in
      if sint n = INT_MAX \<or> el_cmdID (element cell) = None then (Ub, s)
      else
        (case set_pcdata_int n s of
           (p, s) \<Rightarrow>
             (let el = (element cell)\<lparr>el_cmdID := Some p\<rparr> in
              (Val el, s\<lparr>command_id := n + 1,
                 elem_list := (elem_list s)[k := \<lparr>element = el, msg_id = Some (ucast (message_id s))\<rparr>]\<rparr>))))"

text \<open>An element that is sent, and what the count of things to send becomes.\<close>

definition sendable :: "SmlProtoElement_t \<Rightarrow> bool" where
  "sendable t \<longleftrightarrow> t \<in> {SML_PE_ALERT, SML_PE_REPLACE, SML_PE_RESULTS, SML_PE_STATUS}"

definition count_sent :: "SmlProtoElement_t \<Rightarrow> int \<Rightarrow> int" where
  "count_sent t toSend = (if t = SML_PE_STATUS then toSend + 1 else if sendable t then 1 else toSend)"

text \<open>The loop over the cells from \<open>k\<close>, \<open>n\<close> of them; it ends with the first code that is not OK.\<close>

fun compose_loop ::
  "('e, 'd) translator \<Rightarrow> 'w internals_t SmlCallbacks_t \<Rightarrow> nat \<Rightarrow> nat \<Rightarrow> int \<Rightarrow>
     (('w, 'e, 'd) client_t, int \<times> int) cmd" where
  "compose_loop T cbs 0 k toSend = ret (SML_ERR_OK, toSend)"
| "compose_loop T cbs (Suc n) k toSend =
     DMC_FAIL (on_session (number_cell k)) (\<lambda>el.
     let t = elementType (el_body el) in
     try_code (if sendable t then mgrCreateNextCommand T cbs t el else ret ()) (\<lambda>r.
     case r of
       Inl rc \<Rightarrow> ret (rc, count_sent t toSend)
     | Inr _ \<Rightarrow> compose_loop T cbs n (Suc k) (count_sent t toSend)))"

definition on_state :: "('w internals_t \<Rightarrow> 'a) \<Rightarrow> (('w, 'e, 'd) client_t, 'a) cmd" where
  "on_state f = on_session (\<lambda>s. (Val (f s), s))"

definition prvComposeMessage ::
  "byte list \<Rightarrow> ('e, 'd) translator \<Rightarrow> 'w internals_t SmlCallbacks_t \<Rightarrow> (('w, 'e, 'd) client_t, dmclt_err_t) cmd" where
  "prvComposeMessage junk T cbs =
     DMC_FAIL (on_session next_message) (\<lambda>_.
     DMC_FAIL (on_session (prvGetHeader junk)) (\<lambda>syncHdrP.
     try_code (smlStartMessageExt T syncHdrP) (\<lambda>r.
     case r of
       Inl _ \<Rightarrow> ret DMCLT_ERR_INTERNAL
     | Inr _ \<Rightarrow>
         DMC_FAIL (on_state (length \<circ> elem_list)) (\<lambda>n.
         DMC_FAIL (compose_loop T cbs n 0 (- 1)) (\<lambda>(result, toSend).
         if result \<noteq> SML_ERR_OK then ret DMCLT_ERR_INTERNAL
         else
           try_code (smlEndMessage T True) (\<lambda>r.
           case r of
             Inl _ \<Rightarrow> ret DMCLT_ERR_INTERNAL
           | Inr _ \<Rightarrow>
               DMC_FAIL (on_session (\<lambda>s. (Val (), refresh_elements s))) (\<lambda>_.
               ret (if toSend \<le> 0 then DMCLT_ERR_END else DMCLT_ERR_NONE))))))))"

section \<open>Packets\<close>

definition omadmclient_clean_buffer :: "dmclt_buffer_t \<Rightarrow> dmclt_buffer_t" where
  "omadmclient_clean_buffer packetP = packet_zero"

definition packet_auth :: "dmclt_authType_t \<Rightarrow> bool" where
  "packet_auth t \<longleftrightarrow> t \<noteq> DMCLT_AUTH_TYPE_BASIC \<and> t \<noteq> DMCLT_AUTH_TYPE_DIGEST"

text \<open>
  The data of the authentication that is not that of the message.  The credentials for the server
  are dereferenced whether the account has them or not.
\<close>

definition export_auth ::
  "dmclt_buffer_t \<Rightarrow> (('w, 'z) internals_t_scheme, dmclt_err_t \<times> dmclt_buffer_t) cmd" where
  "export_auth packetP s =
     (case account s of
        None \<Rightarrow> (Ub, s)
      | Some a \<Rightarrow>
          (case toServerCred a of
             None \<Rightarrow> (Ub, s)
           | Some cred \<Rightarrow>
               DMC_FAIL (lift (read_field (ad_type cred))) (\<lambda>type.
               DMC_FAIL (lift (read_field (ad_data cred))) (\<lambda>data.
               let packetP = packetP\<lparr>pk_auth_type := type\<rparr> in
               if len data = 0 \<or> \<not> packet_auth type then ret (DMCLT_ERR_NONE, packetP)
               else
                 DMC_FAIL (allocating (malloc ())) (\<lambda>c.
                 case c of
                   None \<Rightarrow> ret (DMCLT_ERR_MEMORY, omadmclient_clean_buffer packetP)
                 | Some _ \<Rightarrow>
                     DMC_FAIL (lift (read_data (Is data))) (\<lambda>data.
                     ret (DMCLT_ERR_NONE, packetP\<lparr>pk_auth_data := Some (content data)\<rparr>))))) s))"

text \<open>What is to be read in the buffer is the packet.\<close>

definition read_packet :: "(('w, 'e, 'd) client_t, dmclt_err_t \<times> dmclt_buffer_t) cmd" where
  "read_packet =
     try_code (on_smlH smlLockReadBuffer) (\<lambda>r.
     case r of
       Inl _ \<Rightarrow> ret (DMCLT_ERR_INTERNAL, packet_zero)
     | Inr (p, n) \<Rightarrow>
         DMC_FAIL (on_session (allocating (malloc ()))) (\<lambda>c.
         case c of
           None \<Rightarrow> ret (DMCLT_ERR_MEMORY, packet_zero)
         | Some _ \<Rightarrow>
             DMC_FAIL (on_smlH (get_bytes p n)) (\<lambda>bs.
             DMC_FAIL (on_state account) (\<lambda>a.
             case a of
               None \<Rightarrow> lift Ub
             | Some a \<Rightarrow>
                 (case acc_server_uri a of
                    None \<Rightarrow> lift Ub
                  | Some u \<Rightarrow>
                      DMC_FAIL (on_session (allocating (strdup u))) (\<lambda>uri.
                      let packetP = packet_zero\<lparr>pk_data := Some bs, pk_length := n, pk_uri := uri\<rparr> in
                      try_code (on_smlH (smlUnlockReadBuffer n)) (\<lambda>r.
                      case r of
                        Inl _ \<Rightarrow> ret (DMCLT_ERR_INTERNAL, packetP)
                      | Inr _ \<Rightarrow> on_session (export_auth packetP))))))))"

text \<open>The packet is cleared once the message is composed; the outer option is the fuel.\<close>

definition omadmclient_get_next_packet ::
  "byte list \<Rightarrow> ('e, 'd) translator \<Rightarrow> 'w internals_t SmlCallbacks_t \<Rightarrow> nat \<Rightarrow> dmclt_buffer_t option \<Rightarrow>
     (('w, 'e, 'd) client_t, (dmclt_err_t \<times> dmclt_buffer_t option) option) cmd" where
  "omadmclient_get_next_packet junk T cbs fuel packetP =
     DMC_FAIL (on_state account) (\<lambda>a.
     if packetP = None \<or> a = None then ret (Some (DMCLT_ERR_USAGE, packetP))
     else
       DMC_FAIL (on_state session_state) (\<lambda>st.
       DMC_FAIL (if st \<noteq> STATE_IN_SESSION then on_session (prvCreatePacket1 fuel) else ret (Some ())) (\<lambda>r.
       case r of
         None \<Rightarrow> ret None
       | Some _ \<Rightarrow>
           DMC_FAIL (prvComposeMessage junk T cbs) (\<lambda>status.
           if status \<noteq> DMCLT_ERR_NONE then ret (Some (status, Some packet_zero))
           else DMC_FAIL read_packet (\<lambda>(e, p). ret (Some (e, Some p)))))))"

text \<open>
  A packet that does not fit is not copied, but the write access ends with its length all the same.
  A negative length is one no copy can have.
\<close>

definition copy_packet :: "int \<Rightarrow> int \<Rightarrow> dmclt_buffer_t \<Rightarrow> (('w, 'e, 'd) client_t, unit) cmd" where
  "copy_packet p free packetP =
     (if free < pk_length packetP then ret ()
      else if pk_length packetP < 0 then lift Ub
      else
        let bs = (case pk_data packetP of None \<Rightarrow> [] | Some d \<Rightarrow> d); k = nat (pk_length packetP) in
        if length bs < k then lift Ub else on_smlH (put_bytes p (take k bs)))"

definition omadmclient_process_reply ::
  "('e, 'd) translator \<Rightarrow> 'w internals_t SmlCallbacks_t \<Rightarrow> nat \<Rightarrow> dmclt_buffer_t option \<Rightarrow>
     (('w, 'e, 'd) client_t, dmclt_err_t option) cmd" where
  "omadmclient_process_reply T cbs fuel packetP =
     (case packetP of
        None \<Rightarrow> ret (Some DMCLT_ERR_USAGE)
      | Some packetP \<Rightarrow>
          try_code (on_smlH smlLockWriteBuffer) (\<lambda>r.
          case r of
            Inl _ \<Rightarrow> ret (Some DMCLT_ERR_INTERNAL)
          | Inr (p, n) \<Rightarrow>
              DMC_FAIL (copy_packet p n packetP) (\<lambda>_.
              try_code (on_smlH (smlUnlockWriteBuffer (pk_length packetP))) (\<lambda>r.
              case r of
                Inl _ \<Rightarrow> ret (Some DMCLT_ERR_INTERNAL)
              | Inr _ \<Rightarrow>
                  try_code instance_of (\<lambda>r.
                  case r of
                    Inl _ \<Rightarrow> ret (Some DMCLT_ERR_INTERNAL)
                  | Inr _ \<Rightarrow>
                      try_code (smlProcessData T cbs fuel) (\<lambda>r.
                      case r of
                        Inl _ \<Rightarrow> ret (Some DMCLT_ERR_INTERNAL)
                      | Inr None \<Rightarrow> ret None
                      | Inr (Some _) \<Rightarrow> ret (Some DMCLT_ERR_NONE)))))))"

section \<open>Alerts of the application\<close>

definition alloc_locURI ::
  "('z heap_scheme \<Rightarrow> pcdata option \<times> 'z heap_scheme) \<Rightarrow> string option \<Rightarrow>
     ('z heap_scheme, pcdata option option option) cmd" where
  "alloc_locURI alloc_it uri =
     (case uri of
        None \<Rightarrow> ret (Some None)
      | Some u \<Rightarrow>
          DMC_FAIL (allocating alloc_it) (\<lambda>l.
          case l of
            None \<Rightarrow> ret None
          | Some _ \<Rightarrow> DMC_FAIL (allocating (smlString2Pcdata (Some u))) (\<lambda>p. ret (Some (Some p)))))"

definition optional_pcdata :: "string option \<Rightarrow> ('z heap_scheme, pcdata option option) cmd" where
  "optional_pcdata str =
     (case str of
        None \<Rightarrow> ret (Some None)
      | Some t \<Rightarrow>
          DMC_FAIL (allocating (smlString2Pcdata (Some t))) (\<lambda>p.
          ret (case p of None \<Rightarrow> None | Some q \<Rightarrow> Some (Some q))))"

definition or_memory ::
  "('s, 'a option) cmd \<Rightarrow> ('a \<Rightarrow> ('s, dmclt_err_t) cmd) \<Rightarrow> ('s, dmclt_err_t) cmd" where
  "or_memory m k = DMC_FAIL m (\<lambda>r. case r of None \<Rightarrow> ret DMCLT_ERR_MEMORY | Some a \<Rightarrow> k a)"

definition omadmclient_add_generic_alert ::
  "string option \<Rightarrow> dmclt_item_t option \<Rightarrow> (('w, 'z) internals_t_scheme, dmclt_err_t) cmd" where
  "omadmclient_add_generic_alert correlator itemP =
     (case itemP of
        None \<Rightarrow> ret DMCLT_ERR_USAGE
      | Some itemP \<Rightarrow>
          if cl_type itemP = None \<or> cl_format itemP = None \<or> cl_data itemP = None then ret DMCLT_ERR_USAGE
          else
            or_memory (allocating smlAllocAlert) (\<lambda>alertP.
            or_memory (allocating (smlString2Pcdata (Some ''1226''))) (\<lambda>code.
            or_memory (optional_pcdata correlator) (\<lambda>cor.
            or_memory (alloc_locURI smlAllocSource (cl_source itemP)) (\<lambda>source.
            or_memory (alloc_locURI smlAllocTarget (cl_target itemP)) (\<lambda>target.
            DMC_FAIL (allocating (convert_to_meta (cl_format itemP) (cl_type itemP))) (\<lambda>meta.
            DMC_FAIL (allocating (smlString2Pcdata (cl_data itemP))) (\<lambda>data.
            if meta = None \<or> data = None then ret DMCLT_ERR_MEMORY
            else
              DMC_FAIL (add_element (new_element (Alert (alertP\<lparr>al_data := Some code, al_correlator := cor,
                al_items := [Some \<lparr>it_target = target, it_source = source, it_meta = meta, it_data = data\<rparr>]\<rparr>)))) (\<lambda>_.
              ret DMCLT_ERR_NONE)))))))))"

section \<open>The life of a session\<close>

definition omadmclient_set_UI_callback ::
  "(dmclt_ui_t \<Rightarrow> 'w \<Rightarrow> (int \<times> string option) \<times> 'w) option \<Rightarrow> (('w, 'z) internals_t_scheme, dmclt_err_t) cmd" where
  "omadmclient_set_UI_callback UICallbacksP s = (Val DMCLT_ERR_NONE, s\<lparr>alert_cb := UICallbacksP\<rparr>)"

text \<open>A code of the tree becomes one of the interface.\<close>

definition else_error ::
  "dmclt_err_t \<Rightarrow> ('s, 'a) cmd \<Rightarrow> ('a \<Rightarrow> ('s, dmclt_err_t) cmd) \<Rightarrow> ('s, dmclt_err_t) cmd" where
  "else_error e m k = try_code m (\<lambda>r. case r of Inl _ \<Rightarrow> ret e | Inr a \<Rightarrow> k a)"

definition omadmclient_session_add_mo ::
  "'w omadm_mo_interface_t option \<Rightarrow> (('w, 'z) internals_t_scheme, dmclt_err_t) cmd" where
  "omadmclient_session_add_mo moP =
     (if moP = None then ret DMCLT_ERR_USAGE
      else else_error DMCLT_ERR_INTERNAL (momgr_add_plugin moP) (\<lambda>_. ret DMCLT_ERR_NONE))"

text \<open>\<open>uriListP\<close> is null, or the array the caller has there.\<close>

definition omadmclient_getUriList ::
  "string option \<Rightarrow> string list option option \<Rightarrow>
     (('w, 'z) internals_t_scheme, dmclt_err_t \<times> string list option) cmd" where
  "omadmclient_getUriList urn uriListP =
     (case uriListP of
        None \<Rightarrow> ret (DMCLT_ERR_USAGE, None)
      | Some list \<Rightarrow>
          if urn = None then ret (DMCLT_ERR_USAGE, list)
          else
            try_code (momgr_list_uri urn list) (\<lambda>r.
            case r of Inl _ \<Rightarrow> ret (DMCLT_ERR_INTERNAL, list) | Inr l \<Rightarrow> ret (DMCLT_ERR_NONE, Some l)))"

text \<open>A side without credentials is accepted from the start.\<close>

definition accept_without ::
  "(accountDesc_t \<Rightarrow> authDesc_t option) \<Rightarrow> accountDesc_t option \<Rightarrow> int \<Rightarrow> int" where
  "accept_without cred a old =
     (case a of
        None \<Rightarrow> old
      | Some a \<Rightarrow> if cred a = None then OMADM_SYNCML_ERROR_AUTHENTICATION_ACCEPTED else old)"

definition omadmclient_session_start ::
  "string option \<Rightarrow> 32 word \<Rightarrow> (('w, 'z) internals_t_scheme, dmclt_err_t) cmd" where
  "omadmclient_session_start serverID sessionID =
     (case serverID of
        None \<Rightarrow> ret DMCLT_ERR_USAGE
      | Some sv \<Rightarrow>
          else_error DMCLT_ERR_INTERNAL (dmtree_setServer (Some sv)) (\<lambda>_.
          else_error DMCLT_ERR_USAGE momgr_check_mandatory_mo (\<lambda>_.
          else_error DMCLT_ERR_INTERNAL (get_server_account sv) (\<lambda>_ s.
          if account s = None then (Ub, s)
          else
            (Val DMCLT_ERR_NONE,
             s\<lparr>srv_auth := accept_without toClientCred (account s) (srv_auth s),
               clt_auth := accept_without toServerCred (account s) (clt_auth s),
               session_id := sessionID, message_id := 0, session_state := STATE_CLIENT_INIT\<rparr>)))))"

text \<open>
  A notification.  The results beyond the code are the flags and the offset of the body.  The state
  becomes the one of a session the server starts, whatever the code.
\<close>

definition omadmclient_session_start_on_alert ::
  "byte list \<Rightarrow> (nat \<Rightarrow> byte list) \<Rightarrow> byte list option \<Rightarrow> byte option \<Rightarrow>
     (('w, 'z) internals_t_scheme, dmclt_err_t \<times> byte option \<times> nat option) cmd" where
  "omadmclient_session_start_on_alert junk fresh pkg0 flags s =
     (case pkg0 of
        None \<Rightarrow> (Val (DMCLT_ERR_USAGE, flags, None), s)
      | Some [] \<Rightarrow> (Val (DMCLT_ERR_USAGE, flags, None), s)
      | Some package \<Rightarrow>
          (case decode_package_0 package flags s of
             ((Ub, _), s) \<Rightarrow> (Ub, s)
           | ((Err _, flags), s) \<Rightarrow> (Val (DMCLT_ERR_USAGE, flags, None), s)
           | ((Val (serverID, sessionID, body_offset), flags), s) \<Rightarrow>
               DMC_FAIL (omadmclient_session_start (Some serverID) (word_of_int sessionID)) (\<lambda>err.
               DMC_FAIL
                 (if err = DMCLT_ERR_NONE then
                    try_code (validate_package_0 junk fresh package) (\<lambda>r.
                    ret (if r = Inr OMADM_SYNCML_ERROR_NONE then DMCLT_ERR_NONE else DMCLT_ERR_USAGE))
                  else ret err) (\<lambda>err s.
               (Val (err, flags, Some body_offset), s\<lparr>session_state := STATE_SERVER_INIT\<rparr>))) s))"

text \<open>Freeing the credentials reads their fields; one that was never set is freed through a wild pointer.\<close>

definition prvFreeAuth :: "authDesc_t option \<Rightarrow> unit outcome" where
  "prvFreeAuth authP =
     (case authP of
        None \<Rightarrow> Val ()
      | Some a \<Rightarrow>
          (case (read_field (ad_name a), read_field (ad_secret a), read_field (ad_data a)) of
             (Val _, Val _, Val _) \<Rightarrow> Val ()
           | _ \<Rightarrow> Ub))"

text \<open>Closing leaves the world, in which the objects are closed, and nothing of the session.\<close>

definition omadmclient_session_close :: "('w, 'e, 'd) client_t \<Rightarrow> 'w outcome" where
  "omadmclient_session_close c =
     (let s = dmtree_close (session c) in
      case account s of
        None \<Rightarrow> Val (world s)
      | Some a \<Rightarrow>
          (case (prvFreeAuth (toServerCred a), prvFreeAuth (toClientCred a)) of
             (Val _, Val _) \<Rightarrow> Val (world s)
           | _ \<Rightarrow> Ub))"

definition fresh_internals :: "heap \<Rightarrow> 'w \<Rightarrow> 'w mo_mgr_t \<Rightarrow> string option \<Rightarrow> 'w internals_t" where
  "fresh_internals h w m sv = \<lparr>mem = mem h, world = w, MOs = m, server_id = sv, account = None,
     session_id = 0, message_id = 0, command_id = 0, elem_list = [], old_elem = [], reply_ref = None,
     srv_auth = 0, clt_auth = 0, alert_cb = None, sequence = Null, seq_code = 0,
     session_state = STATE_UNKNOWN\<rparr>"

text \<open>
  A session that could not get an instance is freed and its pointer cleared, and then the tree is
  opened through that pointer.
\<close>

definition omadmclient_session_init ::
  "(nat \<Rightarrow> 8 word list) \<Rightarrow> (string \<Rightarrow> 'w \<Rightarrow> string option \<times> 'w) \<Rightarrow> 'w \<Rightarrow> bool \<Rightarrow>
     (heap, ('w, 'e, 'd) client_t option) cmd" where
  "omadmclient_session_init fresh dup w useWbxml =
     DMC_FAIL (allocating (malloc ())) (\<lambda>internP.
     case internP of
       None \<Rightarrow> ret None
     | Some _ \<Rightarrow>
         DMC_FAIL (allocating (get_callbacks [] [])) (\<lambda>cbs :: 'w internals_t SmlCallbacks_t option.
         DMC_FAIL (smlInitInstance fresh (cbs \<noteq> None) (if useWbxml then SML_WBXML else SML_XML)
             PRV_MAX_WORKSPACE_SIZE 0) (\<lambda>(rc, i).
         try_code (dmtree_open dup) (\<lambda>r.
         case r of
           Inl _ \<Rightarrow> ret None
         | Inr (m, sv) \<Rightarrow>
             if rc \<noteq> SML_ERR_OK then lift Ub
             else (\<lambda>h. (Val (Some \<lparr>session = fresh_internals h w m sv, smlH = i\<rparr>), h))))))"

end
