(* ===== verification/Compose.thy ===== *)
theory Compose
  imports Client
begin

text \<open>
  What a packet holds: the message that is composed goes through the buffer of the instance to the
  caller, after what was left there unread.
\<close>

section \<open>Writing into the buffer\<close>

definition drafted :: "8 word list \<Rightarrow> 'e option \<Rightarrow> ('e, 'd) InstanceInfo_t \<Rightarrow> ('e, 'd) InstanceInfo_t" where
  "drafted bs e i = (appended bs i)\<lparr>encoderState := e\<rparr>"

lemma encoder_apart:
  "open_for_write (i\<lparr>encoderState := e\<rparr>) = open_for_write i" "unread (i\<lparr>encoderState := e\<rparr>) = unread i"
  "room (i\<lparr>encoderState := e\<rparr>) = room i"
  "put_bytes p bs (i\<lparr>encoderState := e\<rparr>) = (case put_bytes p bs i of (r, j) \<Rightarrow> (r, j\<lparr>encoderState := e\<rparr>))"
  "smlUnlockWriteBuffer n (i\<lparr>encoderState := e\<rparr>) =
     (case smlUnlockWriteBuffer n i of (r, j) \<Rightarrow> (r, j\<lparr>encoderState := e\<rparr>))"
  by (simp_all add: open_for_write_def well_placed_def instanceBufSiz_def unread_def room_def put_bytes_def in_buffer_def
      smlUnlockWriteBuffer_def)

lemma drafted_facts:
  assumes "open_for_write i" and "int (length bs) \<le> room i"
  shows "open_for_write (drafted bs e i)" and "unread (drafted bs e i) = unread i @ bs"
    and "room (drafted bs e i) = room i - int (length bs)" and "encoderState (drafted bs e i) = e"
    and "inst_encoding (drafted bs e i) = inst_encoding i" and "has_callbacks (drafted bs e i) = has_callbacks i"
    and "decoderState (drafted bs e i) = decoderState i"
  using appended_facts [OF assms]
  by (simp_all add: drafted_def encoder_apart) (simp_all add: appended_def Let_def reset_empty_def mgrResetWorkspace_def)

lemma room_nonneg: "open_for_write i \<Longrightarrow> 0 \<le> room i"
  by (auto simp: open_for_write_def well_placed_def room_def)

lemma lock_write_at:
  "open_for_write i \<Longrightarrow> lock_write \<lparr>session = s, smlH = Some i\<rparr> =
    (Val (writePointer (reset_empty i), room i),
     \<lparr>session = s, smlH = Some ((reset_empty i)\<lparr>writeLocked := True\<rparr>)\<rparr>)"
  using write_steps(1) [of i "[]"] room_nonneg [of i] by (simp add: lock_write_def try_code_def lifting ret_def)

lemma written_at:
  assumes "open_for_write i" and "int (length bs) \<le> room i"
  shows "written (writePointer (reset_empty i)) bs
      \<lparr>session = s, smlH = Some ((reset_empty i)\<lparr>writeLocked := True, encoderState := e\<rparr>)\<rparr> =
    (Val (), \<lparr>session = s, smlH = Some (drafted bs e i)\<rparr>)"
  using write_steps(2,3) [OF assms]
  by (simp add: written_def DMC_FAIL_def lifting encoder_apart drafted_def)

lemma encoded_at:
  assumes "open_for_write i" and "int (length bs) \<le> room i"
  shows "encoded (writePointer (reset_empty i)) (bs, e)
      \<lparr>session = s, smlH = Some ((reset_empty i)\<lparr>writeLocked := True\<rparr>)\<rparr> =
    (Val (), \<lparr>session = s, smlH = Some (drafted bs (Some e) i)\<rparr>)"
  using written_at [OF assms, of s "Some e"] by (simp add: encoded_def DMC_FAIL_def lifting)

lemma start_message_at:
  assumes "plenty s" and "open_for_write i" and "inst_encoding i = Some enc"
    and "xltEncInit T enc h (room i) \<lparr>mem = []\<rparr> = (Val (bs, e), \<lparr>mem = []\<rparr>)" and "int (length bs) \<le> room i"
  shows "smlStartMessageExt T h \<lparr>session = s, smlH = Some i\<rparr> =
    (Val (), \<lparr>session = s, smlH = Some (drafted bs (Some e) (i\<lparr>outgoingMsgStart := Some (writePointer i)\<rparr>))\<rparr>)"
proof -
  let ?i = "i\<lparr>outgoingMsgStart := Some (writePointer i)\<rparr>"
  have i: "open_for_write ?i" "room ?i = room i"
    using assms(2) by (auto simp: open_for_write_def well_placed_def instanceBufSiz_def room_def)
  have "inst_encoding (reset_empty ?i) = Some enc"
    using assms(3) by (simp add: reset_empty_def mgrResetWorkspace_def Let_def)
  then show ?thesis
    using lock_write_at [OF i(1), of s] encoded_at [OF i(1), of bs e s] i(2) assms(5)
    by (simp add: translating_at [of s "xltEncInit T enc h (room i)", OF assms(1,4)] smlStartMessageExt_def DMC_FAIL_def lifting smlSetOutgoingBegin_def try_code_def)
qed

lemma create_command_at:
  assumes "plenty s" and "open_for_write i" and "encoderState i = Some e"
    and "xltEncAppend T e t el (room i) \<lparr>mem = []\<rparr> = (Val (bs, e'), \<lparr>mem = []\<rparr>)" and "int (length bs) \<le> room i"
  shows "mgrCreateNextCommand T cbs t el \<lparr>session = s, smlH = Some i\<rparr> =
    (Val (), \<lparr>session = s, smlH = Some (drafted bs (Some e') i)\<rparr>)"
  using assms(3) lock_write_at [OF assms(2), of s] encoded_at [OF assms(2,5), of e' s]
  by (simp add: translating_at [of s "xltEncAppend T e t el (room i)", OF assms(1,4)] mgrCreateNextCommand_def DMC_FAIL_def lifting try_code_def)

lemma end_message_at:
  assumes "plenty s" and "open_for_write i" and "encoderState i = Some e"
    and "xltEncTerminate T e final (room i) \<lparr>mem = []\<rparr> = (Val bs, \<lparr>mem = []\<rparr>)" and "int (length bs) \<le> room i"
  shows "smlEndMessage T final \<lparr>session = s, smlH = Some i\<rparr> =
    (Val (), \<lparr>session = s, smlH = Some (drafted bs None i)\<rparr>)"
  using assms(3) lock_write_at [OF assms(2), of s] written_at [OF assms(2,5), of s None]
  by (simp add: translating_at [of s "xltEncTerminate T e final (room i)", OF assms(1,4)] smlEndMessage_def DMC_FAIL_def lifting try_code_def)

section \<open>The message as the encoder writes it\<close>

text \<open>
  \<open>encodes_body T e n els bs e'\<close>: from the state \<open>e\<close> and within \<open>n\<close> bytes the encoder writes
  \<open>bs\<close> for those of the elements that are sent, while memory is plenty.
\<close>

definition kind :: "basicElement_t \<Rightarrow> SmlProtoElement_t" where
  "kind el = elementType (el_body el)"

inductive encodes_body ::
  "('e, 'd) translator \<Rightarrow> 'e \<Rightarrow> int \<Rightarrow> basicElement_t list \<Rightarrow> 8 word list \<Rightarrow> 'e \<Rightarrow> bool" for T where
  nothing: "encodes_body T e n [] [] e"
| unsent: "\<not> sendable (kind el) \<Longrightarrow> encodes_body T e n els bs e' \<Longrightarrow> encodes_body T e n (el # els) bs e'"
| sent: "sendable (kind el) \<Longrightarrow> xltEncAppend T e (kind el) el n \<lparr>mem = []\<rparr> = (Val (b, e1), \<lparr>mem = []\<rparr>) \<Longrightarrow>
    int (length b) \<le> n \<Longrightarrow> encodes_body T e1 (n - int (length b)) els bs e' \<Longrightarrow>
    encodes_body T e n (el # els) (b @ bs) e'"

inductive_cases encodes_Cons: "encodes_body T e n (el # els) bs e'"
inductive_cases encodes_Nil: "encodes_body T e n [] bs e'"

text \<open>The cells once they are numbered, and the count of things to send.\<close>

fun numbered :: "32 word \<Rightarrow> 32 word \<Rightarrow> elemCell_t list \<Rightarrow> elemCell_t list" where
  "numbered n m [] = []"
| "numbered n m (c # cs) =
     \<lparr>element = (element c)\<lparr>el_cmdID := Some (pc_text (print_int n))\<rparr>, msg_id = Some (ucast m)\<rparr> # numbered (n + 1) m cs"

fun counted :: "SmlProtoElement_t list \<Rightarrow> int \<Rightarrow> int" where
  "counted [] z = z"
| "counted (t # ts) z = counted ts (count_sent t z)"

lemma length_numbered [simp]: "length (numbered n m cs) = length cs"
  by (induction n m cs rule: numbered.induct) simp_all

lemma kinds_numbered [simp]: "map (\<lambda>c. kind (element c)) (numbered n m cs) = map (\<lambda>c. kind (element c)) cs"
  by (induction n m cs rule: numbered.induct) (simp_all add: kind_def)

text \<open>A message has something to say when it holds more than its own status of the header.\<close>

definition worth_sending :: "SmlProtoElement_t list \<Rightarrow> bool" where
  "worth_sending ts \<longleftrightarrow> (\<exists>t \<in> set ts. sendable t \<and> t \<noteq> SML_PE_STATUS) \<or> 2 \<le> length (filter (\<lambda>t. t = SML_PE_STATUS) ts)"

lemma counted_worth: "0 < counted ts (- 1) \<longleftrightarrow> worth_sending ts"
proof -
  have more: "0 < z \<Longrightarrow> 0 < counted ts z" for z
    by (induction ts z rule: counted.induct) (simp_all add: count_sent_def)
  have "z \<le> 0 \<Longrightarrow> 0 < counted ts z \<longleftrightarrow>
      (\<exists>t \<in> set ts. sendable t \<and> t \<noteq> SML_PE_STATUS) \<or> 0 < z + int (length (filter (\<lambda>t. t = SML_PE_STATUS) ts))" for z
  proof (induction ts arbitrary: z)
    case (Cons t ts)
    show ?case
    proof (cases "0 < count_sent t z")
      case True
      moreover have "0 < c \<Longrightarrow> 0 < counted ts c" for c
        by (induction ts c rule: counted.induct) (simp_all add: count_sent_def)
      ultimately show ?thesis using Cons.prems by (auto simp: count_sent_def split: if_splits)
    next
      case False
      with Cons.IH [of "count_sent t z"] show ?thesis by (auto simp: count_sent_def split: if_splits)
    qed
  qed simp
  from this [of "- 1"] show ?thesis by (auto simp: worth_sending_def)
qed

lemma number_cell_at:
  assumes "plenty s" and "elem_list s = ps @ c # cs" and "sint (command_id s) \<noteq> INT_MAX"
    and "el_cmdID (element c) \<noteq> None"
  shows "number_cell (length ps) s =
    (Val ((element c)\<lparr>el_cmdID := Some (pc_text (print_int (command_id s)))\<rparr>),
     s\<lparr>command_id := command_id s + 1,
       elem_list := ps @ hd (numbered (command_id s) (message_id s) (c # cs)) # cs\<rparr>)"
proof -
  have "set_pcdata_int (command_id s) s = (pc_text (print_int (command_id s)), s)"
    using assms(1) by (simp add: set_pcdata_int_def set_pcdata_string_def pc_text_def)
  then show ?thesis using assms(2-4) by (simp add: number_cell_def Let_def nth_append)
qed

lemma compose_loop_at:
  assumes "plenty s" and "open_for_write i" and "encoderState i = Some e" and "elem_list s = ps @ cs"
    and "\<forall>c \<in> set cs. el_cmdID (element c) \<noteq> None" and "sint (command_id s) + int (length cs) \<le> INT_MAX"
    and "encodes_body T e (room i) (map element (numbered (command_id s) (message_id s) cs)) bs e'"
  shows "\<exists>j. compose_loop T cbs (length cs) (length ps) z \<lparr>session = s, smlH = Some i\<rparr> =
      (Val (SML_ERR_OK, counted (map (\<lambda>c. kind (element c)) cs) z),
       \<lparr>session = s\<lparr>command_id := command_id s + word_of_nat (length cs),
          elem_list := ps @ numbered (command_id s) (message_id s) cs\<rparr>, smlH = Some j\<rparr>) \<and>
    open_for_write j \<and> unread j = unread i @ bs \<and> room j = room i - int (length bs) \<and> encoderState j = Some e'"
  using assms
proof (induction cs arbitrary: ps s i e bs z)
  case Nil
  then have "bs = []" "e' = e" by (auto elim: encodes_Nil)
  then show ?case using Nil by (cases s) (simp add: ret_def)
next
  case (Cons c cs)
  let ?c = "hd (numbered (command_id s) (message_id s) (c # cs))"
  let ?s = "s\<lparr>command_id := command_id s + 1, elem_list := (ps @ [?c]) @ cs\<rparr>"
  have m: "sint (command_id s) < INT_MAX" using Cons.prems(6) by simp
  have n: "number_cell (length ps) s = (Val (element ?c), ?s)"
    using number_cell_at [OF Cons.prems(1,4)] Cons.prems(5) m by simp
  have next_id: "sint (command_id s + 1) = sint (command_id s) + 1"
    using m sint_greater_eq [of "command_id s"]
    by (simp add: INT_MAX_def sint_word_ariths signed_take_bit_int_eq_self)
  have e: "encodes_body T e (room i) (element ?c # map element (numbered (command_id s + 1) (message_id s) cs)) bs e'"
    using Cons.prems(7) by simp
  have k: "kind (element ?c) = kind (element c)" by (simp add: kind_def)
  have id: "command_id s + word_of_nat (length (c # cs)) = command_id ?s + word_of_nat (length cs)" by simp
  show ?case
  proof (cases "sendable (kind (element c))")
    case True
    with e k obtain b e1 bs' where b: "bs = b @ bs'"
      "xltEncAppend T e (kind (element ?c)) (element ?c) (room i) \<lparr>mem = []\<rparr> = (Val (b, e1), \<lparr>mem = []\<rparr>)"
      "int (length b) \<le> room i" "encodes_body T e1 (room i - int (length b))
        (map element (numbered (command_id s + 1) (message_id s) cs)) bs' e'"
      by (auto elim: encodes_Cons)
    note i = drafted_facts [OF Cons.prems(2) b(3), of "Some e1"]
    have "\<exists>j. compose_loop T cbs (length cs) (length (ps @ [?c])) (count_sent (kind (element c)) z)
          \<lparr>session = ?s, smlH = Some (drafted b (Some e1) i)\<rparr> =
        (Val (SML_ERR_OK, counted (map (\<lambda>c. kind (element c)) cs) (count_sent (kind (element c)) z)),
         \<lparr>session = ?s\<lparr>command_id := command_id ?s + word_of_nat (length cs),
            elem_list := (ps @ [?c]) @ numbered (command_id ?s) (message_id ?s) cs\<rparr>, smlH = Some j\<rparr>) \<and>
      open_for_write j \<and> unread j = unread (drafted b (Some e1) i) @ bs' \<and>
      room j = room (drafted b (Some e1) i) - int (length bs') \<and> encoderState j = Some e'"
      by (rule Cons.IH) (use Cons.prems b(4) i next_id in \<open>simp_all\<close>)
    moreover have "mgrCreateNextCommand T cbs (kind (element ?c)) (element ?c) \<lparr>session = ?s, smlH = Some i\<rparr> =
        (Val (), \<lparr>session = ?s, smlH = Some (drafted b (Some e1) i)\<rparr>)"
      by (rule create_command_at [OF _ Cons.prems(2,3) b(2,3)]) (simp add: Cons.prems(1))
    ultimately show ?thesis
      using True n k i b(1)
      by (auto simp: DMC_FAIL_def on_session_def try_code_def kind_def [symmetric] Let_def)
  next
    case False
    then have "\<exists>j. compose_loop T cbs (length cs) (length (ps @ [?c])) (count_sent (kind (element c)) z)
          \<lparr>session = ?s, smlH = Some i\<rparr> =
        (Val (SML_ERR_OK, counted (map (\<lambda>c. kind (element c)) cs) (count_sent (kind (element c)) z)),
         \<lparr>session = ?s\<lparr>command_id := command_id ?s + word_of_nat (length cs),
            elem_list := (ps @ [?c]) @ numbered (command_id ?s) (message_id ?s) cs\<rparr>, smlH = Some j\<rparr>) \<and>
      open_for_write j \<and> unread j = unread i @ bs \<and> room j = room i - int (length bs) \<and> encoderState j = Some e'"
      by (intro Cons.IH) (use Cons.prems e k next_id in \<open>auto elim: encodes_Cons\<close>)
    then show ?thesis
      using False n k
      by (auto simp: DMC_FAIL_def on_session_def try_code_def kind_def [symmetric] Let_def ret_def)
  qed
qed

section \<open>A whole message\<close>

text \<open>The session when the header of its next message is made, and when the message is composed.\<close>

definition started :: "('w, 'z) internals_t_scheme \<Rightarrow> ('w, 'z) internals_t_scheme" where
  "started s = s\<lparr>message_id := message_id s + 1, command_id := 1\<rparr>"

definition composed :: "('w, 'z) internals_t_scheme \<Rightarrow> ('w, 'z) internals_t_scheme" where
  "composed s = refresh_elements (s\<lparr>message_id := message_id s + 1,
     command_id := 1 + word_of_nat (length (elem_list s)), elem_list := numbered 1 (message_id s + 1) (elem_list s)\<rparr>)"

inductive encodes_message ::
  "('e, 'd) translator \<Rightarrow> SmlEncoding_t \<Rightarrow> sml_out_hdr option \<Rightarrow> int \<Rightarrow> basicElement_t list \<Rightarrow> 8 word list \<Rightarrow> bool" for T where
  "xltEncInit T enc h n \<lparr>mem = []\<rparr> = (Val (b0, e0), \<lparr>mem = []\<rparr>) \<Longrightarrow> int (length b0) \<le> n \<Longrightarrow>
    encodes_body T e0 (n - int (length b0)) els b1 e1 \<Longrightarrow>
    xltEncTerminate T e1 True (n - int (length b0) - int (length b1)) \<lparr>mem = []\<rparr> = (Val b2, \<lparr>mem = []\<rparr>) \<Longrightarrow>
    int (length b2) \<le> n - int (length b0) - int (length b1) \<Longrightarrow>
    encodes_message T enc h n els (b0 @ b1 @ b2)"

text \<open>What the library has to send: nothing overflows, and each element has an identifier to fill in.\<close>

definition sendable_session :: "('w, 'z) internals_t_scheme \<Rightarrow> bool" where
  "sendable_session s \<longleftrightarrow> plenty s \<and> sint (message_id s) < INT_MAX \<and> int (length (elem_list s)) < INT_MAX \<and>
     (\<forall>c \<in> set (elem_list s). el_cmdID (element c) \<noteq> None)"

lemma drawn_header_allocators [keeps_rules]:
  "keeps (drawn e) smlAllocSyncHdr" "keeps (drawn e) smlAllocMetInfMetInf"
  unfolding smlAllocSyncHdr_def smlAllocMetInfMetInf_def by (rule drawn_alloc)+

lemma drawn_fill_header [keeps_rules]: "keeps (drawn e) (fill_header junk s a h)"
  unfolding fill_header_def header_meta_def set_from_pointer_def by (intro keeps_rules)

lemma drawn_header [keeps_rules]: "keeps (drawn e) (prvGetHeader junk)"
proof -
  have "keeps (drawn e) (\<lambda>s. case account s of None \<Rightarrow> (Ub, s)
      | Some a \<Rightarrow> DMC_FAIL (fill_header junk s a h) (\<lambda>h. ret (Some h)) s)" for h
    by (rule keeps_at [of _ "\<lambda>x s. case account x of None \<Rightarrow> (Ub, s)
      | Some a \<Rightarrow> DMC_FAIL (fill_header junk x a h) (\<lambda>h. ret (Some h)) s"]) (intro keeps_rules)
  from keeps_option_at [OF keeps_now this] show ?thesis
    unfolding prvGetHeader_def by (intro keeps_FAIL keeps_allocating drawn_header_allocators)
qed

lemma compose_message_at:
  assumes "sendable_session s" and "open_for_write i" and "inst_encoding i = Some enc"
    and "prvGetHeader junk (started s) = (Val h, v)"
    and "encodes_message T enc h (room i) (map element (numbered 1 (message_id s + 1) (elem_list s))) bs"
  shows "\<exists>j. prvComposeMessage junk T cbs \<lparr>session = s, smlH = Some i\<rparr> =
      (Val (if worth_sending (map (\<lambda>c. kind (element c)) (elem_list s)) then DMCLT_ERR_NONE else DMCLT_ERR_END),
       \<lparr>session = composed s, smlH = Some j\<rparr>) \<and>
    open_for_write j \<and> unread j = unread i @ bs"
proof -
  let ?i = "i\<lparr>outgoingMsgStart := Some (writePointer i)\<rparr>"
  have p: "plenty (started s)" using assms(1) by (simp add: sendable_session_def started_def)
  have v: "v = started s" by (rule plenty_same [OF drawn_header p assms(4)])
  have nm: "next_message s = (Val (), started s)"
    using assms(1) by (simp add: next_message_def sendable_session_def started_def)
  have i: "open_for_write ?i" "room ?i = room i" "unread ?i = unread i"
    using assms(2) by (auto simp: open_for_write_def well_placed_def instanceBufSiz_def room_def unread_def)
  from assms(5) obtain b0 e0 b1 e1 b2 where bs: "bs = b0 @ b1 @ b2"
    and b0: "xltEncInit T enc h (room i) \<lparr>mem = []\<rparr> = (Val (b0, e0), \<lparr>mem = []\<rparr>)" "int (length b0) \<le> room i"
    and b1: "encodes_body T e0 (room i - int (length b0)) (map element (numbered 1 (message_id s + 1) (elem_list s))) b1 e1"
    and b2: "xltEncTerminate T e1 True (room i - int (length b0) - int (length b1)) \<lparr>mem = []\<rparr> = (Val b2, \<lparr>mem = []\<rparr>)"
      "int (length b2) \<le> room i - int (length b0) - int (length b1)"
    by (auto elim: encodes_message.cases)
  let ?j = "drafted b0 (Some e0) ?i"
  note j = drafted_facts [OF i(1), of b0 "Some e0", unfolded i(2,3), OF b0(2)]
  let ?n = "length (elem_list s)" and ?k = "counted (map (\<lambda>c. kind (element c)) (elem_list s)) (- 1)"
  let ?c = "(started s)\<lparr>command_id := command_id (started s) + word_of_nat ?n,
    elem_list := [] @ numbered (command_id (started s)) (message_id (started s)) (elem_list s)\<rparr>"
  have "\<exists>g. compose_loop T cbs ?n (length ([] :: elemCell_t list)) (- 1) \<lparr>session = started s, smlH = Some ?j\<rparr> =
      (Val (SML_ERR_OK, ?k), \<lparr>session = ?c, smlH = Some g\<rparr>) \<and> open_for_write g \<and>
      unread g = unread ?j @ b1 \<and> room g = room ?j - int (length b1) \<and> encoderState g = Some e1"
    by (rule compose_loop_at [OF p])
      (use assms(1) j b1 in \<open>simp_all add: sendable_session_def started_def\<close>)
  then obtain g where loop: "compose_loop T cbs ?n 0 (- 1) \<lparr>session = started s, smlH = Some ?j\<rparr> =
      (Val (SML_ERR_OK, ?k), \<lparr>session = ?c, smlH = Some g\<rparr>)"
    and g: "open_for_write g" "unread g = unread ?j @ b1" "room g = room ?j - int (length b1)" "encoderState g = Some e1"
    by auto
  have r: "room g = room i - int (length b0) - int (length b1)" using g(3) j(3) by simp
  have "plenty ?c" using p by simp
  from end_message_at [OF this g(1,4), unfolded r, OF b2]
  have last: "smlEndMessage T True \<lparr>session = ?c, smlH = Some g\<rparr> = (Val (), \<lparr>session = ?c, smlH = Some (drafted b2 None g)\<rparr>)" .
  note f = drafted_facts [OF g(1), of b2 None, unfolded r, OF b2(2)]
  have first: "smlStartMessageExt T h \<lparr>session = started s, smlH = Some i\<rparr> = (Val (), \<lparr>session = started s, smlH = Some ?j\<rparr>)"
    by (rule start_message_at [OF p assms(2,3) b0])
  have n: "elem_list (started s) = elem_list s" by (simp add: started_def)
  have "refresh_elements ?c = composed s" by (simp add: composed_def started_def)
  then have "prvComposeMessage junk T cbs \<lparr>session = s, smlH = Some i\<rparr> =
      (Val (if ?k \<le> 0 then DMCLT_ERR_END else DMCLT_ERR_NONE), \<lparr>session = composed s, smlH = Some (drafted b2 None g)\<rparr>)"
    using nm assms(4) v first loop last n
    by (simp add: prvComposeMessage_def DMC_FAIL_def on_session_def try_code_def on_state_def ret_def)
  moreover have "?k \<le> 0 \<longleftrightarrow> \<not> worth_sending (map (\<lambda>c. kind (element c)) (elem_list s))"
    using counted_worth [of "map (\<lambda>c. kind (element c)) (elem_list s)"] by linarith
  ultimately show ?thesis using f(1,2) g(2) j(2) bs by simp
qed

section \<open>Packets\<close>

lemma read_packet_at:
  assumes "plenty s" and "open_for_write i" and "account s = Some a" and "acc_server_uri a = Some u"
  shows "\<exists>j. read_packet \<lparr>session = s, smlH = Some i\<rparr> =
      on_session (export_auth (packet_zero\<lparr>pk_data := Some (unread i), pk_length := int (length (unread i)), pk_uri := Some u\<rparr>))
        \<lparr>session = s, smlH = Some j\<rparr> \<and> open_for_write j \<and> unread j = []"
proof -
  let ?j = "i\<lparr>readPointer := writePointer i, readLocked := False\<rparr>"
  have w: "well_placed i" "\<not> readLocked i" using assms(2) by (simp_all add: open_for_write_def)
  have j: "open_for_write ?j" "unread ?j = []"
    using assms(2) by (auto simp: open_for_write_def well_placed_def instanceBufSiz_def unread_def)
  have "read_packet \<lparr>session = s, smlH = Some i\<rparr> =
      on_session (export_auth (packet_zero\<lparr>pk_data := Some (unread i), pk_length := int (length (unread i)), pk_uri := Some u\<rparr>))
        \<lparr>session = s, smlH = Some ?j\<rparr>"
    using assms w
    by (simp add: read_packet_def try_code_def DMC_FAIL_def lifting smlLockReadBuffer_def on_session_def allocating_def
        get_unread [OF w(1)] on_state_def Let_def smlUnlockReadBuffer_def length_unread [OF w(1)])
  then show ?thesis using j by blast
qed

text \<open>
  C24. What a packet holds: what the buffer had unread, and after it the message as the encoder writes it.
  Nothing of it stays in the buffer.
\<close>

theorem packet_holds_message:
  assumes "sendable_session s" and "open_for_write i" and "inst_encoding i = Some enc"
    and "session_state s = STATE_IN_SESSION" and "account s = Some a" and "acc_server_uri a = Some u"
    and "toServerCred a = Some cred" and "ad_type cred = Is ty" and "ad_data cred = Is data" and "\<not> packet_auth ty"
    and "prvGetHeader junk (started s) = (Val h, v)"
    and "encodes_message T enc h (room i) (map element (numbered 1 (message_id s + 1) (elem_list s))) bs"
    and "worth_sending (map (\<lambda>c. kind (element c)) (elem_list s))"
  shows "\<exists>j. omadmclient_get_next_packet junk T cbs fuel (Some p) \<lparr>session = s, smlH = Some i\<rparr> =
      (Val (Some (DMCLT_ERR_NONE, Some \<lparr>pk_uri = Some u, pk_auth_type = ty, pk_auth_data = None,
         pk_length = int (length (unread i @ bs)), pk_data = Some (unread i @ bs)\<rparr>)),
       \<lparr>session = composed s, smlH = Some j\<rparr>) \<and>
    open_for_write j \<and> unread j = []"
proof -
  obtain g where c: "prvComposeMessage junk T cbs \<lparr>session = s, smlH = Some i\<rparr> =
      (Val DMCLT_ERR_NONE, \<lparr>session = composed s, smlH = Some g\<rparr>)" and g: "open_for_write g" "unread g = unread i @ bs"
    using compose_message_at [OF assms(1-3,11,12), of cbs] assms(13) by auto
  have s: "plenty (composed s)" "account (composed s) = Some a"
    using assms(1,5) by (simp_all add: composed_def refresh_elements_def sendable_session_def)
  obtain j where j: "read_packet \<lparr>session = composed s, smlH = Some g\<rparr> =
      on_session (export_auth (packet_zero\<lparr>pk_data := Some (unread g), pk_length := int (length (unread g)), pk_uri := Some u\<rparr>))
        \<lparr>session = composed s, smlH = Some j\<rparr>" "open_for_write j" "unread j = []"
    using read_packet_at [OF s(1) g(1) s(2) assms(6)] by blast
  have "export_auth pk (composed s) = (Val (DMCLT_ERR_NONE, pk\<lparr>pk_auth_type := ty\<rparr>), composed s)" for pk
    using s(2) assms(7-10) by (simp add: export_auth_def cmd_defs Let_def)
  then show ?thesis
    using c j g(2) assms(4,5)
    by (simp add: omadmclient_get_next_packet_def on_state_def DMC_FAIL_def on_session_def ret_def packet_zero_def)
qed

text \<open>
  C25. A session is over for the library when there is nothing but the status of the header to send.  The
  message that has been composed stays in the buffer, in front of whatever comes next.
\<close>

theorem last_message_stays:
  assumes "sendable_session s" and "open_for_write i" and "inst_encoding i = Some enc"
    and "session_state s = STATE_IN_SESSION" and "account s = Some a"
    and "prvGetHeader junk (started s) = (Val h, v)"
    and "encodes_message T enc h (room i) (map element (numbered 1 (message_id s + 1) (elem_list s))) bs"
    and "\<not> worth_sending (map (\<lambda>c. kind (element c)) (elem_list s))"
  shows "\<exists>j. omadmclient_get_next_packet junk T cbs fuel (Some p) \<lparr>session = s, smlH = Some i\<rparr> =
      (Val (Some (DMCLT_ERR_END, Some packet_zero)), \<lparr>session = composed s, smlH = Some j\<rparr>) \<and> unread j = unread i @ bs"
  using compose_message_at [OF assms(1-3,6,7), of cbs] assms(4,5,8)
  by (auto simp: omadmclient_get_next_packet_def on_state_def DMC_FAIL_def on_session_def ret_def)

section \<open>The status of a sent command\<close>

lemma numbered_nth:
  "k < length cs \<Longrightarrow> numbered n m cs ! k =
     \<lparr>element = (element (cs ! k))\<lparr>el_cmdID := Some (pc_text (print_int (n + word_of_nat k)))\<rparr>, msg_id = Some (ucast m)\<rparr>"
  by (induction n m cs arbitrary: k rule: numbered.induct)
    (auto simp: nth_Cons add.assoc split: nat.split)

lemma sint_word_eq_iff: "sint a = sint b \<longleftrightarrow> a = b"
  by (rule word_eq_iff_signed [symmetric])

lemma print_int_inj: "print_int a = print_int b \<longleftrightarrow> a = b"
proof
  assume eq: "print_int a = print_int b"
  have "Val (Some (sint a)) = scan_int (print_int a)" by (rule scan_print_int [symmetric])
  also have "\<dots> = Val (Some (sint b))" unfolding eq by (rule scan_print_int)
  finally have "sint a = sint b" by simp
  then show "a = b" by (simp add: sint_word_eq_iff)
next
  assume "a = b" then show "print_int a = print_int b" by (rule arg_cong)
qed

lemma find_unique:
  "x \<in> set xs \<Longrightarrow> P x \<Longrightarrow> (\<And>y. y \<in> set xs \<Longrightarrow> P y \<Longrightarrow> y = x) \<Longrightarrow> find P (xs @ ys) = Some x"
proof (induction xs)
  case (Cons a xs)
  show ?case
  proof (cases "P a")
    case True
    then show ?thesis using Cons.prems(3) [of a] by simp
  next
    case False
    then have "x \<in> set xs" using Cons.prems(1,2) by auto
    from Cons.IH [OF this Cons.prems(2)] show ?thesis using False Cons.prems(3) by simp
  qed
qed simp

lemma print_int_no_zero: "CHR 0x00 \<notin> set (print_int v)"
  unfolding print_int_def using digit_chars_no_zero by simp

lemma sent_numbered: "c \<in> set (numbered n m cs) \<Longrightarrow> sent_cell c"
  by (induction n m cs rule: numbered.induct) (auto simp: sent_cell_def print_int_no_zero)

lemma sint_small:
  assumes "0 \<le> sint (m :: 32 word)" and "sint m \<le> 127"
  shows "sint (ucast m :: 8 word) = sint m"
proof -
  have "uint m = uint (word_of_int (sint m) :: 32 word)" by simp
  also have "\<dots> = sint m" using assms unfolding uint_word_of_int by (simp add: take_bit_int_eq_self)
  finally have "sint m = uint m" by simp
  then have m: "uint m \<le> 127" "0 \<le> uint m" using assms by simp_all
  then have u: "uint (ucast m :: 8 word) = uint m" by (simp add: unsigned_ucast_eq take_bit_int_eq_self)
  have "sint (ucast m :: 8 word) = signed_take_bit 7 (uint (ucast m :: 8 word))" by (simp add: sint_uint)
  also have "\<dots> = uint m" unfolding u using m by (simp add: signed_take_bit_int_eq_self order_trans [of _ 0])
  finally show ?thesis using \<open>sint m = uint m\<close> by simp
qed

lemma old_composed:
  "old_elem (composed s) = rev (filter awaits_status (numbered 1 (message_id s + 1) (elem_list s))) @ old_elem s"
  by (simp add: composed_def refresh_elements_def refresh_loop_eq)

lemma unat_word_of_nat_32: "unat (word_of_nat n :: 32 word) = take_bit 32 n"
  by (simp add: unsigned_of_nat)

lemma find_numbered:
  fixes s :: "('w, 'z) internals_t_scheme"
  assumes "k < length (elem_list s)" and "awaits_status (elem_list s ! k)" and "int (length (elem_list s)) < INT_MAX"
    and "0 \<le> sint (message_id s + 1)" and "sint (message_id s + 1) \<le> 127"
  shows "find (ref_matches (print_int (1 + word_of_nat k)) (sint (message_id s + 1))) (old_elem (composed s)) =
    Some (numbered 1 (message_id s + 1) (elem_list s) ! k)"
proof -
  let ?cs = "numbered 1 (message_id s + 1) (elem_list s)"
  let ?P = "ref_matches (print_int (1 + word_of_nat k)) (sint (message_id s + 1))"
  note nth = numbered_nth [of _ "elem_list s" 1 "message_id s + 1"]
  have in_list: "?cs ! k \<in> set (rev (filter awaits_status ?cs))"
    using assms(1,2) nth [of k] nth_mem [of k ?cs] by (simp add: awaits_status_def)
  have "?P (?cs ! k)" using nth [OF assms(1)] sint_small [OF assms(4,5)] by (simp add: ref_matches_def)
  moreover have "c = ?cs ! k" if c: "c \<in> set (rev (filter awaits_status ?cs))" "?P c" for c
  proof -
    from c(1) obtain j where j: "j < length (elem_list s)" "c = ?cs ! j" by (auto simp: in_set_conv_nth)
    then have "print_int (1 + word_of_nat j) = print_int (1 + word_of_nat k)"
      using c(2) nth [OF j(1)] by (simp add: ref_matches_def)
    then have "(word_of_nat j :: 32 word) = word_of_nat k" by (simp add: print_int_inj)
    moreover have "j < 2 ^ 32" "k < 2 ^ 32" using j(1) assms(1,3) by (simp_all add: INT_MAX_def)
    moreover from calculation(1) have "take_bit 32 j = take_bit 32 k"
      by (metis unat_word_of_nat_32)
    ultimately have "j = k" by (simp add: take_bit_nat_eq_self)
    then show ?thesis using j(2) by simp
  qed
  ultimately show ?thesis unfolding old_composed using in_list by (rule_tac find_unique)
qed

lemma ref_number_print: "ref_number (print_int m) = Val (sint m)"
proof -
  have "print_int m \<noteq> []" using digits_decimal by (simp add: print_int_def)
  then show ?thesis by (simp add: ref_number_def scan_print_int)
qed

text \<open>
  C26. Up to message number 127, a status that refers to a command of the message finds that very
  command among those that wait.
\<close>

theorem sent_command_found:
  assumes "sendable_session s" and "open_for_write i" and "inst_encoding i = Some enc"
    and "prvGetHeader junk (started s) = (Val h, v)"
    and "encodes_message T enc h (room i) (map element (numbered 1 (message_id s + 1) (elem_list s))) bs"
    and "prvComposeMessage junk T cbs \<lparr>session = s, smlH = Some i\<rparr> = (r, c)"
    and "\<forall>d \<in> set (old_elem s). sent_cell d" and "0 \<le> sint (message_id s + 1)" and "sint (message_id s + 1) \<le> 127"
    and "k < length (elem_list s)" and "awaits_status (elem_list s ! k)"
  shows "fst (retrieve_element (print_int (1 + word_of_nat k)) (print_int (message_id s + 1)) (session c)) =
    Val (Some \<lparr>element = (element (elem_list s ! k))\<lparr>el_cmdID := Some (pc_text (print_int (1 + word_of_nat k)))\<rparr>,
      msg_id = Some (ucast (message_id s + 1))\<rparr>)"
proof -
  have c: "session c = composed s" using compose_message_at [OF assms(1-5), of cbs] assms(6) by auto
  have s: "plenty (composed s)" "int (length (elem_list s)) < INT_MAX"
    using assms(1) by (simp_all add: composed_def refresh_elements_def sendable_session_def)
  have "\<forall>d \<in> set (old_elem (composed s)). sent_cell d"
    using assms(7) sent_numbered by (fastforce simp: old_composed)
  from retrieve_loop_find [OF s(1) this] show ?thesis
    using find_numbered [OF assms(10,11) s(2) assms(8,9)] numbered_nth [OF assms(10)]
    unfolding c by (simp add: retrieve_element_def ref_number_print cmd_defs)
qed

section \<open>Witnesses\<close>

definition new_alert :: elemCell_t where
  "new_alert = \<lparr>element = new_element (Alert \<lparr>al_data = Some (pc_text ''1226''), al_correlator = None, al_items = []\<rparr>),
     msg_id = None\<rparr>"

definition talk_session :: "nat internals_t" where
  "talk_session = open_session\<lparr>session_state := STATE_IN_SESSION, clt_auth := OMADM_SYNCML_ERROR_AUTHENTICATION_ACCEPTED,
     account := Some (account_zero\<lparr>acc_id := Some ''srv'', acc_server_uri := Some ''http://s'',
       toServerCred := Some (sample_auth DMCLT_AUTH_TYPE_DIGEST)\<rparr>),
     elem_list := [new_alert]\<rparr>"

definition empty_instance :: "(unit, unit) InstanceInfo_t" where
  "empty_instance = sample_instance\<lparr>writePointer := 0\<rparr>"

lemma empty_instance_facts:
  "open_for_write empty_instance" "inst_encoding empty_instance = Some SML_XML" "room empty_instance = 4"
  "unread empty_instance = []"
  by (simp_all add: empty_instance_def sample_instance_def open_for_write_def well_placed_def instanceBufSiz_def room_def
      unread_def)

lemma talk_session_facts:
  "sendable_session talk_session" "session_state talk_session = STATE_IN_SESSION" "elem_list talk_session = [new_alert]"
  "account talk_session = Some (account_zero\<lparr>acc_id := Some ''srv'', acc_server_uri := Some ''http://s'',
       toServerCred := Some (sample_auth DMCLT_AUTH_TYPE_DIGEST)\<rparr>)" "message_id talk_session = 0"
  "\<forall>d \<in> set (old_elem talk_session). sent_cell d"
  using sample_session_facts
  by (simp_all add: talk_session_def open_session_def sendable_session_def INT_MAX_def new_alert_def new_element_def)
    (simp_all add: sample_session_def session_over_def)

lemma talk_header: "\<exists>h v. prvGetHeader [] (started talk_session) = (Val h, v)"
proof -
  have "(case fst (prvGetHeader [] (started talk_session)) of Val h \<Rightarrow> True | _ \<Rightarrow> False)" by code_simp
  then show ?thesis by (cases "prvGetHeader [] (started talk_session)") (auto split: outcome.splits)
qed

lemma talk_message:
  "sendable (kind el) \<Longrightarrow> encodes_message byte_translator SML_XML h 4 [el] [7, 1, 0]"
  using encodes_message.intros [of byte_translator SML_XML h 4 "[7]" "()" "[el]" "[1]" "()" "[0]"]
    encodes_body.sent [of el byte_translator "()" 3 "[1]" "()" "[]" "[]" "()"]
  by (simp add: byte_translator_def one_byte_def cmd_defs encodes_body.nothing)

definition empty_status :: sml_status where
  "empty_status = \<lparr>st_cmdRef = pc_empty, st_msgRef = pc_empty, st_cmd = pc_empty,
     st_data = pc_empty, st_chal = None, st_targetRef = None, st_sourceRef = None, st_items = []\<rparr>"

definition quiet_session :: "nat internals_t" where
  "quiet_session = talk_session\<lparr>elem_list := [\<lparr>element = new_element (Status empty_status), msg_id = None\<rparr>]\<rparr>"

lemma composing:
  assumes "sendable (kind (element c))"
  shows "encodes_message byte_translator SML_XML h (room empty_instance) (map element (numbered 1 m [c])) [7, 1, 0]"
  using assms by (simp add: empty_instance_facts talk_message kind_def)

theorem packet_holds_message_witness:
  "fst (omadmclient_get_next_packet [] byte_translator (library_callbacks [] []) 0 (Some packet_zero)
      \<lparr>session = talk_session, smlH = Some empty_instance\<rparr>) =
    Val (Some (DMCLT_ERR_NONE, Some \<lparr>pk_uri = Some ''http://s'', pk_auth_type = DMCLT_AUTH_TYPE_DIGEST, pk_auth_data = None,
      pk_length = 3, pk_data = Some [7, 1, 0]\<rparr>))"
proof -
  obtain h v where h: "prvGetHeader [] (started talk_session) = (Val h, v)" using talk_header by blast
  have "sendable (kind (element new_alert))" by (simp add: sendable_def kind_def new_alert_def new_element_def)
  from composing [OF this] have e: "encodes_message byte_translator SML_XML h (room empty_instance)
      (map element (numbered 1 (message_id talk_session + 1) (elem_list talk_session))) [7, 1, 0]"
    by (simp only: talk_session_facts)
  show ?thesis
    using packet_holds_message [OF talk_session_facts(1) empty_instance_facts(1,2) talk_session_facts(2,4) _ _ _ _ _ h e,
        of "''http://s''" "sample_auth DMCLT_AUTH_TYPE_DIGEST" DMCLT_AUTH_TYPE_DIGEST
          "\<lparr>buffer = Some [110], len = 1\<rparr>" "library_callbacks [] []" 0 packet_zero]
    by (auto simp: talk_session_facts empty_instance_facts sample_auth_def packet_auth_def worth_sending_def sendable_def
        kind_def new_alert_def new_element_def)
qed

theorem last_message_stays_witness:
  "fst (omadmclient_get_next_packet [] byte_translator (library_callbacks [] []) 0 (Some packet_zero)
      \<lparr>session = quiet_session, smlH = Some empty_instance\<rparr>) = Val (Some (DMCLT_ERR_END, Some packet_zero))"
proof -
  have f: "started quiet_session = (started talk_session)\<lparr>elem_list := elem_list quiet_session\<rparr>"
    by (simp add: quiet_session_def started_def)
  have "(case fst (prvGetHeader [] (started quiet_session)) of Val h \<Rightarrow> True | _ \<Rightarrow> False)" by code_simp
  then obtain h v where h: "prvGetHeader [] (started quiet_session) = (Val h, v)"
    by (cases "prvGetHeader [] (started quiet_session)") (auto split: outcome.splits)
  have q: "sendable_session quiet_session" "session_state quiet_session = STATE_IN_SESSION" "account quiet_session \<noteq> None"
    using talk_session_facts by (simp_all add: quiet_session_def sendable_session_def new_element_def)
  then obtain a where a: "account quiet_session = Some a" by auto
  let ?c = "\<lparr>element = new_element (Status empty_status), msg_id = None\<rparr>"
  have l: "elem_list quiet_session = [?c]" by (simp add: quiet_session_def)
  have "sendable (kind (element ?c))" by (simp add: sendable_def kind_def new_element_def)
  from composing [OF this] have e: "encodes_message byte_translator SML_XML h (room empty_instance)
      (map element (numbered 1 (message_id quiet_session + 1) (elem_list quiet_session))) [7, 1, 0]"
    by (simp only: l)
  have "\<not> worth_sending (map (\<lambda>c. kind (element c)) (elem_list quiet_session))"
    by (simp add: l worth_sending_def kind_def new_element_def)
  from last_message_stays [OF q(1) empty_instance_facts(1,2) q(2) a h e this, of "library_callbacks [] []" 0 packet_zero]
  show ?thesis by auto
qed

theorem sent_command_found_witness:
  "map_option el_body (map_option element (case fst (retrieve_element (print_int 1) (print_int 1)
      (session (snd (prvComposeMessage [] byte_translator (library_callbacks [] [])
        \<lparr>session = talk_session, smlH = Some empty_instance\<rparr>)))) of Val x \<Rightarrow> x | _ \<Rightarrow> None)) =
    Some (el_body (element new_alert))"
proof -
  obtain h v where h: "prvGetHeader [] (started talk_session) = (Val h, v)" using talk_header by blast
  have "sendable (kind (element new_alert))" by (simp add: sendable_def kind_def new_alert_def new_element_def)
  from composing [OF this] have e: "encodes_message byte_translator SML_XML h (room empty_instance)
      (map element (numbered 1 (message_id talk_session + 1) (elem_list talk_session))) [7, 1, 0]"
    by (simp only: talk_session_facts)
  obtain r c where rc: "prvComposeMessage [] byte_translator (library_callbacks [] [])
      \<lparr>session = talk_session, smlH = Some empty_instance\<rparr> = (r, c)" by fastforce
  have "awaits_status new_alert" by (simp add: awaits_status_def new_alert_def new_element_def)
  then show ?thesis
    using sent_command_found [OF talk_session_facts(1) empty_instance_facts(1,2) h e rc talk_session_facts(6), of 0]
    by (simp add: talk_session_facts rc)
qed

end
