(* ===== verification/Lifecycle.thy ===== *)
theory Lifecycle
  imports Compose
begin

text \<open>
  What holds over the life of an instance and of a session: the buffer stays in order under every
  sequence of calls, a reply is processed as the abstract processing does with its elements, and two
  states in which a session stays longer than it should.
\<close>

section \<open>An instance in use\<close>

datatype buffer_call =
  Lock_read | Unlock_read int | Max_outgoing int | Outgoing_begin | Outgoing_again | Peek bool
| Lock_write | Unlock_write int | Put int "8 word list" | Fetch int int | Reset

fun after_call :: "buffer_call \<Rightarrow> ('e, 'd) InstanceInfo_t \<Rightarrow> ('e, 'd) InstanceInfo_t" where
  "after_call Lock_read i = snd (smlLockReadBuffer i)"
| "after_call (Unlock_read n) i = snd (smlUnlockReadBuffer n i)"
| "after_call (Max_outgoing n) i = snd (smlSetMaxOutgoingSize n i)"
| "after_call Outgoing_begin i = snd (smlSetOutgoingBegin i)"
| "after_call Outgoing_again i = snd (smlReadOutgoingAgain i)"
| "after_call (Peek b) i = snd (smlPeekMessageBuffer b i)"
| "after_call Lock_write i = snd (smlLockWriteBuffer i)"
| "after_call (Unlock_write n) i = snd (smlUnlockWriteBuffer n i)"
| "after_call (Put p bs) i = snd (put_bytes p bs i)"
| "after_call (Fetch p n) i = snd (get_bytes p n i)"
| "after_call Reset i = mgrResetWorkspace i"

text \<open>
  An instance in use was made with a buffer of the size asked for, and has seen any calls since but
  those of a reader that takes a negative number of bytes: \<open>smlUnlockReadBuffer\<close> has a signed
  parameter of which it tests only the upper bound.
\<close>

definition takes_none_back :: "buffer_call \<Rightarrow> bool" where
  "takes_none_back c \<longleftrightarrow> (case c of Unlock_read n \<Rightarrow> 0 \<le> n | _ \<Rightarrow> True)"

inductive in_use :: "('e, 'd) InstanceInfo_t \<Rightarrow> bool" where
  made: "smlInitInstance fresh cb enc n out (h :: heap) = (Val (SML_ERR_OK, Some i), h') \<Longrightarrow> length (fresh n) = n \<Longrightarrow> in_use i"
| called: "in_use i \<Longrightarrow> takes_none_back c \<Longrightarrow> in_use (after_call c i)"

lemma made_well_placed:
  "smlInitInstance fresh cb enc n out h = (Val (SML_ERR_OK, Some i), h') \<Longrightarrow> well_placed i"
  by (auto simp: smlInitInstance_def smlSetCallbacks_def setInstanceOptions_def well_placed_def instanceBufSiz_def Let_def
      split: if_splits option.splits prod.splits)

lemma call_well_placed: "well_placed i \<Longrightarrow> takes_none_back c \<Longrightarrow> well_placed (after_call c i)"
  by (cases c) (simp_all add: takes_none_back_def keeps_well_placed [unfolded keeps_def, rule_format],
    simp add: mgrResetWorkspace_def well_placed_def instanceBufSiz_def)

text \<open>
  C28. Whatever is called on an instance, and in whatever order, the read pointer is not behind the write
  pointer, and neither they nor the starts of messages leave the buffer, as long as no reader unlocks
  with a negative count.
\<close>

theorem buffer_in_bounds: "in_use i \<Longrightarrow> well_placed i"
  by (induction rule: in_use.induct) (simp_all add: made_well_placed call_well_placed)

text \<open>A negative count moves the read pointer out of an empty buffer.\<close>

theorem negative_unlock_leaves_buffer:
  assumes "readLocked i" and "readPointer i = 0" and "0 \<le> writePointer i"
  shows "fst (smlUnlockReadBuffer (-1) i) = Val () \<and> readPointer (snd (smlUnlockReadBuffer (-1) i)) = -1"
  using assms by (simp add: smlUnlockReadBuffer_def)

section \<open>Replies\<close>

lemma appended_rest:
  "decoderState (appended bs i) = decoderState i" "has_callbacks (appended bs i) = has_callbacks i"
  "inst_encoding (appended bs i) = inst_encoding i"
  by (simp_all add: appended_def Let_def reset_empty_def mgrResetWorkspace_def)

lemma reply_stored:
  assumes "open_for_write i" and "pk_data p = Some bs" and "pk_length p = int (length bs)" and "int (length bs) \<le> room i"
  shows "omadmclient_process_reply T cbs fuel (Some p) \<lparr>session = s, smlH = Some i\<rparr> =
    try_code (smlProcessData T cbs fuel) (\<lambda>r.
      case r of
        Inl _ \<Rightarrow> ret (Some DMCLT_ERR_INTERNAL)
      | Inr None \<Rightarrow> ret None
      | Inr (Some _) \<Rightarrow> ret (Some DMCLT_ERR_NONE)) \<lparr>session = s, smlH = Some (appended bs i)\<rparr>"
  using write_steps [OF assms(1,4)] assms(2-4)
  by (simp add: omadmclient_process_reply_def try_code_def lifting DMC_FAIL_def copy_packet_def Let_def)

text \<open>
  C27. A reply is processed as the abstract processing does with the elements of what is in the buffer with
  it: the same session afterwards, success exactly when every callback was content, and unless the
  execution is undefined the instance is ready for the next message.
\<close>

theorem reply_processed:
  fixes s :: "'w internals_t"
  assumes "plenty s" and "open_for_write i" and "decoderState i = None" and "has_callbacks i"
    and "inst_encoding i = Some enc"
    and "pk_data p = Some bs" and "pk_length p = int (length bs)" and "int (length bs) \<le> room i"
    and "xltDecInit T enc (unread i @ bs) \<lparr>mem = []\<rparr> = (Val (int k, d, h), \<lparr>mem = []\<rparr>)" and "k \<le> length (unread i @ bs)"
    and "decodes_body T d (drop k (unread i @ bs)) ds fin" and "length ds < fuel"
    and "process_message (Some (library_callbacks junk nonce)) \<lparr>header = Inr h, body = ds, ending = fin\<rparr> s = (r, t)"
  shows "\<exists>j. omadmclient_process_reply T (library_callbacks junk nonce) fuel (Some p) \<lparr>session = s, smlH = Some i\<rparr> =
      (if r = Ub then Ub else Val (Some (if r = Val SML_ERR_OK then DMCLT_ERR_NONE else DMCLT_ERR_INTERNAL)),
       \<lparr>session = t, smlH = Some j\<rparr>) \<and> ended r j"
proof -
  let ?i = "appended bs i"
  note a = appended_facts [OF assms(2,8)]
  have i: "well_placed ?i" "\<not> readLocked ?i" "decoderState ?i = None" "has_callbacks ?i" "inst_encoding ?i = Some enc"
    using a(1) assms(3-5) by (simp_all add: appended_rest open_for_write_def)
  from message_processed [OF assms(1) i assms(9-13) [folded a(2)]]
  obtain j where "smlProcessData T (library_callbacks junk nonce) fuel \<lparr>session = s, smlH = Some ?i\<rparr> =
      (coded (Some ()) r, \<lparr>session = t, smlH = Some j\<rparr>)" "ended r j" by blast
  then show ?thesis
    unfolding reply_stored [OF assms(2,6-8)] by (cases r) (auto simp: try_code_def ret_def)
qed

text \<open>Replies processed one after the other, with no packet composed in between.\<close>

fun process_replies ::
  "('e, 'd) translator \<Rightarrow> 'w internals_t SmlCallbacks_t \<Rightarrow> nat \<Rightarrow> dmclt_buffer_t option list \<Rightarrow>
     ('w, 'e, 'd) client_t \<Rightarrow> dmclt_err_t option outcome list \<times> ('w, 'e, 'd) client_t" where
  "process_replies T cbs fuel [] c = ([], c)"
| "process_replies T cbs fuel (q # qs) c =
     (case omadmclient_process_reply T cbs fuel q c of
        (r, c) \<Rightarrow> case process_replies T cbs fuel qs c of (rs, c) \<Rightarrow> (r # rs, c))"

text \<open>
  C29. A reply that does not fit into the buffer leaves the write lock behind: every reply that is
  processed after it, however many and however short they are, is refused without being looked at, as
  long as no packet is composed in between.
\<close>

theorem oversized_reply_blocks:
  assumes "open_for_write i" and "room i < pk_length p"
    and "omadmclient_process_reply T cbs fuel (Some p) \<lparr>session = s, smlH = Some i\<rparr> = (r, c)"
  shows "process_replies T cbs fuel (map Some qs) c = (replicate (length qs) (Val (Some DMCLT_ERR_INTERNAL)), c)"
proof -
  let ?k = "(reset_empty i)\<lparr>writeLocked := True\<rparr>"
  have "smlLockWriteBuffer i = (Val (writePointer ?k, room i), ?k)"
    using write_steps(1) [OF assms(1), of "[]"] room_nonneg [OF assms(1)] by simp
  moreover have "smlUnlockWriteBuffer (pk_length p) ?k = (Err SML_ERR_WRONG_USAGE, ?k)"
    using assms(2) room_nonneg [OF assms(1)] reset_empty_facts(4) [OF assms(1)]
    by (simp add: smlUnlockWriteBuffer_def instanceBufSiz_def)
  ultimately have c: "c = \<lparr>session = s, smlH = Some ?k\<rparr>"
    using assms(2,3) by (simp add: omadmclient_process_reply_def try_code_def lifting DMC_FAIL_def copy_packet_def ret_def)
  have "omadmclient_process_reply T cbs fuel (Some q) c = (Val (Some DMCLT_ERR_INTERNAL), c)" for q
    by (simp add: c omadmclient_process_reply_def try_code_def lifting smlLockWriteBuffer_def ret_def)
  then show ?thesis by (induction qs) simp_all
qed

section \<open>A session that is started again\<close>

text \<open>What the server was accepted with is no concern of the tree, nor of the account.\<close>

definition auth_is :: "int \<Rightarrow> ('w, 'z) internals_t_scheme \<Rightarrow> bool" where
  "auth_is c s \<longleftrightarrow> srv_auth s = c"

interpretation auth: item_frame "auth_is c" for c
proof unfold_locales
  fix s t :: "('w, 'z) internals_t_scheme"
  assume s: "same_setting s t" "auth_is c s"
  then have "mo_env.more t = mo_env.more s" by (simp add: same_setting_def)
  then show "auth_is c t" using s(2) by (cases s; cases t) (simp add: auth_is_def)
qed

lemma drawn_as_string [keeps_rules]: "keeps (drawn e) (dmtree_node_as_string n)"
  by (rule keepsI) (auto simp: dmtree_node_as_string_def split: prod.split option.split intro: drawn_mallocD)

lemma drawn_finish_credentials [keeps_rules]: "keeps (drawn e) (finish_credentials c a)"
  unfolding finish_credentials_def or_empty_def Let_def by (intro keeps_rules)

lemma drawn_found [keeps_rules]:
  "keeps (drawn e) (found_type n a)" "keeps (drawn e) (found_name n a)" "keeps (drawn e) (found_secret n a)"
  unfolding found_type_def found_name_def found_secret_def by (intro keeps_rules)+

lemma auth_drawn [keeps_rules]:
  "keeps (auth_is c) (dmtree_node_as_string n)" "keeps (auth_is c) (finish_credentials k a)"
  "keeps (auth_is c) (found_type n a)" "keeps (auth_is c) (found_name n a)" "keeps (auth_is c) (found_secret n a)"
  by (intro auth.frame_drawn keeps_rules)+

lemma auth_fill_step [keeps_rules]:
  "(\<And>n. keeps (auth_is c) (f n a)) \<Longrightarrow> (\<And>i a. keeps (auth_is c) (k i a)) \<Longrightarrow> keeps (auth_is c) (fill_step u n a f k)"
  unfolding fill_step_def by (intro keeps_rules)

lemma auth_fill_credentials [keeps_rules]: "keeps (auth_is c) (prv_fill_credentials u a)"
  unfolding prv_fill_credentials_def found_data_def by (intro keeps_rules)

lemma auth_set_account [keeps_rules]: "keeps (auth_is c) (set_account f)"
  by (auto simp: keeps_def set_account_def auth_is_def split: option.split)

lemma auth_new_account [keeps_rules]: "keeps (auth_is c) (new_account u)"
proof (rule keepsI)
  fix s assume s: "auth_is c s"
  obtain a t where m: "malloc (account_zero\<lparr>acc_dmtree_uri := Some u\<rparr>) s = (a, t)" by fastforce
  have "auth_is c t" by (rule keepsD [OF auth.frame_malloc s m])
  then show "auth_is c (snd (new_account u s))" by (simp add: new_account_def m auth_is_def)
qed

lemma auth_account_creds [keeps_rules]: "keeps (auth_is c) (account_creds u l f)"
  unfolding account_creds_def by (intro keeps_rules)

lemma auth_get_server_account: "keeps (auth_is c) (get_server_account sv)"
  unfolding get_server_account_def by (intro keeps_rules)

lemma auth_get_short:
  fixes p :: "'w dmtree_plugin_t"
  shows "keeps (auth_is c :: ('w, 'z) internals_t_scheme \<Rightarrow> bool) (prv_get_short p u)"
proof (rule keepsI)
  fix s :: "('w, 'z) internals_t_scheme" assume s: "auth_is c s"
  show "auth_is c (snd (prv_get_short p u s))"
  proof (cases "getFunc (interface p)")
    case (Some f)
    obtain k n t where w: "on_world (f (node_zero\<lparr>node_uri := Some u\<rparr>) (plugin_data p)) s = ((k, n), t)"
      by (metis surj_pair)
    have "auth_is c t" by (rule keepsD [OF auth.frame_on_world s w])
    then show ?thesis by (simp add: prv_get_short_def Some w split: outcome.split)
  qed (simp add: prv_get_short_def s)
qed

lemma auth_read_limit [keeps_rules]: "keeps (auth_is c) (read_limit p u f)"
  unfolding read_limit_def
  by (intro keeps_FAIL auth_get_short) (auto simp: keeps_def auth_is_def split: option.split)

lemma auth_find_root_urn [keeps_rules]: "keeps (auth_is c) (\<lambda>s. prv_findUrn (root (MOs s)) u l s)"
  by (rule keeps_at) (rule auth.frame_findUrn)

lemma auth_mandatory: "keeps (auth_is c :: ('w, 'z) internals_t_scheme \<Rightarrow> bool) momgr_check_mandatory_mo"
proof -
  have "keeps (auth_is c :: ('w, 'z) internals_t_scheme \<Rightarrow> bool) (DMC_FAIL (prv_findUrn d URN_MO_DMACC None) (\<lambda>urlList.
     DMC_FAIL_ERR (urlList = None) OMADM_SYNCML_ERROR_COMMAND_FAILED (
     DMC_FAIL_NULL (prv_findPlugin ''./DevInfo'') OMADM_SYNCML_ERROR_COMMAND_FAILED (\<lambda>_.
     DMC_FAIL_NULL (prv_findPlugin ''./DevDetail'') OMADM_SYNCML_ERROR_COMMAND_FAILED (\<lambda>p.
     DMC_FAIL_ERR (getFunc (interface p) = None) OMADM_SYNCML_ERROR_SESSION_INTERNAL (
     DMC_FAIL (read_limit p ''./DevDetail/URI/MaxDepth'' (\<lambda>n. max_depth_update (\<lambda>_. n))) (\<lambda>_.
     DMC_FAIL (read_limit p ''./DevDetail/URI/MaxTotLen'' (\<lambda>n. max_total_len_update (\<lambda>_. n))) (\<lambda>_.
     read_limit p ''./DevDetail/URI/MaxSegLen'' (\<lambda>n. max_segment_len_update (\<lambda>_. n))))))))))" for d
    by (intro keeps_rules)
  then show ?thesis unfolding momgr_check_mandatory_mo_def by (simp add: keeps_def)
qed

lemma auth_set_server: "keeps (auth_is c) (dmtree_setServer sv)"
proof -
  have "keeps (auth_is c) (\<lambda>s. case strdup x s of
      (c, s) \<Rightarrow> (case c of None \<Rightarrow> Err OMADM_SYNCML_ERROR_DEVICE_FULL | Some _ \<Rightarrow> Val (), s\<lparr>server_id := c\<rparr>))" for x
    by (intro keeps_then auth.frame_malloc) (simp add: keeps_def auth_is_def)
  then show ?thesis unfolding dmtree_setServer_def by (intro keeps_FAIL_ERR keeps_FAIL_NULL keeps_pure)
qed

text \<open>
  C30. Starting a session on a handle whose last server was accepted keeps it accepted: the next server, with
  whatever account, gives commands without authenticating.
\<close>

theorem restart_keeps_acceptance:
  assumes "srv_auth s = OMADM_SYNCML_ERROR_AUTHENTICATION_ACCEPTED"
    and "omadmclient_session_start sv n s = (Val DMCLT_ERR_NONE, t)"
  shows "srv_auth t = OMADM_SYNCML_ERROR_AUTHENTICATION_ACCEPTED"
proof -
  have "keeps (auth_is OMADM_SYNCML_ERROR_AUTHENTICATION_ACCEPTED) (omadmclient_session_start sv n)"
    unfolding omadmclient_session_start_def else_error_def
    by (intro keeps_rules auth_get_server_account auth_mandatory auth_set_server)
      (auto simp: keeps_def auth_is_def accept_without_def split: option.split)
  from keepsD [OF this, of s "Val DMCLT_ERR_NONE" t] show ?thesis using assms by (simp add: auth_is_def)
qed

section \<open>Witnesses\<close>

theorem buffer_in_bounds_witness:
  "\<exists>(i :: (unit, unit) InstanceInfo_t) h. smlInitInstance (\<lambda>n. replicate n 0) True SML_XML 4 0 \<lparr>mem = []\<rparr> = (Val (SML_ERR_OK, Some i), h) \<and>
     well_placed (after_call (Unlock_write 3) (after_call Lock_write i))"
proof -
  obtain i :: "(unit, unit) InstanceInfo_t" and h :: heap
    where i: "smlInitInstance (\<lambda>n. replicate n 0) True SML_XML 4 0 \<lparr>mem = []\<rparr> = (Val (SML_ERR_OK, Some i), h)"
    by (simp add: smlInitInstance_def smlSetCallbacks_def setInstanceOptions_def Let_def)
  have "in_use i" by (rule in_use.made [OF i]) simp
  then have "in_use (after_call (Unlock_write 3) (after_call Lock_write i))"
    by (intro in_use.called) (simp_all add: takes_none_back_def)
  from buffer_in_bounds [OF this] i show ?thesis by blast
qed

theorem reply_processed_witness:
  "fst (omadmclient_process_reply byte_translator (library_callbacks [] []) 2
      (Some (packet_zero\<lparr>pk_data := Some [7, 1, 0], pk_length := 3\<rparr>))
      \<lparr>session = sample_session, smlH = Some empty_instance\<rparr>) = Val (Some DMCLT_ERR_NONE)"
proof -
  let ?m = "\<lparr>header = Inr (sample_header\<lparr>hd_cred := None\<rparr>), body = [Other_element SML_PE_FINAL], ending = Inr True\<rparr>"
  have "fst (process_message (Some (library_callbacks [] [])) ?m sample_session) = Val 0" by code_simp
  then obtain t where m: "process_message (Some (library_callbacks [] [])) ?m sample_session = (Val 0, t)"
    by (metis by_fst)
  have i: "decoderState empty_instance = None" "has_callbacks empty_instance"
    by (simp_all add: empty_instance_def sample_instance_def)
  have "xltDecInit byte_translator SML_XML (unread empty_instance @ [7, 1, 0]) \<lparr>mem = []\<rparr> =
      (Val (int 1, (), sample_header\<lparr>hd_cred := None\<rparr>), \<lparr>mem = []\<rparr>)"
    by (simp add: byte_translator_def empty_instance_facts)
  moreover have "decodes_body byte_translator () (drop 1 (unread empty_instance @ [7, 1, 0]))
      [Other_element SML_PE_FINAL] (Inr True)"
    using byte_body by (simp add: empty_instance_facts)
  ultimately show ?thesis
    using reply_processed [OF sample_session_facts(1) empty_instance_facts(1) i empty_instance_facts(2) _ _ _ _ _ _ _ m,
        of "packet_zero\<lparr>pk_data := Some [7, 1, 0], pk_length := 3\<rparr>" "[7, 1, 0]" byte_translator 1 "()" 2]
    by (auto simp: empty_instance_facts)
qed

theorem oversized_reply_blocks_witness:
  "fst (process_replies byte_translator (library_callbacks [] []) 2 [Some packet_zero, Some packet_zero]
     (snd (omadmclient_process_reply byte_translator (library_callbacks [] []) 2
       (Some (packet_zero\<lparr>pk_data := Some [7, 1, 1, 1, 0], pk_length := 5\<rparr>))
       \<lparr>session = sample_session, smlH = Some empty_instance\<rparr>))) =
   [Val (Some DMCLT_ERR_INTERNAL), Val (Some DMCLT_ERR_INTERNAL)]"
proof -
  let ?p = "packet_zero\<lparr>pk_data := Some [7, 1, 1, 1, 0], pk_length := 5\<rparr>"
  obtain r c where rc: "omadmclient_process_reply byte_translator (library_callbacks [] []) 2 (Some ?p)
      \<lparr>session = sample_session, smlH = Some empty_instance\<rparr> = (r, c)" by fastforce
  show ?thesis
    using oversized_reply_blocks [OF empty_instance_facts(1) _ rc, of "[packet_zero, packet_zero]"] rc
    by (simp add: empty_instance_facts del: process_replies.simps)
qed

text \<open>A server that has to authenticate, on a handle whose last server was accepted.\<close>

definition home_nodes :: "(string \<times> string \<times> string) list" where
  "home_nodes = account_nodes @
     [(''./DevDetail/URI/MaxDepth'', ''chr'', ''0''), (''./DevDetail/URI/MaxTotLen'', ''chr'', ''0''),
      (''./DevDetail/URI/MaxSegLen'', ''chr'', ''0''),
      (''./DMAcc/1/AppAuth/2/AAuthLevel'', ''chr'', ''SRVCRED''), (''./DMAcc/1/AppAuth/2/AAuthType'', ''chr'', ''BASIC''),
      (''./DMAcc/1/AppAuth/2/AAuthName'', ''chr'', ''srv''), (''./DMAcc/1/AppAuth/2/AAuthSecret'', ''chr'', ''key''),
      (''./DMAcc/1/AppAuth/2/AAuthData'', ''bin'', ''mmm'')]"

theorem restart_keeps_acceptance_witness:
  "srv_auth (snd (omadmclient_session_start (Some ''srv'') 7 (session_over (table_env home_nodes)
     \<lparr>srv_auth := OMADM_SYNCML_ERROR_AUTHENTICATION_ACCEPTED\<rparr>))) = 212"
proof -
  let ?s = "session_over (table_env home_nodes)\<lparr>srv_auth := OMADM_SYNCML_ERROR_AUTHENTICATION_ACCEPTED\<rparr>"
  have "fst (omadmclient_session_start (Some ''srv'') 7 ?s) = Val DMCLT_ERR_NONE" by code_simp
  then have r: "omadmclient_session_start (Some ''srv'') 7 ?s = (Val DMCLT_ERR_NONE, snd (omadmclient_session_start (Some ''srv'') 7 ?s))"
    by (rule by_fst)
  show ?thesis by (rule restart_keeps_acceptance [OF _ r]) simp
qed

end
