(* ===== verification/Spec2Isabelle.thy ===== *)
theory Spec2Isabelle
  imports Uri_Check Codec Md5 Str_Utils Mo_Types Mo_Dirs Mo_Mgr Acl Dm_Tree Pcdata Credentials Package0 Elements Ui_Alert Session
    Tree_Frame Tree_Cmds Callbacks Dispatcher Workspace Instance_Ops Client Compose Lifecycle
begin

text \<open>
  \<^bold>\<open>The program.\<close>  libdmclient is an OMA DM client: a server sends a device messages of SyncML
  commands, which read and change a tree of nodes, and the device answers each command with a status.
  The application calls the interface of \<^verbatim>\<open>dmcore/src/omadmclient.c\<close>: it opens a session, registers
  management objects, starts the session (by itself or on a notification, \<^verbatim>\<open>package0.c\<close>) and then
  takes packets to send and hands in the replies.  A packet is composed from the list of elements of
  the session by the SyncML toolkit (\<^verbatim>\<open>externals/SyncMLRTK\<close>), which writes it into the buffer of an
  instance; a reply is put into the same buffer, decoded, and dispatched element by element to
  \<^verbatim>\<open>callbacks.c\<close>.  A callback checks that the server is authenticated (\<^verbatim>\<open>credentials.c\<close>, with
  the base64 of \<^verbatim>\<open>codec.c\<close> and the MD5 of \<^verbatim>\<open>externals/libmd5-rfc\<close>), turns items into nodes
  (\<^verbatim>\<open>sml2tree.c\<close>) and calls the tree (\<^verbatim>\<open>dmtree.c\<close>), which checks the URI (\<^verbatim>\<open>uricheck.c\<close>) and the
  access rights and passes the operation to the management object responsible (\<^verbatim>\<open>momgr.c\<close>,
  \<^verbatim>\<open>defaultroot.c\<close>).  Then it appends the status to the list of elements.

  \<^bold>\<open>The theories.\<close>
    \<^item> \<open>Dm_Prelude\<close>: outcomes, the error macros of \<^verbatim>\<open>error_macros.h\<close>, the allocator, \<^verbatim>\<open>string.h\<close>, and
      the rules for predicates that commands keep.
    \<^item> \<open>Uri_Check\<close>, \<open>Codec\<close>, \<open>Md5\<close>, \<open>Str_Utils\<close>: \<^verbatim>\<open>uricheck.c\<close>, \<^verbatim>\<open>codec.c\<close>, \<^verbatim>\<open>md5.c\<close>, the strings and
      arrays of \<^verbatim>\<open>utils.c\<close>.
    \<^item> \<open>Mo_Types\<close>, \<open>Mo_Dirs\<close>, \<open>Mo_Mgr\<close>: nodes, the directory of management objects with its search and
      cache, and the operations of the manager; \<^verbatim>\<open>momgr.c\<close>, \<^verbatim>\<open>defaultroot.c\<close>, \<^verbatim>\<open>omadmtree_mo.h\<close>.
    \<^item> \<open>Acl\<close>, \<open>Dm_Tree\<close>, \<open>Tree_Frame\<close>: access control lists and the commands of \<^verbatim>\<open>dmtree.c\<close>, and what they
      leave alone.
    \<^item> \<open>Pcdata\<close>, \<open>Credentials\<close>, \<open>Package0\<close>: values, accounts and authentication, notifications.
    \<^item> \<open>Elements\<close>, \<open>Ui_Alert\<close>, \<open>Session\<close>, \<open>Tree_Cmds\<close>, \<open>Callbacks\<close>: the elements of messages, alerts to
      the user, the session \<open>internals_t\<close> with its lists, the commands on the tree, the callbacks.
    \<^item> \<open>Workspace\<close>, \<open>Dispatcher\<close>, \<open>Instance_Ops\<close>: the buffer of an instance (\<^verbatim>\<open>mgrinstancemgr.c\<close>), the
      switch over the elements, and the operations that build and process messages
      (\<^verbatim>\<open>mgrcmdbuilder.c\<close>, \<^verbatim>\<open>mgrcmddispatcher.c\<close>).
    \<^item> \<open>Client\<close>, \<open>Compose\<close>, \<open>Lifecycle\<close>: \<^verbatim>\<open>omadmclient.c\<close>, what the packets hold, and what holds over the
      life of an instance and of a session.

  \<^bold>\<open>How the code is represented.\<close>
    \<^item> A function is a state-passing command; its outcome is a value (\<open>Val\<close>), the code it returns
      instead (\<open>Err\<close>), or undefined behaviour (\<open>Ub\<close>): a null, freed or indeterminate pointer that is
      dereferenced, an access outside an object, a signed overflow.  The error macros are combinators,
      so every jump to an error label is a branch.
    \<^item> State is a chain of records: the schedule of the allocator, the world, the manager, the account,
      the session, and with \<open>client_t\<close> the instance.  The world \<open>'w\<close> is whatever the callbacks of the
      application and of the management objects read and write: an object is a record of functions on
      it, so a theorem holds for all of them.
    \<^item> \<open>mem\<close> says of each coming allocation whether it succeeds.  \<open>plenty\<close> says that none fails; it is also
      a part of \<open>still\<close>, \<open>listed\<close>, \<open>held\<close> and \<open>sendable_session\<close>.  A theorem that assumes none of these
      holds for every schedule, so with every failure of \<^verbatim>\<open>malloc\<close>; the rights of a server do need
      \<open>plenty\<close>, as \<open>failed_lookup_grants_right\<close> shows.
    \<^item> Integers are words where they wrap or overflow: \<^verbatim>\<open>int\<close> has 32 bits, \<open>msg_id\<close> of a cell has eight.
      Memory that was never written is a parameter (\<open>junk\<close>, \<open>fresh\<close>) or the value \<open>Indeterminate\<close> of a field.
      Parent pointers of directories are the list of the directories above.  Pointers into the buffer
      of an instance are offsets.  The host is little-endian.
    \<^item> What a function frees is not kept; where the code uses it afterwards, the model is \<open>Ub\<close> there.  The
      start of a sequence is a \<open>pointer\<close>, whose state \<open>Freed\<close> is part of the session.  One dangling
      pointer is not followed: after a registration that failed and freed the object of the cached URI,
      the lookup of that URI gives the freed object back.
    \<^item> The encoder and decoder (\<^verbatim>\<open>sml/xlt\<close>) are an argument of what calls them, the record \<open>translator\<close>.
      Hypotheses on it say which bytes it writes and reads (\<open>encodes_message\<close>, \<open>decodes_body\<close>) or that
      it takes a byte for each element (\<open>decoder_progress\<close>); \<open>byte_translator\<close> satisfies them.
    \<^item> Two loops take fuel, and \<open>None\<close> says that it ran out.  The walk over the children of a node takes two
      more than the URI limit of the device, since each level makes the URI longer; the loop over a
      message takes one more than its bytes.  Both are proved to be enough.

  \<^bold>\<open>What the lemmas show.\<close>
    \<^item> Decisions: the grammars that the checks of URIs and access control lists accept, the lookup of the
      object with the longest prefix, MD5 against RFC 1321, base64 and the other round trips.
    \<^item> Invariants: the directory stays well formed and no operation on a node changes it, the lookup
      cache agrees with it, the pointers of a buffer stay in order.
    \<^item> Security: while no allocation fails and the queries of the objects have no effects, no command
      changes the world without the right it needs; a server is accepted only with its digest; the
      elements of a message from one that is not accepted change the lists of elements, the last code
      for the client and the state of the sequence, and nothing else unless a status has a challenge.
    \<^item> Composition: each item is answered by one status with its code; processing the bytes of a message refines
      processing its elements; a packet is what the encoder writes for the numbered elements; the
      status of a sent command finds it.
    \<^item> Errors: the inputs on which the code is undefined or does something else than its comments say,
      each as a theorem about the same definitions.
  The locales are the interfaces: \<open>byte_codec\<close>, \<open>plugin_directory\<close>, \<open>query_objects\<close>, \<open>byte_queue\<close>, and the frames
  \<open>tree_frame\<close>, \<open>item_frame\<close>, \<open>command_frame\<close>, \<open>status_frame\<close> and \<open>message_frame\<close>, in which a predicate is a
  parameter and what it must not look at the assumption; each is interpreted on the model's own
  definitions.

  \<^bold>\<open>Not modelled.\<close>  The XML and WBXML translation of the vendored toolkit (a parameter), the functions
  that only free, logging, the lists of instances and shared workspaces (not part of the \<^verbatim>\<open>NOWSM\<close>
  build), the commands the library never sends and the evaluation mode of the encoder, the wrappers
  of the standard library, and the test programs.
\<close>

end
